(* ===== verification/Ployz_Prelude.thy ===== *)
theory Ployz_Prelude
  imports
    Main
    "HOL-Library.Word"
    "HOL-Library.Char_ord"
    "HOL-Library.List_Lexorder"
    "HOL-Library.Product_Lexorder"
    "HOL-Library.Multiset"
begin

text \<open>
  The part of Rust and of its standard library that the components share.

  \<^item> \<open>Result\<close> is a sum type with the error on the left; the operator \<open>?\<close> is
    \<open>rbind\<close>, a loop whose body may return early with an error is \<open>rfold\<close>.
    A panic (a failing \<open>expect\<close>, an index out of range) is an error of its
    own, so that its absence can be stated.
  \<^item> \<open>u64\<close> is a 64-bit word with the checked and the saturating operations of
    the standard library; their laws are stated through \<open>unat\<close>.
  \<^item> \<open>BTreeMap\<close> and \<open>BTreeSet\<close> are sorted lists, because the code iterates over
    them in key order. The locale \<open>ordered_map\<close> is the contract that the
    clients use; it is interpreted on the sorted association lists.
\<close>

named_theorems result_simps
named_theorems word_simps
named_theorems map_simps

section \<open>Results\<close>

type_synonym ('e, 'a) result = "'e + 'a"

text \<open>An error of the code, or a panic of the thread that runs it.\<close>

datatype 'e fault = Err 'e | Panic

definition rbind :: "('e, 'a) result \<Rightarrow> ('a \<Rightarrow> ('e, 'b) result) \<Rightarrow> ('e, 'b) result" where
  "rbind m f = (case m of Inl e \<Rightarrow> Inl e | Inr x \<Rightarrow> f x)"

fun rfold :: "('a \<Rightarrow> 's \<Rightarrow> ('e, 's) result) \<Rightarrow> 'a list \<Rightarrow> 's \<Rightarrow> ('e, 's) result" where
  "rfold f [] s = Inr s"
| "rfold f (x # xs) s = rbind (f x s) (rfold f xs)"

fun rmap :: "('a \<Rightarrow> ('e, 'b) result) \<Rightarrow> 'a list \<Rightarrow> ('e, 'b list) result" where
  "rmap f [] = Inr []"
| "rmap f (x # xs) = rbind (f x) (\<lambda>y. rbind (rmap f xs) (\<lambda>ys. Inr (y # ys)))"

definition ok_or :: "'e \<Rightarrow> 'a option \<Rightarrow> ('e, 'a) result" where
  "ok_or e x = (case x of None \<Rightarrow> Inl e | Some y \<Rightarrow> Inr y)"

definition map_err :: "('e \<Rightarrow> 'f) \<Rightarrow> ('e, 'a) result \<Rightarrow> ('f, 'a) result" where
  "map_err f m = (case m of Inl e \<Rightarrow> Inl (f e) | Inr x \<Rightarrow> Inr x)"

definition is_ok :: "('e, 'a) result \<Rightarrow> bool" where
  "is_ok m = (case m of Inl _ \<Rightarrow> False | Inr _ \<Rightarrow> True)"

lemma rbind_Inl [simp]: "rbind (Inl e) f = Inl e"
  and rbind_Inr [simp]: "rbind (Inr x) f = f x"
  by (simp_all add: rbind_def)

lemma rbind_eq_Inr [result_simps]:
  "rbind m f = Inr y \<longleftrightarrow> (\<exists>x. m = Inr x \<and> f x = Inr y)"
  by (cases m) auto

lemma rbind_eq_Inl [result_simps]:
  "rbind m f = Inl e \<longleftrightarrow> m = Inl e \<or> (\<exists>x. m = Inr x \<and> f x = Inl e)"
  by (cases m) auto

lemma rbind_assoc: "rbind (rbind m f) g = rbind m (\<lambda>x. rbind (f x) g)"
  by (cases m) auto

lemma ok_or_eq_Inr [result_simps]: "ok_or e x = Inr y \<longleftrightarrow> x = Some y"
  and ok_or_eq_Inl [result_simps]: "ok_or e x = Inl e' \<longleftrightarrow> x = None \<and> e' = e"
  by (auto simp: ok_or_def split: option.splits)

lemma ok_or_simps [simp]: "ok_or e None = Inl e" "ok_or e (Some y) = Inr y"
  by (simp_all add: ok_or_def)

lemma map_err_eq_Inr [result_simps]: "map_err f m = Inr y \<longleftrightarrow> m = Inr y"
  and map_err_eq_Inl [result_simps]: "map_err f m = Inl e \<longleftrightarrow> (\<exists>d. m = Inl d \<and> e = f d)"
  by (auto simp: map_err_def split: sum.splits)

lemma map_err_simps [simp]: "map_err f (Inl e) = Inl (f e)" "map_err f (Inr x) = Inr x"
  by (simp_all add: map_err_def)

lemma is_ok_simps [simp]: "\<not> is_ok (Inl e)" "is_ok (Inr x)"
  by (simp_all add: is_ok_def)

lemma is_ok_iff: "is_ok m \<longleftrightarrow> (\<exists>x. m = Inr x)"
  by (cases m) auto

lemma if_Inl_eq_Inr [result_simps]:
  "(if b then Inl e else m) = Inr y \<longleftrightarrow> \<not> b \<and> m = Inr y"
  by auto

lemma rfold_append: "rfold f (xs @ ys) s = rbind (rfold f xs s) (rfold f ys)"
  by (induction xs arbitrary: s) (auto simp: rbind_def split: sum.splits)

text \<open>A loop invariant: what every successful body keeps holds at the end.\<close>

lemma rfold_invariant:
  assumes "rfold f xs s = Inr t" and "P s"
    and "\<And>x s t. x \<in> set xs \<Longrightarrow> P s \<Longrightarrow> f x s = Inr t \<Longrightarrow> P t"
  shows "P t"
  using assms
proof (induction xs arbitrary: s)
  case (Cons x xs)
  from Cons.prems(1) obtain u where u: "f x s = Inr u" "rfold f xs u = Inr t"
    by (auto simp: result_simps)
  have "P u"
    using Cons.prems u by auto
  with u Cons.prems(3) show ?case
    by (auto intro: Cons.IH)
qed simp

text \<open>The same with the invariant indexed by the elements already processed.\<close>

lemma rfold_invariant_prefix:
  assumes "rfold f xs s = Inr t" and "P [] s"
    and "\<And>pre x post s t. xs = pre @ x # post \<Longrightarrow> P pre s \<Longrightarrow> f x s = Inr t \<Longrightarrow> P (pre @ [x]) t"
  shows "P xs t"
  using assms
proof (induction xs arbitrary: t rule: rev_induct)
  case (snoc x xs)
  from snoc.prems(1) obtain u where u: "rfold f xs s = Inr u" "f x u = Inr t"
    by (auto simp: result_simps rfold_append)
  have "P xs u"
    by (rule snoc.IH [OF u(1) snoc.prems(2)]) (auto intro: snoc.prems(3))
  with u(2) show ?case
    by (auto intro: snoc.prems(3))
qed simp

lemma rmap_eq_Inr: "rmap f xs = Inr ys \<longleftrightarrow> list_all2 (\<lambda>x y. f x = Inr y) xs ys"
  by (induction xs arbitrary: ys) (auto simp: result_simps list_all2_Cons1)

section \<open>Lists\<close>

lemma find_append:
  "List.find P (xs @ ys) = (case List.find P xs of None \<Rightarrow> List.find P ys | Some x \<Rightarrow> Some x)"
  by (induction xs) auto

lemma find_SomeD: "List.find P xs = Some x \<Longrightarrow> x \<in> set xs \<and> P x"
  by (induction xs) (auto split: if_splits)

lemma find_Some_in [dest]: "List.find P xs = Some x \<Longrightarrow> x \<in> set xs"
  by (simp add: find_SomeD)

lemma in_set_map_filter: "y \<in> set (List.map_filter f xs) \<longleftrightarrow> (\<exists>x \<in> set xs. f x = Some y)"
  by (induction xs) (auto simp: map_filter_simps split: option.splits)

section \<open>Machine integers\<close>

type_synonym u8 = "8 word"
type_synonym u16 = "16 word"
type_synonym u32 = "32 word"
type_synonym u64 = "64 word"

definition checked_add :: "'a::len word \<Rightarrow> 'a word \<Rightarrow> 'a word option" where
  "checked_add a b = (if uint a + uint b < 2 ^ LENGTH('a) then Some (a + b) else None)"

definition checked_sub :: "'a::len word \<Rightarrow> 'a word \<Rightarrow> 'a word option" where
  "checked_sub a b = (if b \<le> a then Some (a - b) else None)"

definition checked_mul :: "'a::len word \<Rightarrow> 'a word \<Rightarrow> 'a word option" where
  "checked_mul a b = (if uint a * uint b < 2 ^ LENGTH('a) then Some (a * b) else None)"

definition saturating_add :: "'a::len word \<Rightarrow> 'a word \<Rightarrow> 'a word" where
  "saturating_add a b = (if uint a + uint b < 2 ^ LENGTH('a) then a + b else - 1)"

definition saturating_sub :: "'a::len word \<Rightarrow> 'a word \<Rightarrow> 'a word" where
  "saturating_sub a b = (if b \<le> a then a - b else 0)"

definition checked_next_multiple_of :: "'a::len word \<Rightarrow> 'a word \<Rightarrow> 'a word option" where
  "checked_next_multiple_of a m =
     (if m = 0 then None
      else if a mod m = 0 then Some a
      else checked_add a (m - a mod m))"

lemma uint_add_less:
  "uint a + uint b < 2 ^ LENGTH('a) \<longleftrightarrow> unat a + unat b < 2 ^ LENGTH('a)"
  for a b :: "'a::len word"
proof -
  have "uint a + uint b < 2 ^ LENGTH('a) \<longleftrightarrow> int (unat a + unat b) < int (2 ^ LENGTH('a))"
    by simp
  then show ?thesis
    by (simp only: of_nat_less_iff)
qed

lemma checked_add_unat:
  "checked_add a b = (if unat a + unat b < 2 ^ LENGTH('a) then Some (a + b) else None)"
  for a b :: "'a::len word"
  by (simp only: checked_add_def uint_add_less)

lemma saturating_add_unat:
  "saturating_add a b = (if unat a + unat b < 2 ^ LENGTH('a) then a + b else - 1)"
  for a b :: "'a::len word"
  by (simp only: saturating_add_def uint_add_less)

lemma uint_less_add_unat: "uint c < uint a + uint b \<longleftrightarrow> unat c < unat a + unat b"
  for a b c :: "'a::len word"
proof -
  have "uint c < uint a + uint b \<longleftrightarrow> int (unat c) < int (unat a + unat b)"
    by simp
  then show ?thesis
    by (simp only: of_nat_less_iff)
qed

lemma checked_add_eq_Some [word_simps]:
  "checked_add a b = Some c \<longleftrightarrow> unat c = unat a + unat b"
  for a b c :: "'a::len word"
proof -
  have "unat (a + b) = unat a + unat b" if "unat a + unat b < 2 ^ LENGTH('a)"
    using that by (simp add: unat_word_ariths)
  moreover have "unat c < 2 ^ LENGTH('a)"
    by (rule unsigned_less)
  ultimately show ?thesis
    by (auto simp: checked_add_unat word_unat_eq_iff simp del: unsigned_less)
qed

lemma checked_add_eq_None [word_simps]:
  "checked_add a b = None \<longleftrightarrow> 2 ^ LENGTH('a) \<le> unat a + unat b"
  for a b :: "'a::len word"
  by (auto simp: checked_add_unat)

lemma checked_sub_eq_Some [word_simps]:
  "checked_sub a b = Some c \<longleftrightarrow> unat a = unat b + unat c"
  for a b c :: "'a::len word"
proof
  assume "checked_sub a b = Some c"
  then have "b \<le> a" "c = a - b"
    by (auto simp: checked_sub_def split: if_splits)
  then show "unat a = unat b + unat c"
    by (simp add: unat_sub word_le_nat_alt)
next
  assume *: "unat a = unat b + unat c"
  then have "b \<le> a"
    by (simp add: word_le_nat_alt)
  moreover from this * have "unat (a - b) = unat c"
    by (simp add: unat_sub)
  ultimately show "checked_sub a b = Some c"
    by (simp add: checked_sub_def word_unat_eq_iff)
qed

lemma unat_saturating_sub [word_simps]: "unat (saturating_sub a b) = unat a - unat b"
  for a b :: "'a::len word"
  by (auto simp: saturating_sub_def unat_sub word_le_nat_alt)

lemma unat_saturating_add [word_simps]:
  "unat (saturating_add a b) = min (unat a + unat b) (2 ^ LENGTH('a) - 1)"
  for a b :: "'a::len word"
proof (cases "unat a + unat b < 2 ^ LENGTH('a)")
  case True
  then show ?thesis
    by (simp add: saturating_add_unat unat_word_ariths)
next
  case False
  then show ?thesis
    by (simp add: saturating_add_unat unsigned_minus_1_eq_mask mask_eq_exp_minus_1)
qed

lemma unat_max [word_simps]: "unat (max a b) = max (unat a) (unat b)"
  for a b :: "'a::len word"
  by (simp add: max_def word_le_nat_alt)

lemma unat_min [word_simps]: "unat (min a b) = min (unat a) (unat b)"
  for a b :: "'a::len word"
  by (simp add: min_def word_le_nat_alt)

lemma ex_word:
  assumes "n < 2 ^ LENGTH('a)"
  shows "\<exists>w :: 'a::len word. unat w = n"
  using assms by (intro exI [of _ "of_nat n"]) (simp add: unsigned_of_nat take_bit_nat_eq_self)

lemma ex_word_le:
  assumes "n \<le> unat (v :: 'a::len word)"
  shows "\<exists>w :: 'a word. unat w = n"
  using assms unsigned_less [of v, where ?'a = nat] by (intro ex_word) (rule le_less_trans)

lemma next_multiple_nat:
  fixes x y :: nat
  assumes "0 < y" and "x mod y \<noteq> 0"
  shows "y dvd x + (y - x mod y)" and "x \<le> x + (y - x mod y)" and "x + (y - x mod y) < x + y"
proof -
  have "x + (y - x mod y) = y * (x div y) + y"
    using assms mod_less_divisor [of y x] mult_div_mod_eq [of y x] by linarith
  then show "y dvd x + (y - x mod y)"
    by simp
  show "x \<le> x + (y - x mod y)" "x + (y - x mod y) < x + y"
    using assms mod_less_divisor [of y x] by linarith+
qed

lemma checked_next_multiple_of_Some:
  fixes a m c :: "'a::len word"
  assumes "checked_next_multiple_of a m = Some c"
  shows "unat m dvd unat c" and "unat a \<le> unat c" and "unat c < unat a + unat m"
proof -
  have m: "m \<noteq> 0" "0 < unat m"
    using assms by (auto simp: checked_next_multiple_of_def unat_gt_0)
  have le: "a mod m \<le> m"
    using m by (simp add: word_le_nat_alt unat_mod less_imp_le)
  have "unat m dvd unat c \<and> unat a \<le> unat c \<and> unat c < unat a + unat m"
  proof (cases "a mod m = 0")
    case True
    then have "unat a mod unat m = 0"
      by (simp add: word_unat_eq_iff unat_mod)
    with True assms m show ?thesis
      by (auto simp: checked_next_multiple_of_def dvd_eq_mod_eq_0)
  next
    case False
    then have "unat a mod unat m \<noteq> 0"
      by (simp add: word_unat_eq_iff unat_mod)
    moreover have "unat c = unat a + (unat m - unat a mod unat m)"
      using assms m False le
      by (simp add: checked_next_multiple_of_def checked_add_eq_Some unat_sub unat_mod)
    ultimately show ?thesis
      using next_multiple_nat [of "unat m" "unat a"] m by simp
  qed
  then show "unat m dvd unat c" "unat a \<le> unat c" "unat c < unat a + unat m"
    by auto
qed

text \<open>The next multiple is the least one, so it is monotone and overflows later.\<close>

lemma dvd_less_add:
  fixes x y d :: nat
  assumes "d dvd x" and "d dvd y" and "x < y"
  shows "x + d \<le> y"
proof -
  obtain i j where "x = d * i" "y = d * j"
    using assms by (auto elim!: dvdE)
  with assms(3) have "d * (i + 1) \<le> d * j"
    by (intro mult_le_mono2) (simp add: Suc_leI)
  then show ?thesis
    using \<open>x = d * i\<close> \<open>y = d * j\<close> by simp
qed

lemma checked_next_multiple_of_mono:
  fixes a b m c :: "'a::len word"
  assumes c: "checked_next_multiple_of b m = Some c" and "a \<le> b"
  shows "\<exists>d. checked_next_multiple_of a m = Some d \<and> d \<le> c"
proof -
  note c_props = checked_next_multiple_of_Some [OF c]
  have m: "m \<noteq> 0" "0 < unat m"
    using c by (auto simp: checked_next_multiple_of_def unat_gt_0)
  have ab: "unat a \<le> unat b"
    using assms(2) by (simp add: word_le_nat_alt)
  have "checked_next_multiple_of a m \<noteq> None"
  proof (cases "a mod m = 0")
    case False
    then have r: "unat a mod unat m \<noteq> 0"
      by (simp add: word_unat_eq_iff unat_mod)
    have le: "a mod m \<le> m"
      using m by (simp add: word_le_nat_alt unat_mod less_imp_le)
    have "unat a + (unat m - unat a mod unat m) \<le> unat c"
    proof (rule ccontr)
      assume "\<not> ?thesis"
      then have "unat c + unat m \<le> unat a + (unat m - unat a mod unat m)"
        using next_multiple_nat(1) [OF m(2) r] c_props(1) by (intro dvd_less_add) auto
      with next_multiple_nat(3) [OF m(2) r] c_props(2) ab show False
        by linarith
    qed
    also have "unat c < 2 ^ LENGTH('a)"
      by (rule unsigned_less)
    finally have "unat a + unat (m - a mod m) < 2 ^ LENGTH('a)"
      using le by (simp add: unat_sub unat_mod)
    with False m show ?thesis
      by (simp add: checked_next_multiple_of_def checked_add_unat)
  qed (use m in \<open>simp add: checked_next_multiple_of_def\<close>)
  then obtain d where d: "checked_next_multiple_of a m = Some d"
    by blast
  note d_props = checked_next_multiple_of_Some [OF d]
  have "unat d \<le> unat c"
  proof (rule ccontr)
    assume "\<not> ?thesis"
    then have "unat c + unat m \<le> unat d"
      using d_props(1) c_props(1) by (intro dvd_less_add) auto
    with d_props(3) c_props(2) ab show False
      by linarith
  qed
  with d show ?thesis
    by (simp add: word_le_nat_alt)
qed

end
