(* ===== verification/Ordered_Map.thy ===== *)
theory Ordered_Map
  imports Ployz_Prelude
begin

text \<open>
  \<open>BTreeMap\<close> and \<open>BTreeSet\<close> of the Rust standard library: association lists
  and lists that are strictly sorted, so that iterating over them is iterating
  in key order. The clients rely on the laws of the locale \<open>ordered_map\<close>, which
  the sorted association lists are shown to satisfy.
\<close>

section \<open>The contract of a map\<close>

locale ordered_map =
  fixes empty :: 'm
    and get :: "'m \<Rightarrow> 'k \<Rightarrow> 'v option"
    and insert :: "'k \<Rightarrow> 'v \<Rightarrow> 'm \<Rightarrow> 'm"
    and remove :: "'k \<Rightarrow> 'm \<Rightarrow> 'm"
    and inv :: "'m \<Rightarrow> bool"
  assumes get_empty: "get empty k = None"
    and get_insert: "get (insert k v m) j = (if j = k then Some v else get m j)"
    and get_remove: "inv m \<Longrightarrow> get (remove k m) j = (if j = k then None else get m j)"
    and inv_empty: "inv empty"
    and inv_insert: "inv m \<Longrightarrow> inv (insert k v m)"
    and inv_remove: "inv m \<Longrightarrow> inv (remove k m)"
begin

lemma get_fold_insert:
  "get (fold (\<lambda>(k, v). insert k v) kvs m) j
     = (case map_of (rev kvs) j of None \<Rightarrow> get m j | Some v \<Rightarrow> Some v)"
proof (induction kvs arbitrary: m)
  case (Cons kv kvs)
  obtain k v where kv: "kv = (k, v)"
    by (cases kv)
  show ?case
    by (simp add: kv Cons.IH get_insert map_add_def split: option.split)
qed simp

lemma inv_fold_insert: "inv m \<Longrightarrow> inv (fold (\<lambda>(k, v). insert k v) kvs m)"
  by (induction kvs arbitrary: m) (auto intro: inv_insert)

lemma get_insert_unless_present:
  "get (if get m k = None then insert k v m else m) j
     = (if j = k \<and> get m k = None then Some v else get m j)"
  by (simp add: get_insert)

end

section \<open>Sorted association lists\<close>

type_synonym ('k, 'v) btree = "('k \<times> 'v) list"

definition bt_wf :: "('k::linorder, 'v) btree \<Rightarrow> bool" where
  "bt_wf m = sorted_wrt (<) (map fst m)"

definition bt_get :: "('k, 'v) btree \<Rightarrow> 'k \<Rightarrow> 'v option" where
  "bt_get m k = map_of m k"

fun bt_insert :: "'k::linorder \<Rightarrow> 'v \<Rightarrow> ('k, 'v) btree \<Rightarrow> ('k, 'v) btree" where
  "bt_insert k v [] = [(k, v)]"
| "bt_insert k v (e # m) =
     (if fst e < k then e # bt_insert k v m
      else if fst e = k then (k, v) # m
      else (k, v) # e # m)"

definition bt_remove :: "'k \<Rightarrow> ('k, 'v) btree \<Rightarrow> ('k, 'v) btree" where
  "bt_remove k m = filter (\<lambda>e. fst e \<noteq> k) m"

definition bt_contains :: "('k, 'v) btree \<Rightarrow> 'k \<Rightarrow> bool" where
  "bt_contains m k = (bt_get m k \<noteq> None)"

text \<open>\<open>collect\<close> and \<open>extend\<close>: of two entries with one key the later one stays.\<close>

definition bt_extend :: "('k::linorder \<times> 'v) list \<Rightarrow> ('k, 'v) btree \<Rightarrow> ('k, 'v) btree" where
  "bt_extend kvs m = fold (\<lambda>(k, v). bt_insert k v) kvs m"

abbreviation bt_collect :: "('k::linorder \<times> 'v) list \<Rightarrow> ('k, 'v) btree" where
  "bt_collect kvs \<equiv> bt_extend kvs []"

definition bt_or_insert :: "'k::linorder \<Rightarrow> 'v \<Rightarrow> ('k, 'v) btree \<Rightarrow> ('k, 'v) btree" where
  "bt_or_insert k v m = (if bt_get m k = None then bt_insert k v m else m)"

text \<open>\<open>entry(k).or_default()\<close> followed by an update of the value.\<close>

definition bt_update_default ::
  "'k::linorder \<Rightarrow> 'v \<Rightarrow> ('v \<Rightarrow> 'v) \<Rightarrow> ('k, 'v) btree \<Rightarrow> ('k, 'v) btree" where
  "bt_update_default k d f m =
     bt_insert k (f (case bt_get m k of None \<Rightarrow> d | Some v \<Rightarrow> v)) m"

abbreviation bt_keys :: "('k, 'v) btree \<Rightarrow> 'k list" where
  "bt_keys m \<equiv> map fst m"

abbreviation bt_values :: "('k, 'v) btree \<Rightarrow> 'v list" where
  "bt_values m \<equiv> map snd m"

lemma bt_get_Nil [simp]: "bt_get [] k = None"
  by (simp add: bt_get_def)

lemma bt_get_Cons: "bt_get ((k, v) # m) j = (if j = k then Some v else bt_get m j)"
  by (simp add: bt_get_def)

lemma bt_get_insert [map_simps]:
  "bt_get (bt_insert k v m) j = (if j = k then Some v else bt_get m j)"
  by (induction m) (auto simp: bt_get_def)

lemma bt_get_remove [map_simps]:
  "bt_get (bt_remove k m) j = (if j = k then None else bt_get m j)"
  by (induction m) (auto simp: bt_get_def bt_remove_def)

lemma bt_keys_insert [map_simps]: "set (bt_keys (bt_insert k v m)) = {k} \<union> set (bt_keys m)"
  by (induction m) auto

lemma bt_wf_Nil [simp, intro!]: "bt_wf []"
  by (simp add: bt_wf_def)

lemma bt_wf_insert [intro]: "bt_wf m \<Longrightarrow> bt_wf (bt_insert k v m)"
proof (induction m)
  case (Cons e m)
  then have "bt_wf (bt_insert k v m)"
    by (simp add: bt_wf_def)
  moreover have "set (map fst (bt_insert k v m)) = {k} \<union> set (map fst m)"
    by (rule bt_keys_insert)
  ultimately show ?case
    using Cons.prems by (auto simp: bt_wf_def)
qed (simp add: bt_wf_def)

lemma bt_wf_remove [intro]: "bt_wf m \<Longrightarrow> bt_wf (bt_remove k m)"
  by (induction m) (auto simp: bt_wf_def bt_remove_def)

interpretation bt: ordered_map "[]" bt_get bt_insert bt_remove bt_wf
  by unfold_locales (auto simp: map_simps)

lemma bt_get_extend [map_simps]:
  "bt_get (bt_extend kvs m) j = (case map_of (rev kvs) j of None \<Rightarrow> bt_get m j | Some v \<Rightarrow> Some v)"
  by (simp add: bt_extend_def bt.get_fold_insert)

lemma bt_wf_extend [intro]: "bt_wf m \<Longrightarrow> bt_wf (bt_extend kvs m)"
  by (simp add: bt_extend_def bt.inv_fold_insert)

lemma bt_get_or_insert [map_simps]:
  "bt_get (bt_or_insert k v m) j = (if j = k \<and> bt_get m k = None then Some v else bt_get m j)"
  by (simp add: bt_or_insert_def bt_get_insert)

lemma bt_wf_or_insert [intro]: "bt_wf m \<Longrightarrow> bt_wf (bt_or_insert k v m)"
  by (auto simp: bt_or_insert_def)

lemma bt_get_update_default [map_simps]:
  "bt_get (bt_update_default k d f m) j
     = (if j = k then Some (f (case bt_get m k of None \<Rightarrow> d | Some v \<Rightarrow> v)) else bt_get m j)"
  by (simp add: bt_update_default_def bt_get_insert)

lemma bt_wf_update_default [intro]: "bt_wf m \<Longrightarrow> bt_wf (bt_update_default k d f m)"
  by (auto simp: bt_update_default_def)

lemma bt_wf_distinct: "bt_wf m \<Longrightarrow> distinct (bt_keys m)"
  by (simp add: bt_wf_def strict_sorted_iff)

lemma bt_get_Some_iff: "bt_wf m \<Longrightarrow> bt_get m k = Some v \<longleftrightarrow> (k, v) \<in> set m"
  by (simp add: bt_get_def bt_wf_distinct)

lemma bt_get_in_set: "bt_get m k = Some v \<Longrightarrow> (k, v) \<in> set m"
  by (simp add: bt_get_def map_of_SomeD)

lemma bt_get_None_iff: "bt_get m k = None \<longleftrightarrow> k \<notin> set (bt_keys m)"
  by (simp add: bt_get_def map_of_eq_None_iff)

lemma bt_contains_iff: "bt_contains m k \<longleftrightarrow> k \<in> set (bt_keys m)"
  by (auto simp: bt_contains_def bt_get_None_iff)

lemma bt_contains_insert [map_simps]: "bt_contains (bt_insert k v m) j \<longleftrightarrow> j = k \<or> bt_contains m j"
  by (simp add: bt_contains_def bt_get_insert)

lemma bt_get_map_values: "bt_get (map (\<lambda>(k, v). (k, f v)) m) k = map_option f (bt_get m k)"
  by (induction m) (auto simp: bt_get_def)

lemma bt_wf_map_values: "bt_wf m \<Longrightarrow> bt_wf (map (\<lambda>(k, v). (k, f v)) m)"
proof -
  have "map fst (map (\<lambda>(k, v). (k, f v)) m) = map fst m"
    by auto
  then show "bt_wf m \<Longrightarrow> bt_wf (map (\<lambda>(k, v). (k, f v)) m)"
    by (simp only: bt_wf_def)
qed

text \<open>Two sorted maps with the same entries are equal.\<close>

lemma bt_wf_ext:
  assumes "bt_wf m" and "bt_wf m'" and "\<And>k. bt_get m k = bt_get m' k"
  shows "m = m'"
proof -
  have "set (bt_keys m) = set (bt_keys m')"
    using assms(3) bt_get_None_iff by (metis subsetI subset_antisym)
  then have keys: "bt_keys m = bt_keys m'"
    using assms(1,2) unfolding bt_wf_def by (intro strict_sorted_equal)
  have "zip (bt_keys m) (bt_values m) = zip (bt_keys m') (bt_values m')"
  proof -
    have "snd e = snd e'" if "i < length m" "e = m ! i" "e' = m' ! i" for i e e'
    proof -
      have len: "length m = length m'"
        using keys by (metis length_map)
      then have "(fst e, snd e) \<in> set m" "(fst e', snd e') \<in> set m'"
        using that by auto
      moreover have "fst e = fst e'"
        using keys that len by (metis nth_map)
      ultimately show ?thesis
        using assms bt_get_Some_iff by (metis option.inject)
    qed
    then have "bt_values m = bt_values m'"
      using keys by (intro nth_equalityI) (auto dest: map_eq_imp_length_eq)
    with keys show ?thesis
      by simp
  qed
  then show ?thesis
    by (simp add: zip_map_fst_snd)
qed

section \<open>Sorted sets\<close>

definition bs_wf :: "'a::linorder list \<Rightarrow> bool" where
  "bs_wf xs = sorted_wrt (<) xs"

fun bs_insert :: "'a::linorder \<Rightarrow> 'a list \<Rightarrow> 'a list" where
  "bs_insert a [] = [a]"
| "bs_insert a (b # xs) =
     (if b < a then b # bs_insert a xs else if b = a then b # xs else a # b # xs)"

definition bs_extend :: "'a::linorder list \<Rightarrow> 'a list \<Rightarrow> 'a list" where
  "bs_extend ys xs = fold bs_insert ys xs"

abbreviation bs_collect :: "'a::linorder list \<Rightarrow> 'a list" where
  "bs_collect ys \<equiv> bs_extend ys []"

lemma set_bs_insert [simp]: "set (bs_insert a xs) = {a} \<union> set xs"
  by (induction xs) auto

lemma bs_wf_Nil [simp, intro!]: "bs_wf []"
  by (simp add: bs_wf_def)

lemma bs_wf_insert [intro]: "bs_wf xs \<Longrightarrow> bs_wf (bs_insert a xs)"
proof (induction xs)
  case (Cons b xs)
  then have "bs_wf (bs_insert a xs)"
    by (simp add: bs_wf_def)
  with Cons.prems show ?case
    by (auto simp: bs_wf_def)
qed (simp add: bs_wf_def)

lemma set_bs_extend [simp]: "set (bs_extend ys xs) = set ys \<union> set xs"
  by (induction ys arbitrary: xs) (auto simp: bs_extend_def)

lemma bs_wf_extend [intro]: "bs_wf xs \<Longrightarrow> bs_wf (bs_extend ys xs)"
  unfolding bs_extend_def by (induction ys arbitrary: xs) auto

lemma bs_wf_distinct: "bs_wf xs \<Longrightarrow> distinct xs"
  by (simp add: bs_wf_def strict_sorted_iff)

text \<open>Two sorted sets with the same elements are equal: what a \<open>BTreeSet\<close> holds
  does not depend on the order of the insertions.\<close>

lemma bs_wf_unique: "bs_wf xs \<Longrightarrow> bs_wf ys \<Longrightarrow> set xs = set ys \<Longrightarrow> xs = ys"
  by (simp add: bs_wf_def strict_sorted_equal)

end
