(* ===== verification/Names.thy ===== *)
theory Names
  imports Ordered_Map
begin

text \<open>
  \<open>ployz-core/src/value.rs\<close>: the names and identities of the wire contract.
  A Rust string is the list of its bytes. A validated newtype is its text; its
  validity is the predicate that the constructor checks, and \<open>parse\<close> returns
  the text or the rejected value. The \<open>str\<close> methods of the standard library
  that the code uses come first.
\<close>

section \<open>String methods\<close>

text \<open>\<open>str::split_once\<close> with a byte.\<close>

fun split_once :: "char \<Rightarrow> string \<Rightarrow> (string \<times> string) option" where
  "split_once c [] = None"
| "split_once c (x # xs) =
     (if x = c then Some ([], xs)
      else case split_once c xs of None \<Rightarrow> None | Some (a, b) \<Rightarrow> Some (x # a, b))"

text \<open>\<open>str::split\<close> with a byte: one piece more than there are separators.\<close>

fun split_on :: "char \<Rightarrow> string \<Rightarrow> string list" where
  "split_on c [] = [[]]"
| "split_on c (x # xs) =
     (if x = c then [] # split_on c xs
      else case split_on c xs of [] \<Rightarrow> [[x]] | p # ps \<Rightarrow> (x # p) # ps)"

fun strip_prefix :: "string \<Rightarrow> string \<Rightarrow> string option" where
  "strip_prefix [] s = Some s"
| "strip_prefix (p # ps) [] = None"
| "strip_prefix (p # ps) (x # xs) = (if p = x then strip_prefix ps xs else None)"

definition starts_with :: "string \<Rightarrow> string \<Rightarrow> bool" where
  "starts_with p s = (strip_prefix p s \<noteq> None)"

definition in_range :: "char \<Rightarrow> char \<Rightarrow> char \<Rightarrow> bool" where
  "in_range lo hi c = (lo \<le> c \<and> c \<le> hi)"

definition is_ascii_digit :: "char \<Rightarrow> bool" where
  "is_ascii_digit c = in_range CHR ''0'' CHR ''9'' c"

definition is_ascii_lowercase :: "char \<Rightarrow> bool" where
  "is_ascii_lowercase c = in_range CHR ''a'' CHR ''z'' c"

definition is_ascii_alphanumeric :: "char \<Rightarrow> bool" where
  "is_ascii_alphanumeric c =
     (is_ascii_digit c \<or> is_ascii_lowercase c \<or> in_range CHR ''A'' CHR ''Z'' c)"

lemma split_once_append [simp]: "c \<notin> set a \<Longrightarrow> split_once c (a @ c # b) = Some (a, b)"
  by (induction a) auto

lemma split_once_SomeD: "split_once c s = Some (a, b) \<Longrightarrow> s = a @ c # b \<and> c \<notin> set a"
  by (induction s arbitrary: a) (auto split: if_splits option.splits)

lemma split_once_Some: "split_once c s = Some (a, b) \<longleftrightarrow> s = a @ c # b \<and> c \<notin> set a"
  using split_once_SomeD split_once_append by blast

lemma split_once_None: "split_once c s = None \<longleftrightarrow> c \<notin> set s"
  by (induction s) (auto split: option.splits)

lemma strip_prefix_Some: "strip_prefix p s = Some r \<longleftrightarrow> s = p @ r"
  by (induction p s rule: strip_prefix.induct) auto

lemma starts_with_iff: "starts_with p s \<longleftrightarrow> (\<exists>r. s = p @ r)"
  by (auto simp: starts_with_def strip_prefix_Some)

lemma split_on_not_Nil [simp]: "split_on c s \<noteq> []"
  by (induction s) (auto split: list.splits)

section \<open>Rejected values\<close>

record value_error =
  ve_kind :: string
  ve_value :: string
  ve_expected :: string

definition value_error_new :: "string \<Rightarrow> string \<Rightarrow> string \<Rightarrow> value_error" where
  "value_error_new kind value expected = \<lparr> ve_kind = kind, ve_value = value, ve_expected = expected \<rparr>"

text \<open>The constructor that \<open>validated_string_newtype!\<close> generates.\<close>

definition parse_newtype ::
  "string \<Rightarrow> string \<Rightarrow> (string \<Rightarrow> bool) \<Rightarrow> string \<Rightarrow> (value_error, string) result" where
  "parse_newtype label expected valid value =
     (if valid value then Inr value else Inl (value_error_new label value expected))"

section \<open>Validity of names\<close>

definition is_lower_hex :: "string \<Rightarrow> nat \<Rightarrow> bool" where
  "is_lower_hex value len =
     (length value = len
      \<and> list_all (\<lambda>byte. is_ascii_digit byte \<or> in_range CHR ''a'' CHR ''f'' byte) value)"

definition is_dns_label :: "string \<Rightarrow> bool" where
  "is_dns_label value =
     (value \<noteq> [] \<and> length value \<le> 63
      \<and> is_ascii_alphanumeric (hd value) \<and> is_ascii_alphanumeric (last value)
      \<and> list_all (\<lambda>byte. is_ascii_lowercase byte \<or> is_ascii_digit byte \<or> byte = CHR ''-'') value)"

definition is_service_selector :: "string \<Rightarrow> bool" where
  "is_service_selector value =
     (value \<noteq> []
      \<and> (case split_once CHR ''/'' value of
           None \<Rightarrow> True
         | Some (namespace, name) \<Rightarrow> is_dns_label namespace \<and> is_dns_label name))"

definition is_hostname :: "string \<Rightarrow> bool" where
  "is_hostname value =
     (1 \<le> length value \<and> length value \<le> 253 \<and> list_all is_dns_label (split_on CHR ''.'' value))"

definition is_swarm_key_byte :: "char \<Rightarrow> bool" where
  "is_swarm_key_byte byte = (is_ascii_alphanumeric byte \<or> byte \<in> set ''_-.'')"

definition is_swarm_value_byte :: "char \<Rightarrow> bool" where
  "is_swarm_value_byte byte =
     (is_ascii_alphanumeric byte
      \<or> byte \<in> set ('':-_ '' @ [CHR 0x09, CHR 0x0D, CHR 0x0A, CHR 0x0C] @ ''.*()?+[]'' @ [CHR 0x5C] @ ''^$|/''))"

text \<open>The validity predicates of the newtypes with a rule of their own.\<close>

definition is_machine_target :: "string \<Rightarrow> bool" where
  "is_machine_target value = (value \<noteq> [] \<and> value \<noteq> ''*'')"

definition is_unix_path :: "string \<Rightarrow> bool" where
  "is_unix_path value = (starts_with ''/'' value \<and> CHR 0x00 \<notin> set value)"

definition is_management_client_label :: "string \<Rightarrow> bool" where
  "is_management_client_label value =
     (case value of
        [] \<Rightarrow> False
      | first # bytes \<Rightarrow>
          is_ascii_lowercase first \<and> length value \<le> 32
          \<and> list_all (\<lambda>byte. is_ascii_lowercase byte \<or> is_ascii_digit byte \<or> byte = CHR ''-'') bytes)"

definition is_capability_name :: "string \<Rightarrow> bool" where
  "is_capability_name value =
     (3 \<le> length (split_on CHR ''.'' value)
      \<and> list_all (\<lambda>segment. segment \<noteq> []
           \<and> list_all (\<lambda>byte. is_ascii_lowercase byte \<or> is_ascii_digit byte \<or> byte = CHR ''-'') segment)
          (split_on CHR ''.'' value))"

definition is_build_grant_repository :: "string \<Rightarrow> bool" where
  "is_build_grant_repository value =
     (1 \<le> length value \<and> length value \<le> 255
      \<and> list_all (\<lambda>component.
           (case component of [] \<Rightarrow> False | byte # _ \<Rightarrow> is_ascii_alphanumeric byte)
           \<and> list_all (\<lambda>byte. is_ascii_lowercase byte \<or> is_ascii_digit byte \<or> byte \<in> set ''._-'') component)
          (split_on CHR ''/'' value))"

definition is_deployment_log_id :: "string \<Rightarrow> bool" where
  "is_deployment_log_id value =
     (value \<noteq> [] \<and> length value \<le> 128
      \<and> list_all (\<lambda>c. is_ascii_alphanumeric c \<or> c = CHR ''-'' \<or> c = CHR ''_'') value)"

definition is_image_digest :: "string \<Rightarrow> bool" where
  "is_image_digest value =
     (case strip_prefix ''sha256:'' value of None \<Rightarrow> False | Some hex \<Rightarrow> is_lower_hex hex 64)"

type_synonym machine_id = string
type_synonym service_id = string
type_synonym container_id = string
type_synonym machine_name = string
type_synonym service_name = string
type_synonym namespace = string
type_synonym docker_volume_name = string
type_synonym service_volume_reference = string
type_synonym machine_path = string
type_synonym container_path = string
type_synonym ingress_host = string

definition machine_id_parse :: "string \<Rightarrow> (value_error, machine_id) result" where
  "machine_id_parse value =
     (if is_lower_hex value 32 then Inr value
      else Inl (value_error_new ''Machine ID'' value ''32 lowercase hexadecimal characters''))"

definition service_id_parse :: "string \<Rightarrow> (value_error, service_id) result" where
  "service_id_parse value =
     (if is_lower_hex value 32 then Inr value
      else Inl (value_error_new ''Service ID'' value ''32 lowercase hexadecimal characters''))"

definition machine_target_parse :: "string \<Rightarrow> (value_error, string) result" where
  "machine_target_parse =
     parse_newtype ''Machine Target'' ''a non-empty Machine identity that is not a wildcard'' is_machine_target"

definition docker_volume_name_parse :: "string \<Rightarrow> (value_error, docker_volume_name) result" where
  "docker_volume_name_parse =
     parse_newtype ''Docker Volume name'' ''a non-empty string'' (\<lambda>value. value \<noteq> [])"

definition service_name_parse :: "string \<Rightarrow> (value_error, service_name) result" where
  "service_name_parse =
     parse_newtype ''Service Name'' ''a 1-63 character lowercase DNS label'' is_dns_label"

definition namespace_parse :: "string \<Rightarrow> (value_error, namespace) result" where
  "namespace_parse =
     parse_newtype ''Namespace''
       ''a 1-63 character lowercase DNS label; underscores and uppercase are not accepted'' is_dns_label"

section \<open>Fan-out selectors\<close>

datatype fanout_selector = All_Machines | One_Machine string

definition fanout_selector_parse :: "string \<Rightarrow> (value_error, fanout_selector) result" where
  "fanout_selector_parse value =
     (if value = ''*'' then Inr All_Machines
      else rbind (machine_target_parse value) (\<lambda>target. Inr (One_Machine target)))"

definition fanout_selector_as_str :: "fanout_selector \<Rightarrow> string" where
  "fanout_selector_as_str selector =
     (case selector of All_Machines \<Rightarrow> ''*'' | One_Machine target \<Rightarrow> target)"

section \<open>Namespaces\<close>

definition SYSTEM :: namespace where
  "SYSTEM = ''ployz-system''"

definition namespace_is_reserved :: "namespace \<Rightarrow> bool" where
  "namespace_is_reserved ns = (ns = SYSTEM)"

definition namespace_volume_name :: "namespace \<Rightarrow> docker_volume_name \<Rightarrow> docker_volume_name" where
  "namespace_volume_name ns logical = ns @ ''_'' @ logical"

section \<open>Qualified Services\<close>

text \<open>Ordered by Namespace, then by name, like the derived \<open>Ord\<close> of the source.\<close>

datatype qualified_service = QualifiedService (qs_namespace: namespace) (qs_name: service_name)

instantiation qualified_service :: linorder
begin

definition less_eq_qualified_service :: "qualified_service \<Rightarrow> qualified_service \<Rightarrow> bool" where
  "less_eq_qualified_service a b \<longleftrightarrow> (qs_namespace a, qs_name a) \<le> (qs_namespace b, qs_name b)"

definition less_qualified_service :: "qualified_service \<Rightarrow> qualified_service \<Rightarrow> bool" where
  "less_qualified_service a b \<longleftrightarrow> (qs_namespace a, qs_name a) < (qs_namespace b, qs_name b)"

instance
  by standard (auto simp: less_eq_qualified_service_def less_qualified_service_def
      qualified_service.expand)

end

definition qualified_service_error :: "string \<Rightarrow> value_error" where
  "qualified_service_error value =
     value_error_new ''Qualified Service'' value ''a Namespace, '/', and a Service Name''"

definition dns_name_error :: "string \<Rightarrow> value_error" where
  "dns_name_error value =
     value_error_new ''Qualified Service DNS name'' value ''a Service Name, '.', and a Namespace''"

definition qualified_service_parse :: "string \<Rightarrow> (value_error, qualified_service) result" where
  "qualified_service_parse value =
     (case split_once CHR ''/'' value of
        None \<Rightarrow> Inl (qualified_service_error value)
      | Some (namespace, name) \<Rightarrow>
          rbind (map_err (\<lambda>_. qualified_service_error value) (namespace_parse namespace)) (\<lambda>namespace.
          rbind (map_err (\<lambda>_. qualified_service_error value) (service_name_parse name)) (\<lambda>name.
          Inr (QualifiedService namespace name))))"

definition qualified_service_display :: "qualified_service \<Rightarrow> string" where
  "qualified_service_display qs = qs_namespace qs @ ''/'' @ qs_name qs"

definition dns_name :: "qualified_service \<Rightarrow> string" where
  "dns_name qs = qs_name qs @ ''.'' @ qs_namespace qs"

definition parse_dns_name :: "string \<Rightarrow> (value_error, qualified_service) result" where
  "parse_dns_name value =
     (case split_once CHR ''.'' value of
        None \<Rightarrow> Inl (dns_name_error value)
      | Some (name, namespace) \<Rightarrow>
          if CHR ''.'' \<in> set namespace then Inl (dns_name_error value)
          else
            rbind (map_err (\<lambda>_. dns_name_error value) (namespace_parse namespace)) (\<lambda>namespace.
            rbind (map_err (\<lambda>_. dns_name_error value) (service_name_parse name)) (\<lambda>name.
            Inr (QualifiedService namespace name))))"

definition system_ingress :: qualified_service where
  "system_ingress = QualifiedService SYSTEM ''ingress''"

section \<open>Certificate hostnames\<close>

definition is_certificate_host :: "string \<Rightarrow> bool" where
  "is_certificate_host value =
     (is_hostname value
      \<or> (case strip_prefix ''*.'' value of None \<Rightarrow> False | Some parent \<Rightarrow> is_hostname parent))"

definition certificate_is_wildcard :: "string \<Rightarrow> bool" where
  "certificate_is_wildcard host = starts_with ''*.'' host"

definition certificate_covers :: "string \<Rightarrow> ingress_host \<Rightarrow> bool" where
  "certificate_covers host hostname =
     (case strip_prefix ''*.'' host of
        Some parent \<Rightarrow>
          (case split_once CHR ''.'' hostname of None \<Rightarrow> False | Some (_, rest) \<Rightarrow> rest = parent)
      | None \<Rightarrow> host = hostname)"

section \<open>Lemmas\<close>

lemma namespace_parse_ok [result_simps]: "namespace_parse v = Inr n \<longleftrightarrow> is_dns_label v \<and> n = v"
  by (auto simp: namespace_parse_def parse_newtype_def)

lemma service_name_parse_ok [result_simps]: "service_name_parse v = Inr n \<longleftrightarrow> is_dns_label v \<and> n = v"
  by (auto simp: service_name_parse_def parse_newtype_def)

lemma machine_target_parse_ok [result_simps]:
  "machine_target_parse v = Inr t \<longleftrightarrow> is_machine_target v \<and> t = v"
  by (auto simp: machine_target_parse_def parse_newtype_def)

lemma dns_label_bytes:
  assumes "is_dns_label s" and "c \<in> set s"
  shows "c \<noteq> CHR ''/''" and "c \<noteq> CHR ''.''" and "c \<noteq> CHR ''_''" and "c \<noteq> CHR ''*''"
  using assms
  by (auto simp: is_dns_label_def list_all_iff is_ascii_lowercase_def is_ascii_digit_def
      in_range_def less_eq_char_def)

lemma dns_label_without:
  assumes "is_dns_label s"
  shows "CHR ''/'' \<notin> set s" and "CHR ''.'' \<notin> set s" and "CHR ''_'' \<notin> set s" and "CHR ''*'' \<notin> set s"
  using dns_label_bytes [OF assms] by blast+

section \<open>Properties\<close>

text \<open>Claim C29. A Qualified Service survives both of its spellings: printing \<open>namespace/name\<close>
  and reading it back, and printing the Internal DNS labels \<open>name.namespace\<close> and reading
  them back, return the same Service; and whatever a reader accepts is the printed form
  of the Service it returns.\<close>

theorem qualified_service_roundtrip:
  "(is_dns_label (qs_namespace qs) \<and> is_dns_label (qs_name qs)
      \<longrightarrow> qualified_service_parse (qualified_service_display qs) = Inr qs
        \<and> parse_dns_name (dns_name qs) = Inr qs)
   \<and> (qualified_service_parse text = Inr qs \<longrightarrow> text = qualified_service_display qs)
   \<and> (parse_dns_name text = Inr qs \<longrightarrow> text = dns_name qs)"
proof (intro conjI impI)
  assume *: "is_dns_label (qs_namespace qs) \<and> is_dns_label (qs_name qs)"
  then show "qualified_service_parse (qualified_service_display qs) = Inr qs"
    using dns_label_without(1) [of "qs_namespace qs"]
    by (simp add: qualified_service_parse_def qualified_service_display_def namespace_parse_def
        service_name_parse_def parse_newtype_def)
  from * show "parse_dns_name (dns_name qs) = Inr qs"
    using dns_label_without(2) [of "qs_name qs"] dns_label_without(2) [of "qs_namespace qs"]
    by (simp add: parse_dns_name_def dns_name_def namespace_parse_def
        service_name_parse_def parse_newtype_def)
next
  assume "qualified_service_parse text = Inr qs"
  then show "text = qualified_service_display qs"
    by (auto simp: qualified_service_parse_def qualified_service_display_def result_simps
        split_once_Some split: option.splits)
next
  assume "parse_dns_name text = Inr qs"
  then show "text = dns_name qs"
    by (auto simp: parse_dns_name_def dns_name_def result_simps split_once_Some
        split: option.splits if_splits)
qed

theorem qualified_service_roundtrip_witness:
  "qualified_service_parse (qualified_service_display (QualifiedService ''prod'' ''web''))
     = Inr (QualifiedService ''prod'' ''web'')
   \<and> parse_dns_name ''web.prod'' = Inr (QualifiedService ''prod'' ''web'')
   \<and> ''web.prod'' = dns_name (QualifiedService ''prod'' ''web'')"
proof -
  have "is_dns_label ''prod'' \<and> is_dns_label ''web''"
    "parse_dns_name ''web.prod'' = Inr (QualifiedService ''prod'' ''web'')"
    by code_simp+
  with qualified_service_roundtrip [of "QualifiedService ''prod'' ''web''" "''web.prod''"] show ?thesis
    by simp
qed

text \<open>Physical Docker Volume names of different Namespaces never collide: the owning
  Namespace and the declared name can be read off the physical name, because a Namespace has no
  underscore.\<close>

theorem namespace_volume_name_inj:
  assumes "is_dns_label ns" and "is_dns_label ns'"
    and "namespace_volume_name ns logical = namespace_volume_name ns' logical'"
  shows "ns = ns' \<and> logical = logical'"
proof -
  have "split_once CHR ''_'' (namespace_volume_name n l) = Some (n, l)" if "is_dns_label n" for n l
    using dns_label_without(3) [OF that] by (simp add: namespace_volume_name_def)
  from this [OF assms(1)] this [OF assms(2)] assms(3) show ?thesis
    by (metis option.inject prod.inject)
qed

theorem namespace_volume_name_inj_witness:
  "namespace_volume_name ''prod'' ''db_data'' = ''prod_db_data''
     \<and> (\<forall>l. namespace_volume_name ''prod-db'' l \<noteq> ''prod_db_data'')"
proof -
  have "is_dns_label ''prod''" "is_dns_label ''prod-db''"
    by code_simp+
  with namespace_volume_name_inj [of "''prod-db''" "''prod''" _ "''db_data''"] show ?thesis
    by (auto simp: namespace_volume_name_def)
qed

end
