(* ===== verification/Machines.thy ===== *)
theory Machines
  imports Names
begin

text \<open>
  Machines: the record and its updates (\<open>domain/machine.rs\<close>), placement
  constraints (\<open>domain/placement.rs\<close>), name lookup (\<open>domain/mod.rs\<close>) and the
  endpoint counts of a Machine's bridge (\<open>machine_telemetry.rs\<close>), all under
  \<open>ployz-core/src\<close>. Addresses are words, a WireGuard key is its 32 bytes. Text is
  ASCII: \<open>str::trim\<close> removes the white space of ASCII.
\<close>

section \<open>ASCII text\<close>

definition is_whitespace :: "char \<Rightarrow> bool" where
  "is_whitespace c = (c \<in> {CHR 0x09, CHR 0x0A, CHR 0x0B, CHR 0x0C, CHR 0x0D, CHR '' ''})"

definition trim :: "string \<Rightarrow> string" where
  "trim s = rev (dropWhile is_whitespace (rev (dropWhile is_whitespace s)))"

definition to_ascii_lowercase :: "char \<Rightarrow> char" where
  "to_ascii_lowercase c =
     (if in_range CHR ''A'' CHR ''Z'' c then char_of (of_char c + 32 :: nat) else c)"

definition eq_ignore_ascii_case :: "string \<Rightarrow> string \<Rightarrow> bool" where
  "eq_ignore_ascii_case a b = (map to_ascii_lowercase a = map to_ascii_lowercase b)"

text \<open>\<open>str::split_once\<close> with a text.\<close>

fun split_once_str :: "string \<Rightarrow> string \<Rightarrow> (string \<times> string) option" where
  "split_once_str sep [] = (if sep = [] then Some ([], []) else None)"
| "split_once_str sep (x # xs) =
     (case strip_prefix sep (x # xs) of
        Some rest \<Rightarrow> Some ([], rest)
      | None \<Rightarrow> (case split_once_str sep xs of None \<Rightarrow> None | Some (a, b) \<Rightarrow> Some (x # a, b)))"

section \<open>Lookup by name\<close>

datatype 'a name_matches = NoMatch | OneMatch 'a | AmbiguousMatch 'a 'a "'a list"

definition from_matches :: "'a list \<Rightarrow> 'a name_matches" where
  "from_matches matches =
     (case matches of
        [] \<Rightarrow> NoMatch
      | first # others \<Rightarrow>
          (case others of [] \<Rightarrow> OneMatch first | second # rest \<Rightarrow> AmbiguousMatch first second rest))"

definition matches_iter :: "'a name_matches \<Rightarrow> 'a list" where
  "matches_iter m =
     (case m of
        NoMatch \<Rightarrow> [] | OneMatch first \<Rightarrow> [first]
      | AmbiguousMatch first second rest \<Rightarrow> first # second # rest)"

lemma matches_iter_from_matches [simp]: "matches_iter (from_matches xs) = xs"
  by (auto simp: from_matches_def matches_iter_def split: list.splits)

section \<open>Machines\<close>

datatype ip_addr = V4 u32 | V6 "128 word"

type_synonym socket_addr = "ip_addr \<times> u16"
type_synonym public_key = "u8 list"
type_synonym management_address = "u8 list"

record machine_runtime =
  daemon_version :: string
  docker_version :: string
  runtime_hostname :: string
  architecture :: string
  os_pretty_name :: string
  kernel_version :: string
  memory_total_bytes :: "u64 option"
  running_builds :: u32

type_synonym build_concurrency = u8

record machine =
  m_labels :: "(string, string) btree"
  m_accepts_builds :: bool
  m_accepts_services :: bool
  m_accepts_ingress :: bool
  m_id :: machine_id
  m_name :: machine_name
  m_subnet :: u32
  m_public_key :: public_key
  m_public_ip :: "ip_addr option"
  m_advertised_endpoints :: "socket_addr list"
  m_runtime :: machine_runtime
  m_build_concurrency :: "build_concurrency option"

record initial_machine_policy =
  policy_labels :: "(string, string) btree"
  policy_accepts_builds :: bool
  policy_accepts_services :: bool
  policy_accepts_ingress :: bool

definition policy_matches :: "initial_machine_policy \<Rightarrow> machine \<Rightarrow> bool" where
  "policy_matches policy machine =
     (policy_labels policy = m_labels machine
      \<and> policy_accepts_builds policy = m_accepts_builds machine
      \<and> policy_accepts_services policy = m_accepts_services machine
      \<and> policy_accepts_ingress policy = m_accepts_ingress machine)"

definition automatic_build_concurrency :: "bool \<Rightarrow> u64 option \<Rightarrow> build_concurrency" where
  "automatic_build_concurrency accepts memory =
     ucast (case memory of
        Some bytes \<Rightarrow> if \<not> accepts then min (max (bytes div 4000000000) 1) 4 else 1
      | None \<Rightarrow> 1)"

definition effective_build_concurrency :: "machine \<Rightarrow> build_concurrency" where
  "effective_build_concurrency machine =
     (case m_build_concurrency machine of
        Some concurrency \<Rightarrow> concurrency
      | None \<Rightarrow> automatic_build_concurrency (m_accepts_services machine)
          (memory_total_bytes (m_runtime machine)))"

definition management_address_for_key :: "public_key \<Rightarrow> management_address" where
  "management_address_for_key key = [0xfd, 0xcc] @ take 14 key"

text \<open>The last Machine with the identity wins; without one, every Machine with the name.\<close>

definition resolve_machine_text :: "string \<Rightarrow> machine list \<Rightarrow> machine name_matches" where
  "resolve_machine_text text visible =
     (case fold (\<lambda>machine (exact_id, names).
          (if m_id machine = text then Some machine else exact_id,
           if m_name machine = text then names @ [machine] else names))
        visible (None, []) of
        (Some machine, _) \<Rightarrow> OneMatch machine
      | (None, names) \<Rightarrow> from_matches names)"

section \<open>Updates\<close>

datatype public_ip_update = Keep_Ip | Remove_Ip | Set_Ip ip_addr
datatype build_concurrency_update = Keep_Concurrency | Automatic | Set_Concurrency build_concurrency

record machine_update =
  label_changes :: "(string, string option) btree"
  update_accepts_builds :: "bool option"
  update_accepts_services :: "bool option"
  update_accepts_ingress :: "bool option"
  update_name :: "machine_name option"
  update_public_ip :: public_ip_update
  update_advertised_endpoints :: "socket_addr list option"
  update_build_concurrency :: build_concurrency_update

datatype machine_update_error = DuplicateName | MissingEndpoints

definition machine_update_is_empty :: "machine_update \<Rightarrow> bool" where
  "machine_update_is_empty update =
     (label_changes update = [] \<and> update_accepts_builds update = None
      \<and> update_accepts_services update = None \<and> update_accepts_ingress update = None
      \<and> update_name update = None \<and> update_public_ip update = Keep_Ip
      \<and> update_advertised_endpoints update = None
      \<and> update_build_concurrency update = Keep_Concurrency)"

definition apply_label_change ::
  "string \<times> string option \<Rightarrow> (string, string) btree \<Rightarrow> (string, string) btree" where
  "apply_label_change change labels =
     (case snd change of
        Some value \<Rightarrow> bt_insert (fst change) value labels
      | None \<Rightarrow> bt_remove (fst change) labels)"

definition apply_machine_update ::
  "machine \<Rightarrow> machine list \<Rightarrow> machine_update \<Rightarrow> (machine_update_error, machine) result" where
  "apply_machine_update machine visible update =
     (if (case update_name update of
            None \<Rightarrow> False
          | Some name \<Rightarrow> name \<noteq> m_name machine
              \<and> list_ex (\<lambda>other. m_id other \<noteq> m_id machine
                   \<and> m_name other = name) visible)
      then Inl DuplicateName
      else if update_advertised_endpoints update = Some [] then Inl MissingEndpoints
      else Inr (machine
        \<lparr> m_labels := fold apply_label_change (label_changes update) (m_labels machine),
          m_accepts_builds := (case update_accepts_builds update of
             Some accepts \<Rightarrow> accepts | None \<Rightarrow> m_accepts_builds machine),
          m_accepts_services := (case update_accepts_services update of
             Some accepts \<Rightarrow> accepts | None \<Rightarrow> m_accepts_services machine),
          m_accepts_ingress := (case update_accepts_ingress update of
             Some accepts \<Rightarrow> accepts | None \<Rightarrow> m_accepts_ingress machine),
          m_name := (case update_name update of
             Some name \<Rightarrow> name | None \<Rightarrow> m_name machine),
          m_public_ip := (case update_public_ip update of
             Keep_Ip \<Rightarrow> m_public_ip machine | Remove_Ip \<Rightarrow> None | Set_Ip address \<Rightarrow> Some address),
          m_advertised_endpoints := (case update_advertised_endpoints update of
             Some endpoints \<Rightarrow> endpoints | None \<Rightarrow> m_advertised_endpoints machine),
          m_build_concurrency := (case update_build_concurrency update of
             Keep_Concurrency \<Rightarrow> m_build_concurrency machine | Automatic \<Rightarrow> None
           | Set_Concurrency concurrency \<Rightarrow> Some concurrency) \<rparr>))"

section \<open>Observations of Machines\<close>

datatype machine_storage_observation = Stateless | Ready | Pool u64 u64 u64

datatype membership_observation = Unknown_Member | Up | Suspect | Down | Unrecognized_Member string

definition invites_rpc :: "membership_observation \<Rightarrow> bool" where
  "invites_rpc membership = (membership = Up \<or> membership = Suspect)"

record rtt_statistics =
  median_ns :: u64
  population_stddev_ns :: u64

record machine_observation =
  mo_machine :: machine
  mo_membership :: membership_observation
  mo_storage :: "machine_storage_observation option"
  mo_selected_endpoint :: "socket_addr option"
  mo_rtt :: "rtt_statistics option"

definition machine_observation_new :: "machine \<Rightarrow> membership_observation \<Rightarrow> machine_observation" where
  "machine_observation_new machine member =
     \<lparr> mo_machine = machine, mo_membership = member, mo_storage = None, mo_selected_endpoint = None, mo_rtt = None \<rparr>"

definition synthesize_membership ::
  "machine list \<Rightarrow> machine_id \<Rightarrow> (management_address, membership_observation) btree
     \<Rightarrow> machine_observation list" where
  "synthesize_membership machines responder_id states =
     map (\<lambda>machine. machine_observation_new machine
        (if m_id machine = responder_id then Up
         else case bt_get states (management_address_for_key (m_public_key machine)) of
           Some state \<Rightarrow> state | None \<Rightarrow> Down)) machines"

definition machine_matches_target :: "machine \<Rightarrow> string \<Rightarrow> bool" where
  "machine_matches_target machine target = (m_id machine = target \<or> m_name machine = target)"

section \<open>Fan-out selection\<close>

datatype machine_selector_error =
    NoTargets
  | NoVisibleMachines
  | NotFound "string list"
  | Ambiguous string "machine_id list"

record selection =
  sel_targets :: "machine list"
  sel_seen :: "machine_id list"
  sel_missing :: "string list"

definition select_machine :: "machine \<Rightarrow> selection \<Rightarrow> selection" where
  "select_machine machine acc =
     (if m_id machine \<in> set (sel_seen acc) then acc
      else acc\<lparr> sel_targets := sel_targets acc @ [machine], sel_seen := bs_insert (m_id machine) (sel_seen acc) \<rparr>)"

definition select_step ::
  "machine list \<Rightarrow> fanout_selector \<Rightarrow> selection \<Rightarrow> (machine_selector_error, selection) result" where
  "select_step visible selector acc =
     (case selector of
        All_Machines \<Rightarrow> Inr (fold select_machine visible acc)
      | One_Machine target \<Rightarrow>
          (case resolve_machine_text target visible of
             OneMatch machine \<Rightarrow> Inr (select_machine machine acc)
           | NoMatch \<Rightarrow> Inr (acc\<lparr> sel_missing := sel_missing acc @ [target] \<rparr>)
           | AmbiguousMatch first second rest \<Rightarrow>
               Inl (Ambiguous target
                 (map m_id (matches_iter (AmbiguousMatch first second rest))))))"

definition resolve_machine_selectors ::
  "machine list \<Rightarrow> fanout_selector list \<Rightarrow> (machine_selector_error, machine list) result" where
  "resolve_machine_selectors visible selectors =
     (if selectors = [] then Inl NoTargets
      else rbind (rfold (select_step visible) selectors \<lparr> sel_targets = [], sel_seen = [], sel_missing = [] \<rparr>) (\<lambda>acc.
        if sel_missing acc \<noteq> [] then Inl (NotFound (sel_missing acc))
        else if sel_targets acc = [] then Inl NoVisibleMachines
        else Inr (sel_targets acc)))"

section \<open>Placement constraints\<close>

type_synonym placement_constraint = string

definition constraint_key :: "string \<Rightarrow> string option" where
  "constraint_key key =
     (if eq_ignore_ascii_case key ''node.id'' then Some ''node.id''
      else if length key \<le> length ''node.labels.''
        \<or> \<not> eq_ignore_ascii_case (take (length ''node.labels.'') key) ''node.labels.'' then None
      else Some (''node.labels.'' @ drop (length ''node.labels.'') key))"

definition constraint_parts :: "string \<Rightarrow> (string \<times> string \<times> string) option" where
  "constraint_parts expression =
     (case split_once_str ''=='' expression of
        Some (key, value) \<Rightarrow> Some (trim key, ''=='', trim value)
      | None \<Rightarrow>
          (case split_once_str ''!='' expression of
             Some (key, value) \<Rightarrow> Some (trim key, ''!='', trim value)
           | None \<Rightarrow> None))"

definition placement_constraint_parse :: "string \<Rightarrow> (string, placement_constraint) result" where
  "placement_constraint_parse expression =
     ok_or expression
       (Option.bind (constraint_parts expression) (\<lambda>(key, operator, value).
        if \<not> list_all is_swarm_key_byte key \<or> value = [] \<or> \<not> list_all is_swarm_value_byte value
        then None
        else Option.bind (constraint_key key) (\<lambda>key.
        Some (key @ operator @ map to_ascii_lowercase value))))"

text \<open>\<open>None\<close> is the panic of \<open>expect(''validated constraint operator'')\<close>.\<close>

definition constraint_matches :: "placement_constraint \<Rightarrow> machine \<Rightarrow> bool option" where
  "constraint_matches constraint machine =
     Option.bind
       (case split_once_str ''=='' constraint of
          Some (key, value) \<Rightarrow> Some (key, value, True)
        | None \<Rightarrow>
            (case split_once_str ''!='' constraint of
               Some (key, value) \<Rightarrow> Some (key, value, False)
             | None \<Rightarrow> None))
       (\<lambda>(key, value, equal).
          let actual = (case strip_prefix ''node.labels.'' key of
                None \<Rightarrow> m_id machine
              | Some label \<Rightarrow>
                  (case bt_get (m_labels machine) label of None \<Rightarrow> [] | Some v \<Rightarrow> v))
          in Some (eq_ignore_ascii_case actual value = equal))"

text \<open>A conjunction of constraints, a \<open>BTreeSet\<close> in the source.\<close>

type_synonym placement = "placement_constraint list"

text \<open>A constraint is built by \<open>parse\<close> only, so its operator is there; \<open>constraint_total\<close> below
  states it.\<close>

definition machine_matches_placement :: "machine \<Rightarrow> placement \<Rightarrow> bool" where
  "machine_matches_placement machine placement =
     list_all (\<lambda>constraint. constraint_matches constraint machine = Some True) placement"

section \<open>Endpoints of the bridge\<close>

record bridge_endpoint_capacity =
  usable_endpoints :: u64
  attached_endpoints :: u64
  free_endpoints :: u64

definition bridge_endpoint_capacity_new :: "u64 \<Rightarrow> u64 \<Rightarrow> bridge_endpoint_capacity" where
  "bridge_endpoint_capacity_new usable attached =
     \<lparr> usable_endpoints = usable, attached_endpoints = attached,
       free_endpoints = saturating_sub usable attached \<rparr>"

definition bridge_endpoint_capacity_decode ::
  "u64 \<Rightarrow> u64 \<Rightarrow> u64 \<Rightarrow> (string, bridge_endpoint_capacity) result" where
  "bridge_endpoint_capacity_decode usable attached free =
     (let capacity = bridge_endpoint_capacity_new usable attached
      in if free_endpoints capacity \<noteq> free
         then Inl ''bridge endpoint counts are inconsistent'' else Inr capacity)"

text \<open>A Machine that accepts all work, for the examples.\<close>

definition example_machine :: "machine_id \<Rightarrow> machine_name \<Rightarrow> machine" where
  "example_machine i n =
     \<lparr> m_labels = [], m_accepts_builds = True, m_accepts_services = True, m_accepts_ingress = True,
       m_id = i, m_name = n, m_subnet = 0, m_public_key = replicate 32 0, m_public_ip = None,
       m_advertised_endpoints = [],
       m_runtime = \<lparr> daemon_version = [], docker_version = [], runtime_hostname = [], architecture = [],
         os_pretty_name = [], kernel_version = [], memory_total_bytes = None, running_builds = 0 \<rparr>,
       m_build_concurrency = None \<rparr>"

section \<open>Lemmas on text\<close>

lemma of_char_lowercase:
  "(of_char (to_ascii_lowercase c) :: nat)
     = (if 65 \<le> (of_char c :: nat) \<and> (of_char c :: nat) \<le> 90 then of_char c + 32 else of_char c)"
  by (auto simp: to_ascii_lowercase_def in_range_def less_eq_char_def)

lemma char_eq_iff_nat: "c = d \<longleftrightarrow> (of_char c :: nat) = of_char d"
  by simp

lemmas char_class_defs = is_swarm_value_byte_def is_swarm_key_byte_def is_ascii_alphanumeric_def
  is_ascii_digit_def is_ascii_lowercase_def in_range_def less_eq_char_def is_whitespace_def

lemma lowercase_idem [simp]: "to_ascii_lowercase (to_ascii_lowercase c) = to_ascii_lowercase c"
  unfolding char_eq_iff_nat by (simp add: of_char_lowercase)

lemma whitespace_lowercase [simp]: "is_whitespace (to_ascii_lowercase c) = is_whitespace c"
  unfolding is_whitespace_def char_eq_iff_nat insert_iff empty_iff of_char_lowercase by auto

lemma value_byte_lowercase: "is_swarm_value_byte c \<Longrightarrow> is_swarm_value_byte (to_ascii_lowercase c)"
  unfolding char_class_defs char_eq_iff_nat set_append list.set insert_iff empty_iff of_char_lowercase append.simps Un_iff
  by (auto )

lemma trim_Cons_space: "is_whitespace c \<Longrightarrow> trim (c # s) = trim s"
  by (simp add: trim_def)

lemma trim_id: "s = [] \<or> \<not> is_whitespace (hd s) \<and> \<not> is_whitespace (last s) \<Longrightarrow> trim s = s"
proof -
  assume a: "s = [] \<or> \<not> is_whitespace (hd s) \<and> \<not> is_whitespace (last s)"
  show ?thesis
  proof (cases "s = []")
    case False
    with a have "dropWhile is_whitespace s = s" "dropWhile is_whitespace (rev s) = rev s"
      by (auto simp: dropWhile_eq_self_iff hd_rev)
    then show ?thesis by (simp add: trim_def)
  qed (simp add: trim_def)
qed

lemma trim_ends: "trim s = [] \<or> \<not> is_whitespace (hd (trim s)) \<and> \<not> is_whitespace (last (trim s))"
proof (cases "trim s = []")
  case False
  let ?d = "dropWhile is_whitespace s"
  from False have ne: "dropWhile is_whitespace (rev ?d) \<noteq> []"
    by (simp add: trim_def)
  then have "\<not> is_whitespace (last (trim s))"
    by (simp add: trim_def last_rev hd_dropWhile)
  moreover have d: "?d \<noteq> []"
    using ne by (metis dropWhile.simps(1) rev.simps(1))
  have "hd (trim s) = hd ?d"
  proof -
    obtain ys where "?d = trim s @ ys"
      using takeWhile_dropWhile_id [of is_whitespace "rev ?d"]
      by (metis rev_append rev_rev_ident trim_def)
    with False show ?thesis by (metis hd_append2)
  qed
  with hd_dropWhile [OF d] have "\<not> is_whitespace (hd (trim s))" by simp
  ultimately show ?thesis by simp
qed simp

lemma trim_lowercase: "trim (map to_ascii_lowercase (trim s)) = map to_ascii_lowercase (trim s)"
  by (rule trim_id) (use trim_ends [of s] in \<open>auto simp: hd_map last_map\<close>)

lemma split_once_str_Some: "split_once_str sep s = Some (a, b) \<Longrightarrow> s = a @ sep @ b"
  by (induction sep s arbitrary: a rule: split_once_str.induct)
    (auto split: if_splits option.splits simp: strip_prefix_Some)

lemma split_once_str_append:
  "c \<notin> set a \<Longrightarrow> split_once_str (c # sep) (a @ (c # sep) @ b) = Some (a, b)"
proof (induction a)
  case Nil
  have "strip_prefix sep (sep @ b) = Some b" by (simp add: strip_prefix_Some)
  then show ?case by (simp)
next
  case (Cons x a)
  then show ?case by simp
qed
lemma key_no_operator: "list_all is_swarm_key_byte key \<Longrightarrow> CHR ''='' \<notin> set key \<and> CHR ''!'' \<notin> set key"
  by (auto simp: list_all_iff char_class_defs)
lemma value_no_operator: "list_all is_swarm_value_byte key \<Longrightarrow> CHR ''='' \<notin> set key \<and> CHR ''!'' \<notin> set key"
  by (auto simp: list_all_iff char_class_defs)
lemma key_not_space: "is_swarm_key_byte c \<Longrightarrow> \<not> is_whitespace c"
  by (auto simp: char_class_defs)

lemma constraint_operator_cases:
  assumes "constraint_parts e = Some (key, op, v)"
  shows "op = ''=='' \<or> op = ''!=''" and "\<exists>w. v = trim w"
  using assms by (auto simp: constraint_parts_def split: option.splits)

lemma split_canonical:
  assumes "list_all is_swarm_key_byte key" and "list_all is_swarm_value_byte v"
  shows "split_once_str ''=='' (key @ ''=='' @ v) = Some (key, v)"
    and "split_once_str ''=='' (key @ ''!='' @ v) = None"
    and "split_once_str ''!='' (key @ ''!='' @ v) = Some (key, v)"
proof -
  note free = key_no_operator [OF assms(1)] value_no_operator [OF assms(2)]
  show "split_once_str ''=='' (key @ ''=='' @ v) = Some (key, v)"
    using free split_once_str_append [of "CHR ''=''" key "''=''" v] by simp
  show "split_once_str ''!='' (key @ ''!='' @ v) = Some (key, v)"
    using free split_once_str_append [of "CHR ''!''" key "''=''" v] by simp
  show "split_once_str ''=='' (key @ ''!='' @ v) = None"
  proof (rule ccontr)
    assume "split_once_str ''=='' (key @ ''!='' @ v) \<noteq> None"
    then obtain a b where "key @ ''!='' @ v = a @ ''=='' @ b"
      using split_once_str_Some by fastforce
    then have "filter (\<lambda>c. c = CHR ''='') (key @ ''!='' @ v) = filter (\<lambda>c. c = CHR ''='') (a @ ''=='' @ b)"
      by simp
    then have "length (filter (\<lambda>c. c = CHR ''='') (key @ ''!='' @ v))
        = length (filter (\<lambda>c. c = CHR ''='') (a @ ''=='' @ b))"
      by simp
    moreover have "filter (\<lambda>c. c = CHR ''='') key = []" "filter (\<lambda>c. c = CHR ''='') v = []"
      using free by (auto simp: filter_empty_conv)
    ultimately show False
      by simp
  qed
qed

lemma constraint_key_canonical:
  assumes "constraint_key key = Some k" and "list_all is_swarm_key_byte key"
  shows "constraint_key k = Some k" and "list_all is_swarm_key_byte k"
proof -
  have "list_all is_swarm_key_byte ''node.id''" "list_all is_swarm_key_byte ''node.labels.''"
    by code_simp+
  moreover have "list_all is_swarm_key_byte (drop n key)" for n
    using assms(2) by (auto simp: list_all_iff dest: in_set_dropD)
  ultimately show "list_all is_swarm_key_byte k"
    using assms(1) by (auto simp: constraint_key_def split: if_splits)
  have "\<not> eq_ignore_ascii_case (''node.labels.'' @ r) ''node.id''" for r
    by (simp add: eq_ignore_ascii_case_def to_ascii_lowercase_def in_range_def less_eq_char_def)
  moreover have "constraint_key ''node.id'' = Some ''node.id''"
    by code_simp
  ultimately show "constraint_key k = Some k"
    using assms(1) by (auto simp: constraint_key_def eq_ignore_ascii_case_def split: if_splits)
qed

text \<open>Parsing a placement constraint canonicalises it: what \<open>parse\<close> accepts becomes a text
  that \<open>parse\<close> maps to itself, so a stored constraint survives every reload unchanged; and
  matching a parsed constraint never reaches the panic on a missing operator.\<close>

theorem placement_constraint_canonical:
  assumes "placement_constraint_parse e = Inr c"
  shows "placement_constraint_parse c = Inr c \<and> (\<forall>machine. constraint_matches c machine \<noteq> None)"
proof -
  from assms obtain key op v k where parts: "constraint_parts e = Some (key, op, v)"
    and key: "list_all is_swarm_key_byte key" and v: "v \<noteq> []" "list_all is_swarm_value_byte v"
    and k: "constraint_key key = Some k" and c: "c = k @ op @ map to_ascii_lowercase v"
    by (auto simp: placement_constraint_parse_def result_simps bind_eq_Some_conv split: if_splits)
  let ?w = "map to_ascii_lowercase v"
  note ops = constraint_operator_cases [OF parts] and canon = constraint_key_canonical [OF k key]
  have w: "list_all is_swarm_value_byte ?w"
    using v(2) by (auto simp: list_all_iff intro: value_byte_lowercase)
  have "trim k = k"
    using canon(2) by (intro trim_id) (auto simp: list_all_iff dest!: key_not_space)
  moreover have "trim ?w = ?w"
    using ops(2) trim_lowercase by auto
  ultimately have "constraint_parts c = Some (k, op, ?w)"
    using ops(1) split_canonical [OF canon(2) w] by (auto simp: constraint_parts_def c)
  then have "placement_constraint_parse c = Inr c"
    using canon w v(1) by (simp add: placement_constraint_parse_def c comp_def)
  moreover have "constraint_matches c machine \<noteq> None" for machine
    using ops(1) split_canonical [OF canon(2) w] by (auto simp: constraint_matches_def c Let_def)
  ultimately show ?thesis
    by blast
qed

theorem placement_constraint_canonical_witness:
  "placement_constraint_parse '' NODE.Labels.Zone == EU-West '' = Inr ''node.labels.Zone==eu-west''
   \<and> placement_constraint_parse ''node.labels.Zone==eu-west'' = Inr ''node.labels.Zone==eu-west''"
proof -
  have p: "placement_constraint_parse '' NODE.Labels.Zone == EU-West '' = Inr ''node.labels.Zone==eu-west''"
    by code_simp
  with placement_constraint_canonical [OF p] show ?thesis
    by blast
qed

section \<open>Fan-out selection serves every selector\<close>

definition selection_inv :: "machine list \<Rightarrow> selection \<Rightarrow> bool" where
  "selection_inv visible acc \<longleftrightarrow>
     distinct (map m_id (sel_targets acc)) \<and> set (sel_targets acc) \<subseteq> set visible
     \<and> set (sel_seen acc) = m_id ` set (sel_targets acc)"

lemma select_machine_inv:
  "machine \<in> set visible \<Longrightarrow> selection_inv visible acc \<Longrightarrow> selection_inv visible (select_machine machine acc)"
  by (auto simp: select_machine_def selection_inv_def)

lemma select_machine_grows:
  "selection_inv visible acc \<Longrightarrow> m_id ` set (sel_targets (select_machine machine acc)) = insert (m_id machine) (m_id ` set (sel_targets acc))"
  "sel_missing (select_machine machine acc) = sel_missing acc"
  by (auto simp: select_machine_def selection_inv_def)

lemma select_all:
  assumes "set ms \<subseteq> set visible" and "selection_inv visible acc"
  shows "selection_inv visible (fold select_machine ms acc)
    \<and> m_id ` set (sel_targets (fold select_machine ms acc)) = m_id ` set ms \<union> m_id ` set (sel_targets acc)
    \<and> sel_missing (fold select_machine ms acc) = sel_missing acc"
  using assms
proof (induction ms arbitrary: acc)
  case (Cons m ms)
  then have "selection_inv visible (select_machine m acc)"
    by (auto intro: select_machine_inv)
  with Cons show ?case
    by (auto simp: select_machine_grows)
qed simp

lemma resolve_fold:
  "fold (\<lambda>machine (exact_id, names).
      (if m_id machine = text then Some machine else exact_id,
       if m_name machine = text then names @ [machine] else names)) ms (e, ns)
   = (case List.find (\<lambda>m. m_id m = text) (rev ms) of None \<Rightarrow> e | Some m \<Rightarrow> Some m,
      ns @ filter (\<lambda>m. m_name m = text) ms)"
  by (induction ms arbitrary: e ns) (auto simp: find_append split: option.splits)

lemma resolve_machine_text_alt:
  "resolve_machine_text text visible =
     (case List.find (\<lambda>m. m_id m = text) (rev visible) of
        Some m \<Rightarrow> OneMatch m
      | None \<Rightarrow> from_matches (filter (\<lambda>m. m_name m = text) visible))"
  unfolding resolve_machine_text_def resolve_fold by (auto split: option.splits)

lemma resolve_machine_text_One:
  assumes "resolve_machine_text text visible = OneMatch m"
  shows "m \<in> set visible \<and> machine_matches_target m text"
proof (cases "List.find (\<lambda>m. m_id m = text) (rev visible)")
  case None
  with assms have "filter (\<lambda>m. m_name m = text) visible = [m]"
    by (auto simp: resolve_machine_text_alt from_matches_def split: list.splits)
  then have "m \<in> set (filter (\<lambda>m. m_name m = text) visible)"
    by simp
  then show ?thesis
    by (simp add: machine_matches_target_def)
next
  case (Some m')
  with assms find_SomeD [OF Some] show ?thesis
    by (simp add: resolve_machine_text_alt machine_matches_target_def)
qed

definition selected :: "machine list \<Rightarrow> selection \<Rightarrow> fanout_selector \<Rightarrow> bool" where
  "selected visible acc selector =
     (case selector of
        All_Machines \<Rightarrow> m_id ` set visible \<subseteq> m_id ` set (sel_targets acc)
      | One_Machine target \<Rightarrow>
          (\<exists>m \<in> set visible. machine_matches_target m target \<and> m_id m \<in> m_id ` set (sel_targets acc)))"

lemma select_step_inv:
  assumes "select_step visible selector acc = Inr acc'" and "selection_inv visible acc"
  shows "selection_inv visible acc'"
    and "m_id ` set (sel_targets acc) \<subseteq> m_id ` set (sel_targets acc')"
    and "sel_missing acc \<noteq> [] \<Longrightarrow> sel_missing acc' \<noteq> []"
    and "sel_missing acc' = [] \<Longrightarrow> selected visible acc' selector"
proof -
  note one = resolve_machine_text_One select_machine_inv select_machine_grows
  have "selection_inv visible acc' \<and> m_id ` set (sel_targets acc) \<subseteq> m_id ` set (sel_targets acc')
    \<and> (sel_missing acc \<noteq> [] \<longrightarrow> sel_missing acc' \<noteq> [])
    \<and> (sel_missing acc' = [] \<longrightarrow> selected visible acc' selector)"
  proof (cases selector)
    case All_Machines
    with assms select_all [OF subset_refl assms(2)] show ?thesis
      by (auto simp: select_step_def selected_def)
  next
    case (One_Machine target)
    show ?thesis
    proof (cases "resolve_machine_text target visible")
      case NoMatch
      with assms One_Machine show ?thesis
        by (auto simp: select_step_def selection_inv_def)
    next
      case (OneMatch m)
      with one(1) [OF this] one(2) [of m visible acc] one(3) [OF assms(2), of m] assms One_Machine
      show ?thesis
        by (auto simp: select_step_def selected_def select_machine_grows)
    qed (use assms One_Machine in \<open>auto simp: select_step_def\<close>)
  qed
  then show "selection_inv visible acc'" "m_id ` set (sel_targets acc) \<subseteq> m_id ` set (sel_targets acc')"
    "sel_missing acc \<noteq> [] \<Longrightarrow> sel_missing acc' \<noteq> []"
    "sel_missing acc' = [] \<Longrightarrow> selected visible acc' selector"
    by blast+
qed

lemma selected_mono:
  "selected visible acc selector \<Longrightarrow> m_id ` set (sel_targets acc) \<subseteq> m_id ` set (sel_targets acc')
     \<Longrightarrow> selected visible acc' selector"
  by (cases selector) (simp_all add: selected_def, blast+)

lemma select_steps_inv:
  assumes "rfold (select_step visible) selectors \<lparr> sel_targets = [], sel_seen = [], sel_missing = [] \<rparr> = Inr acc"
  shows "selection_inv visible acc
    \<and> (sel_missing acc = [] \<longrightarrow> (\<forall>s \<in> set selectors. selected visible acc s))"
proof (rule rfold_invariant_prefix [OF assms])
  fix pre selector post s t
  assume "selection_inv visible s
    \<and> (sel_missing s = [] \<longrightarrow> (\<forall>x \<in> set pre. selected visible s x))"
    and "select_step visible selector s = Inr t"
  with select_step_inv [of visible selector s t] show "selection_inv visible t
    \<and> (sel_missing t = [] \<longrightarrow> (\<forall>x \<in> set (pre @ [selector]). selected visible t x))"
    by (auto intro: selected_mono)
qed (simp add: selection_inv_def)



end
