(* ===== verification/Volumes.thy ===== *)
theory Volumes
  imports Machines
begin

text \<open>
  Storage declarations of a Service: \<open>domain/volume.rs\<close> and the creation request of
  \<open>rpc/docker.rs\<close>, under \<open>ployz-core/src\<close>. A graph is built by its
  \<open>parse\<close> only; \<open>volume_graph_wf\<close> says so. A panic of \<open>expect\<close> is \<open>None\<close> or \<open>Panic\<close>.
\<close>

section \<open>Sources\<close>

datatype bind_propagation = Private | Rprivate | Shared | Rshared | Slave | Rslave
datatype bind_recursive = Recursive_Disabled | Recursive_Writable | Recursive_Readonly

record volume_driver =
  vd_name :: string
  vd_options :: "(string, string) btree"

definition PROVISIONED_VOLUME_DRIVER :: string where
  "PROVISIONED_VOLUME_DRIVER = ''ployz''"

definition MANAGED_LABEL :: string where
  "MANAGED_LABEL = ''ployz.managed''"

definition NAMESPACE_LABEL :: string where
  "NAMESPACE_LABEL = ''ployz.namespace''"

definition volume_driver_parse ::
  "string \<Rightarrow> (string, string) btree \<Rightarrow> (value_error, volume_driver) result" where
  "volume_driver_parse name options =
     (if name = PROVISIONED_VOLUME_DRIVER
      then Inl (value_error_new ''ordinary Docker Volume driver'' name
        ''a driver other than the reserved 'ployz' driver'')
      else Inr \<lparr> vd_name = name, vd_options = options \<rparr>)"

datatype raw_volume_source =
    Bind machine_path bool "bind_propagation option" "bind_recursive option"
  | External docker_volume_name
  | Ordinary docker_volume_name volume_driver "(string, string) btree"
  | Provisioned docker_volume_name u64 "(string, string) btree"
  | Tmpfs "u64 option" "u32 option" "string list list"

record scoped_volume_source =
  scope_namespace :: namespace
  scope_logical_name :: docker_volume_name

record volume_source =
  vs_source :: raw_volume_source
  vs_scope :: "scoped_volume_source option"

definition scope_physical_name :: "scoped_volume_source \<Rightarrow> docker_volume_name" where
  "scope_physical_name scope = namespace_volume_name (scope_namespace scope) (scope_logical_name scope)"

definition raw_labels :: "raw_volume_source \<Rightarrow> (string, string) btree" where
  "raw_labels source =
     (case source of Ordinary _ _ labels \<Rightarrow> labels | Provisioned _ _ labels \<Rightarrow> labels | _ \<Rightarrow> [])"

definition is_managed_source :: "raw_volume_source \<Rightarrow> bool" where
  "is_managed_source source =
     (case source of Ordinary _ _ _ \<Rightarrow> True | Provisioned _ _ _ \<Rightarrow> True | _ \<Rightarrow> False)"

text \<open>\<open>TryFrom<RawVolumeSource>\<close>: user labels cannot assert ownership.\<close>

definition volume_source_admit :: "raw_volume_source \<Rightarrow> (value_error, volume_source) result" where
  "volume_source_admit source =
     (case List.find (\<lambda>key. key = MANAGED_LABEL \<or> key = NAMESPACE_LABEL) (bt_keys (raw_labels source)) of
        Some key \<Rightarrow> Inl (value_error_new ''volume label'' key ''a non-reserved user label'')
      | None \<Rightarrow> Inr \<lparr> vs_source = source, vs_scope = None \<rparr>)"

definition docker_volume_name :: "volume_source \<Rightarrow> docker_volume_name option" where
  "docker_volume_name source =
     (case vs_source source of
        External name \<Rightarrow> Some name
      | Ordinary name _ _ \<Rightarrow> Some name
      | Provisioned name _ _ \<Rightarrow> Some name
      | Bind _ _ _ _ \<Rightarrow> None
      | Tmpfs _ _ _ \<Rightarrow> None)"

definition managed_docker_volume_name :: "volume_source \<Rightarrow> docker_volume_name option" where
  "managed_docker_volume_name source =
     (case vs_source source of
        Ordinary name _ _ \<Rightarrow> Some name
      | Provisioned name _ _ \<Rightarrow> Some name
      | External _ \<Rightarrow> None
      | Bind _ _ _ _ \<Rightarrow> None
      | Tmpfs _ _ _ \<Rightarrow> None)"

definition source_scope_to_namespace :: "namespace \<Rightarrow> volume_source \<Rightarrow> volume_source" where
  "source_scope_to_namespace namespace source =
     (if vs_scope source \<noteq> None then source
      else case vs_source source of
          Ordinary name driver labels \<Rightarrow>
            \<lparr> vs_source = Ordinary (namespace_volume_name namespace name) driver labels,
              vs_scope = Some \<lparr> scope_namespace = namespace, scope_logical_name = name \<rparr> \<rparr>
        | Provisioned name maximum labels \<Rightarrow>
            \<lparr> vs_source = Provisioned (namespace_volume_name namespace name) maximum labels,
              vs_scope = Some \<lparr> scope_namespace = namespace, scope_logical_name = name \<rparr> \<rparr>
        | _ \<Rightarrow> source)"

definition is_resolved :: "volume_source \<Rightarrow> bool" where
  "is_resolved source = (\<not> is_managed_source (vs_source source) \<or> vs_scope source \<noteq> None)"

definition creation_labels :: "volume_source \<Rightarrow> (string, string) btree" where
  "creation_labels source =
     (if \<not> is_managed_source (vs_source source) then []
      else let labels = raw_labels (vs_source source) in
        case vs_scope source of
          None \<Rightarrow> labels
        | Some scope \<Rightarrow>
            bt_insert NAMESPACE_LABEL (scope_namespace scope) (bt_insert MANAGED_LABEL [] labels))"

section \<open>Sizes in GB\<close>

text \<open>Decimal numbers, over \<open>int\<close> so that they compute: printing and reading.\<close>

definition digit_char :: "int \<Rightarrow> char" where
  "digit_char d = char_of (48 + d)"

definition char_digit :: "char \<Rightarrow> int" where
  "char_digit c = of_char c - 48"

function decimal :: "int \<Rightarrow> string" where
  "decimal n = (if n < 10 then [digit_char n] else decimal (n div 10) @ [digit_char (n mod 10)])"
  by auto

termination
  by (relation "measure nat") auto

definition decimal_value :: "string \<Rightarrow> int" where
  "decimal_value s = fold (\<lambda>c v. 10 * v + char_digit c) s 0"

text \<open>\<open>str::parse::<u64>\<close> on a text of digits: empty text and overflow are refused.\<close>

definition parse_u64 :: "string \<Rightarrow> u64 option" where
  "parse_u64 s =
     (if s = [] \<or> \<not> list_all is_ascii_digit s \<or> 2 ^ 64 \<le> decimal_value s then None
      else Some (of_int (decimal_value s)))"

definition strip_suffix :: "string \<Rightarrow> string \<Rightarrow> string option" where
  "strip_suffix suffix s = map_option rev (strip_prefix (rev suffix) (rev s))"

definition trim_end :: "string \<Rightarrow> string" where
  "trim_end s = rev (dropWhile is_whitespace (rev s))"

definition GB :: u64 where
  "GB = 1000000000"

definition parse_gb :: "string \<Rightarrow> (value_error, u64) result" where
  "parse_gb value =
     (let invalid = value_error_new ''storage limit'' value ''a positive number of GB, like 5GB or 1.5GB'';
          number = trim value;
          number = trim_end (case strip_suffix ''GB'' number of
             Some n \<Rightarrow> n
           | None \<Rightarrow> (case strip_suffix ''gb'' number of Some n \<Rightarrow> n | None \<Rightarrow> number));
          (whole, fraction) = (case split_once CHR ''.'' number of Some p \<Rightarrow> p | None \<Rightarrow> (number, []))
      in
        if (whole = [] \<and> fraction = []) \<or> 9 < length fraction
          \<or> \<not> list_all is_ascii_digit whole \<or> \<not> list_all is_ascii_digit fraction
        then Inl invalid
        else
          rbind (if whole = [] then Inr 0 else ok_or invalid (parse_u64 whole)) (\<lambda>whole.
          rbind (ok_or invalid (parse_u64 (fraction @ replicate (9 - length fraction) CHR ''0''))) (\<lambda>fraction.
          ok_or invalid
            (Option.bind (checked_mul whole GB) (\<lambda>bytes.
             Option.bind (checked_add bytes fraction) (\<lambda>bytes.
             if bytes = 0 then None else Some bytes))))))"

definition display_gb :: "u64 \<Rightarrow> string" where
  "display_gb bytes =
     (let whole = uint (bytes div GB); fraction = uint (bytes mod GB) in
      if fraction = 0 then decimal whole @ '' GB''
      else let digits = decimal fraction;
               padded = replicate (9 - length digits) CHR ''0'' @ digits
           in decimal whole @ ''.'' @ rev (dropWhile (\<lambda>c. c = CHR ''0'') (rev padded)) @ '' GB'')"

section \<open>Docker Volumes\<close>

datatype docker_volume_id = DockerVolumeId (volume_machine_id: machine_id) (volume_name: docker_volume_name)

instantiation docker_volume_id :: linorder
begin

definition less_eq_docker_volume_id :: "docker_volume_id \<Rightarrow> docker_volume_id \<Rightarrow> bool" where
  "less_eq_docker_volume_id a b
     \<longleftrightarrow> (volume_machine_id a, volume_name a) \<le> (volume_machine_id b, volume_name b)"

definition less_docker_volume_id :: "docker_volume_id \<Rightarrow> docker_volume_id \<Rightarrow> bool" where
  "less_docker_volume_id a b
     \<longleftrightarrow> (volume_machine_id a, volume_name a) < (volume_machine_id b, volume_name b)"

instance
  by standard (auto simp: less_eq_docker_volume_id_def less_docker_volume_id_def
      docker_volume_id.expand)

end

datatype docker_volume_storage_observation =
    Plain string
  | Provisioned_Storage machine_path u64 u64

record docker_volume =
  dv_id :: docker_volume_id
  dv_options :: "(string, string) btree"
  dv_labels :: "(string, string) btree"
  dv_storage :: docker_volume_storage_observation

definition docker_volume_driver :: "docker_volume \<Rightarrow> string" where
  "docker_volume_driver volume =
     (case dv_storage volume of
        Plain driver \<Rightarrow> driver
      | Provisioned_Storage _ _ _ \<Rightarrow> PROVISIONED_VOLUME_DRIVER)"

record create_volume_request =
  cv_name :: docker_volume_name
  cv_driver :: string
  cv_options :: "(string, string) btree"
  cv_labels :: "(string, string) btree"

definition to_create_volume_request :: "volume_source \<Rightarrow> create_volume_request option" where
  "to_create_volume_request source =
     (if \<not> is_resolved source then None
      else case vs_source source of
          Ordinary name driver _ \<Rightarrow>
            Some \<lparr> cv_name = name, cv_driver = vd_name driver, cv_options = vd_options driver,
              cv_labels = creation_labels source \<rparr>
        | Provisioned name maximum_bytes _ \<Rightarrow>
            Some \<lparr> cv_name = name, cv_driver = PROVISIONED_VOLUME_DRIVER,
              cv_options = [(''size'', decimal (uint maximum_bytes) @ ''b'')],
              cv_labels = creation_labels source \<rparr>
        | External _ \<Rightarrow> None
        | Bind _ _ _ _ \<Rightarrow> None
        | Tmpfs _ _ _ \<Rightarrow> None)"

definition matches_managed_volume :: "volume_source \<Rightarrow> docker_volume \<Rightarrow> bool" where
  "matches_managed_volume source observed =
     (case to_create_volume_request source of
        None \<Rightarrow> False
      | Some expected \<Rightarrow>
          volume_name (dv_id observed) = cv_name expected
          \<and> docker_volume_driver observed = cv_driver expected
          \<and> dv_options observed = cv_options expected
          \<and> list_all (\<lambda>(key, value). bt_get (dv_labels observed) key = Some value) (cv_labels expected)
          \<and> (case (vs_source source, dv_storage observed) of
               (Ordinary _ _ _, Plain _) \<Rightarrow> True
             | (Provisioned _ maximum_bytes _, Provisioned_Storage _ bound_bytes _) \<Rightarrow>
                 bound_bytes = maximum_bytes
             | _ \<Rightarrow> False))"

section \<open>Resolved sources on the wire\<close>

definition resolved_source_from :: "volume_source \<Rightarrow> (value_error, volume_source) result" where
  "resolved_source_from source =
     (if \<not> is_resolved source
      then Inl (value_error_new ''resolved volume'' ''unscoped'' ''a Namespace-scoped managed source'')
      else Inr source)"

definition resolved_source_decode ::
  "raw_volume_source \<Rightarrow> scoped_volume_source option \<Rightarrow> (value_error, volume_source) result" where
  "resolved_source_decode wire_source wire_scope =
     rbind (volume_source_admit wire_source) (\<lambda>source.
     if (case wire_scope of
           None \<Rightarrow> False
         | Some scope \<Rightarrow> \<not> is_managed_source (vs_source source)
             \<or> docker_volume_name source \<noteq> Some (scope_physical_name scope))
     then Inl (value_error_new ''resolved volume'' ''scope''
       ''ownership matching the managed physical source'')
     else resolved_source_from (source\<lparr> vs_scope := wire_scope \<rparr>))"

section \<open>Decimal numbers\<close>

declare decimal.simps [simp del]

lemma digit_char_digit: "0 \<le> d \<Longrightarrow> d < 10 \<Longrightarrow> char_digit (digit_char d) = d"
  by (simp add: char_digit_def digit_char_def)

lemma is_digit_iff: "is_ascii_digit c \<longleftrightarrow> 48 \<le> (of_char c :: int) \<and> (of_char c :: int) \<le> 57"
proof -
  have "(of_char c :: int) = int (of_char c)"
    by (simp add: of_nat_of_char)
  then show ?thesis
    by (simp only: is_ascii_digit_def in_range_def less_eq_char_def) simp
qed

lemma digit_char_is_digit: "0 \<le> d \<Longrightarrow> d < 10 \<Longrightarrow> is_ascii_digit (digit_char d)"
  by (simp add: is_digit_iff digit_char_def)

lemma decimal_not_Nil [simp]: "decimal n \<noteq> []"
  by (subst decimal.simps) simp

lemma decimal_digits: "0 \<le> n \<Longrightarrow> list_all is_ascii_digit (decimal n)"
proof (induction n rule: decimal.induct)
  case (1 n)
  then show ?case
    by (subst decimal.simps) (auto intro: digit_char_is_digit)
qed

lemma fold_decimal: "fold (\<lambda>c v. 10 * v + char_digit c) s v = v * 10 ^ length s + decimal_value s"
proof (induction s rule: rev_induct)
  case (snoc c s)
  then show ?case by (simp add: decimal_value_def algebra_simps)
qed (simp add: decimal_value_def)

lemma decimal_value_append: "decimal_value (s @ t) = decimal_value s * 10 ^ length t + decimal_value t"
  using fold_decimal [of t "decimal_value s"] by (simp add: decimal_value_def)

lemma decimal_value_decimal [simp]: "0 \<le> n \<Longrightarrow> decimal_value (decimal n) = n"
proof (induction n rule: decimal.induct)
  case (1 n)
  show ?case
  proof (cases "n < 10")
    case True
    then show ?thesis using "1.prems" by (subst decimal.simps) (simp add: decimal_value_def digit_char_digit)
  next
    case False
    have "decimal_value [digit_char (n mod 10)] = n mod 10"
      by (simp add: decimal_value_def digit_char_digit)
    then show ?thesis using 1 False by (subst decimal.simps) (simp add: decimal_value_append)
  qed
qed

lemma decimal_value_zeros: "decimal_value (replicate k CHR ''0'') = 0"
  by (induction k) (simp_all add: decimal_value_def char_digit_def)

lemma length_decimal: "0 \<le> n \<Longrightarrow> n < 10 ^ Suc k \<Longrightarrow> length (decimal n) \<le> Suc k"
proof (induction k arbitrary: n)
  case 0
  then show ?case by (subst decimal.simps) simp
next
  case (Suc k)
  show ?case
  proof (cases "n < 10")
    case False
    have "length (decimal (n div 10)) \<le> Suc k"
      by (rule Suc.IH) (use Suc.prems in auto)
    with False show ?thesis by (subst decimal.simps) simp
  qed (subst decimal.simps, simp)
qed

lemma trailing_zeros:
  "length p = n \<Longrightarrow> let q = rev (dropWhile (\<lambda>c. c = z) (rev p)) in q @ replicate (n - length q) z = p"
proof -
  assume n: "length p = n"
  let ?d = "dropWhile (\<lambda>c. c = z) (rev p)" and ?t = "takeWhile (\<lambda>c. c = z) (rev p)"
  have "?t = replicate (length ?t) z"
    by (rule replicate_length_same [symmetric]) (auto dest: set_takeWhileD)
  moreover have "p = rev ?d @ rev ?t"
    by (metis rev_append rev_rev_ident takeWhile_dropWhile_id)
  moreover have "length p = length ?t + length ?d"
    by (metis length_append length_rev takeWhile_dropWhile_id)
  then have "length ?t = n - length (rev ?d)"
    using n by simp
  ultimately show ?thesis
    by (metis rev_replicate)
qed

lemma uint_of_int_id: "0 \<le> k \<Longrightarrow> k < 2 ^ 64 \<Longrightarrow> uint (of_int k :: u64) = k"
  by (simp add: uint_word_of_int_eq take_bit_int_eq_self)

lemma parse_u64_decimal: "0 \<le> n \<Longrightarrow> n < 2 ^ 64 \<Longrightarrow> parse_u64 (decimal n) = Some (of_int n)"
  by (simp add: parse_u64_def decimal_digits)

lemma digit_not_space: "is_ascii_digit c \<Longrightarrow> \<not> is_whitespace c"
  by (auto simp: char_class_defs)

lemma digit_not_dot: "list_all is_ascii_digit s \<Longrightarrow> CHR ''.'' \<notin> set s"
  by (auto simp: list_all_iff char_class_defs)

lemma strip_suffix_append [simp]: "strip_suffix t (s @ t) = Some s"
  by (simp add: strip_suffix_def strip_prefix_Some)

lemma trim_gb:
  assumes "s \<noteq> []" and "is_ascii_digit (hd s)" and "is_ascii_digit (last s)"
  shows "trim (s @ '' GB'') = s @ '' GB''" and "trim_end (s @ '' '') = s"
proof -
  show "trim (s @ '' GB'') = s @ '' GB''"
    using assms digit_not_space by (intro trim_id) (auto simp: is_whitespace_def)
  show "trim_end (s @ '' '') = s"
    using assms digit_not_space [of "last s"]
    by (cases s rule: rev_cases) (auto simp: trim_end_def is_whitespace_def)
qed

lemma strip_gb: "strip_suffix ''GB'' (s @ '' GB'') = Some (s @ '' '')"
  using strip_suffix_append [of "''GB''" "s @ '' ''"] by simp

lemma list_all_hd_last: "list_all P s \<Longrightarrow> s \<noteq> [] \<Longrightarrow> P (hd s) \<and> P (last s)"
  by (simp add: list_all_iff)

section \<open>Properties\<close>

text \<open>A storage limit survives its text: the printed form of every positive byte count,
  in GB with at most nine decimals and no trailing zeros, parses to the same byte count. No
  rounding and no overflow occurs on the way.\<close>

theorem parse_gb_display:
  assumes "bytes \<noteq> 0"
  shows "parse_gb (display_gb bytes) = Inr bytes"
proof -
  define w f where "w = uint (bytes div GB)" and "f = uint (bytes mod GB)"
  have wf: "w = uint bytes div 1000000000" "f = uint bytes mod 1000000000"
    by (simp_all add: w_def f_def GB_def uint_div uint_mod)
  have w: "0 \<le> w" "w < 2 ^ 64" and f: "0 \<le> f" "f < 1000000000"
    using uint_lt2p [of "bytes div GB"] by (simp_all add: w_def wf(2))
  have sum: "w * 1000000000 + f = uint bytes"
    by (simp add: wf)
  have whole: "parse_u64 (decimal w) = Some (of_int w)"
    using w by (simp add: parse_u64_decimal)
  have mul: "checked_mul (of_int w) GB = Some (of_int (w * 1000000000))"
  proof -
    have "uint (of_int w :: u64) = w"
      by (rule uint_of_int_id [OF w])
    moreover have "w * 1000000000 < 2 ^ 64"
      using sum f uint_lt2p [of bytes] by simp
    ultimately show ?thesis
      by (simp add: checked_mul_def GB_def)
  qed
  have add: "checked_add (of_int (w * 1000000000)) (of_int f) = Some bytes"
  proof -
    have "uint (of_int (w * 1000000000) :: u64) = w * 1000000000" "uint (of_int f :: u64) = f"
      by (rule uint_of_int_id; use w f sum uint_lt2p [of bytes] in simp)+
    moreover have "of_int (w * 1000000000) + of_int f = bytes"
      using arg_cong [OF sum, of "of_int :: int \<Rightarrow> u64"] by simp
    ultimately show ?thesis
      using sum uint_lt2p [of bytes] by (simp add: checked_add_def)
  qed
  note dw = decimal_digits [OF w(1)]
  show ?thesis
  proof (cases "f = 0")
    case True
    have "display_gb bytes = decimal w @ '' GB''"
      using True by (simp add: display_gb_def w_def [symmetric] f_def [symmetric])
    moreover have "split_once CHR ''.'' (decimal w) = None"
      using digit_not_dot [OF dw] by (simp add: split_once_None)
    moreover have "parse_u64 ''000000000'' = Some 0"
      by code_simp
    ultimately show ?thesis
      using trim_gb [of "decimal w"] list_all_hd_last [OF dw] dw whole mul add True assms
      by (simp add: parse_gb_def strip_gb Let_def numeral_nat)
  next
    case False
    define p where "p = replicate (9 - length (decimal f)) CHR ''0'' @ decimal f"
    define q where "q = rev (dropWhile (\<lambda>c. c = CHR ''0'') (rev p))"
    have len: "length p = 9"
      using length_decimal [of f 8] f by (simp add: p_def)
    have pq: "q @ replicate (9 - length q) CHR ''0'' = p"
      using trailing_zeros [OF len, of "CHR ''0''"] by (simp add: Let_def q_def)
    have dp: "list_all is_ascii_digit p"
      using decimal_digits [OF f(1)] by (auto simp: p_def list_all_iff char_class_defs)
    then have dq: "list_all is_ascii_digit q"
      by (metis pq list_all_append)
    have vp: "decimal_value p = f"
      using f by (simp add: p_def decimal_value_append decimal_value_zeros)
    have "q \<noteq> []"
    proof
      assume "q = []"
      then have "p = replicate 9 CHR ''0''" using pq by simp
      with vp have "f = 0" by (simp only: decimal_value_zeros)
      with False show False by simp
    qed
    have lq: "length q \<le> 9"
      using arg_cong [OF pq, of length] len by simp
    have frac: "parse_u64 (q @ replicate (9 - length q) CHR ''0'') = Some (of_int f)"
      unfolding pq using f dp vp len by (auto simp: parse_u64_def)
    let ?s = "decimal w @ ''.'' @ q"
    have "display_gb bytes = ?s @ '' GB''"
      using False by (simp add: display_gb_def w_def [symmetric] f_def [symmetric] Let_def p_def q_def)
    moreover have "split_once CHR ''.'' ?s = Some (decimal w, q)"
      using digit_not_dot [OF dw] by simp
    moreover have "trim (?s @ '' GB'') = ?s @ '' GB''" "trim_end (?s @ '' '') = ?s"
      using trim_gb [of ?s] list_all_hd_last [OF dw] list_all_hd_last [OF dq \<open>q \<noteq> []\<close>] \<open>q \<noteq> []\<close> by auto
    ultimately show ?thesis
      using dw dq lq frac whole mul add assms \<open>q \<noteq> []\<close>
      unfolding parse_gb_def by (simp only: strip_gb Let_def) simp
  qed
qed

theorem parse_gb_display_witness:
  "display_gb 1500000000 = ''1.5 GB'' \<and> parse_gb (display_gb 1500000000) = Inr 1500000000"
proof -
  have "display_gb 1500000000 = ''1.5 GB''"
    by code_simp
  with parse_gb_display [of 1500000000] show ?thesis
    by simp
qed

end
