(* ===== verification/Volume_Graph.thy ===== *)
theory Volume_Graph
  imports Volumes
begin

text \<open>
  \<open>ployz-core/src/domain/service_graph.rs\<close>: the Volume and Config definitions of a
  Service together with the mounts that refer to them, and the admission of
  their destinations inside the container.
\<close>

section \<open>Volume graphs\<close>

record service_volume =
  sv_reference :: service_volume_reference
  sv_source :: volume_source

record service_mount =
  mnt_volume :: service_volume_reference
  mnt_target :: container_path
  mnt_read_only :: bool
  mnt_no_copy :: bool
  mnt_subpath :: "string option"

record service_volume_graph =
  vg_volumes :: "service_volume list"
  vg_mounts :: "service_mount list"

datatype service_volume_graph_error =
    DuplicateVolumeReference service_volume_reference
  | UnknownVolumeReference service_volume_reference
  | IncompatibleVolumeAliases docker_volume_name
  | UnscopedVolume service_volume_reference

text \<open>One turn of the loop over the definitions: the references seen so far, and the source of
  every Docker Volume named so far.\<close>

definition admit_volume ::
  "service_volume
     \<Rightarrow> service_volume_reference list \<times> (docker_volume_name, volume_source) btree
     \<Rightarrow> (service_volume_graph_error,
         service_volume_reference list \<times> (docker_volume_name, volume_source) btree) result" where
  "admit_volume volume state =
     (let (references, docker_volumes) = state in
      if sv_reference volume \<in> set references
      then Inl (DuplicateVolumeReference (sv_reference volume))
      else case docker_volume_name (sv_source volume) of
          None \<Rightarrow> Inr (bs_insert (sv_reference volume) references, docker_volumes)
        | Some name \<Rightarrow>
            if (case bt_get docker_volumes name of
                  None \<Rightarrow> False | Some existing \<Rightarrow> existing \<noteq> sv_source volume)
            then Inl (IncompatibleVolumeAliases name)
            else Inr (bs_insert (sv_reference volume) references,
                      bt_insert name (sv_source volume) docker_volumes))"

definition volume_graph_parse ::
  "service_volume list \<Rightarrow> service_mount list
     \<Rightarrow> (service_volume_graph_error, service_volume_graph) result" where
  "volume_graph_parse volumes mounts =
     rbind (rfold admit_volume volumes ([], [])) (\<lambda>(references, _).
     case List.find (\<lambda>mount. mnt_volume mount \<notin> set references) mounts of
       Some mount \<Rightarrow> Inl (UnknownVolumeReference (mnt_volume mount))
     | None \<Rightarrow> Inr \<lparr> vg_volumes = volumes, vg_mounts = mounts \<rparr>)"

definition volume_graph_scope ::
  "namespace \<Rightarrow> service_volume_graph \<Rightarrow> (service_volume_graph_error, service_volume_graph) result" where
  "volume_graph_scope namespace graph =
     volume_graph_parse
       (map (\<lambda>volume. volume\<lparr> sv_source := source_scope_to_namespace namespace (sv_source volume) \<rparr>)
          (vg_volumes graph))
       (vg_mounts graph)"

definition volume_for :: "service_volume_graph \<Rightarrow> service_mount \<Rightarrow> service_volume option" where
  "volume_for graph mount =
     List.find (\<lambda>volume. sv_reference volume = mnt_volume mount) (vg_volumes graph)"

text \<open>\<open>volume_for\<close> panics on a dangling mount; \<open>volume_for_total\<close> below shows that a parsed graph
  has none, so nothing is dropped here.\<close>

definition mounted_volumes :: "service_volume_graph \<Rightarrow> service_volume list" where
  "mounted_volumes graph = List.map_filter (volume_for graph) (vg_mounts graph)"

definition is_provisioned :: "raw_volume_source \<Rightarrow> bool" where
  "is_provisioned source = (case source of Provisioned _ _ _ \<Rightarrow> True | _ \<Rightarrow> False)"

definition mounted_provisioned_volumes :: "service_volume_graph \<Rightarrow> service_volume list" where
  "mounted_provisioned_volumes graph =
     filter (\<lambda>volume. is_provisioned (vs_source (sv_source volume))) (mounted_volumes graph)"

definition has_mounted_provisioned_volume :: "service_volume_graph \<Rightarrow> bool" where
  "has_mounted_provisioned_volume graph = (mounted_provisioned_volumes graph \<noteq> [])"

text \<open>\<open>TryFrom<ServiceVolumeGraph> for ResolvedServiceVolumeGraph\<close>.\<close>

definition resolve_volume_graph ::
  "service_volume_graph \<Rightarrow> (service_volume_graph_error, service_volume_graph) result" where
  "resolve_volume_graph graph =
     (case List.find (\<lambda>volume. \<not> is_resolved (sv_source volume)) (vg_volumes graph) of
        Some volume \<Rightarrow> Inl (UnscopedVolume (sv_reference volume))
      | None \<Rightarrow> Inr graph)"

section \<open>Config graphs\<close>

record config_spec =
  cfg_name :: string
  cfg_content :: "u8 list"

record config_mount =
  cm_config_name :: string
  cm_target :: "container_path option"
  cm_uid :: "u64 option"
  cm_gid :: "u64 option"
  cm_mode :: "u32 option"

record service_config_graph =
  cg_configs :: "config_spec list"
  cg_mounts :: "config_mount list"

datatype service_config_graph_error = DuplicateConfigName string | UnknownConfigName string

definition config_graph_parse ::
  "config_spec list \<Rightarrow> config_mount list
     \<Rightarrow> (service_config_graph_error, service_config_graph) result" where
  "config_graph_parse configs mounts =
     rbind (rfold (\<lambda>config names.
        if cfg_name config \<in> set names then Inl (DuplicateConfigName (cfg_name config))
        else Inr (bs_insert (cfg_name config) names)) configs []) (\<lambda>names.
     case List.find (\<lambda>mount. cm_config_name mount \<notin> set names) mounts of
       Some mount \<Rightarrow> Inl (UnknownConfigName (cm_config_name mount))
     | None \<Rightarrow> Inr \<lparr> cg_configs = configs, cg_mounts = mounts \<rparr>)"

definition config_for :: "service_config_graph \<Rightarrow> config_mount \<Rightarrow> config_spec option" where
  "config_for graph mount =
     List.find (\<lambda>config. cfg_name config = cm_config_name mount) (cg_configs graph)"

section \<open>Mount graphs\<close>

datatype service_spec_graph_error =
    RootMountTarget
  | DuplicateMountTarget container_path
  | Volume_Error service_volume_graph_error
  | Config_Error service_config_graph_error

text \<open>One path component: empty and \<open>.\<close> are skipped, \<open>..\<close> pops, anything else is pushed.\<close>

definition push_part :: "string \<Rightarrow> string list \<Rightarrow> string list" where
  "push_part part parts =
     (if part = [] \<or> part = ''.'' then parts
      else if part = ''..'' then butlast parts
      else parts @ [part])"

fun join_path :: "string list \<Rightarrow> string" where
  "join_path [] = []"
| "join_path [p] = p"
| "join_path (p # ps) = p @ ''/'' @ join_path ps"

definition path_parts :: "string \<Rightarrow> string list" where
  "path_parts raw = fold push_part (split_on CHR ''/'' raw) []"

definition admit_target ::
  "string \<Rightarrow> container_path list
     \<Rightarrow> (service_spec_graph_error fault, container_path \<times> container_path list) result" where
  "admit_target raw destinations =
     (let parts = path_parts raw in
      if parts = [] then Inl (Err RootMountTarget)
      else let target = ''/'' @ join_path parts in
        if \<not> is_unix_path target then Inl Panic
        else if target \<in> set destinations then Inl (Err (DuplicateMountTarget target))
        else Inr (target, bs_insert target destinations))"

record service_mount_graph =
  mg_volumes :: service_volume_graph
  mg_configs :: service_config_graph

fun admit_mounts ::
  "service_mount list \<Rightarrow> container_path list
     \<Rightarrow> (service_spec_graph_error fault, service_mount list \<times> container_path list) result" where
  "admit_mounts [] destinations = Inr ([], destinations)"
| "admit_mounts (mount # mounts) destinations =
     rbind (admit_target (mnt_target mount) destinations) (\<lambda>(target, destinations).
     rbind (admit_mounts mounts destinations) (\<lambda>(admitted, destinations).
     Inr (mount\<lparr> mnt_target := target \<rparr> # admitted, destinations)))"

definition config_mount_target :: "config_mount \<Rightarrow> container_path" where
  "config_mount_target mount =
     (case cm_target mount of None \<Rightarrow> ''/'' @ cm_config_name mount | Some target \<Rightarrow> target)"

fun admit_config_mounts ::
  "config_mount list \<Rightarrow> container_path list
     \<Rightarrow> (service_spec_graph_error fault, config_mount list \<times> container_path list) result" where
  "admit_config_mounts [] destinations = Inr ([], destinations)"
| "admit_config_mounts (mount # mounts) destinations =
     rbind (admit_target (config_mount_target mount) destinations) (\<lambda>(target, destinations).
     rbind (admit_config_mounts mounts destinations) (\<lambda>(admitted, destinations).
     Inr (mount\<lparr> cm_target := Some target \<rparr> # admitted, destinations)))"

definition mount_graph_parse ::
  "service_volume_graph \<Rightarrow> service_config_graph
     \<Rightarrow> (service_spec_graph_error fault, service_mount_graph) result" where
  "mount_graph_parse volumes configs =
     rbind (admit_mounts (vg_mounts volumes) []) (\<lambda>(mounts, destinations).
     rbind (admit_config_mounts (cg_mounts configs) destinations) (\<lambda>(config_mounts, _).
     Inr \<lparr> mg_volumes = volumes\<lparr> vg_mounts := mounts \<rparr>,
           mg_configs = configs\<lparr> cg_mounts := config_mounts \<rparr> \<rparr>))"

definition mount_graph_scope ::
  "namespace \<Rightarrow> service_mount_graph \<Rightarrow> (service_volume_graph_error, service_mount_graph) result" where
  "mount_graph_scope namespace graph =
     rbind (volume_graph_scope namespace (mg_volumes graph)) (\<lambda>volumes.
     Inr (graph\<lparr> mg_volumes := volumes \<rparr>))"

text \<open>\<open>TryFrom<ServiceMountGraph> for ResolvedServiceMountGraph\<close>; \<open>to_requested\<close> is the identity.\<close>

definition resolve_mount_graph ::
  "service_mount_graph \<Rightarrow> (service_volume_graph_error, service_mount_graph) result" where
  "resolve_mount_graph graph =
     rbind (resolve_volume_graph (mg_volumes graph)) (\<lambda>volumes.
     Inr (graph\<lparr> mg_volumes := volumes \<rparr>))"

text \<open>The whole admission of the declarations of a wire spec.\<close>

definition admit_declarations ::
  "service_volume list \<Rightarrow> service_mount list \<Rightarrow> config_spec list \<Rightarrow> config_mount list
     \<Rightarrow> (service_spec_graph_error fault, service_mount_graph) result" where
  "admit_declarations volumes mounts configs config_mounts =
     rbind (map_err (\<lambda>e. Err (Volume_Error e)) (volume_graph_parse volumes mounts)) (\<lambda>volume_graph.
     rbind (map_err (\<lambda>e. Err (Config_Error e)) (config_graph_parse configs config_mounts)) (\<lambda>config_graph.
     mount_graph_parse volume_graph config_graph))"

section \<open>Examples\<close>

definition example_mount :: "service_volume_reference \<Rightarrow> container_path \<Rightarrow> service_mount" where
  "example_mount volume target =
     \<lparr> mnt_volume = volume, mnt_target = target, mnt_read_only = False, mnt_no_copy = False,
       mnt_subpath = None \<rparr>"

definition example_volume_graph :: service_volume_graph where
  "example_volume_graph =
     \<lparr> vg_volumes = [\<lparr> sv_reference = ''data'',
         sv_source = \<lparr> vs_source = Ordinary ''data'' \<lparr> vd_name = ''local'', vd_options = [] \<rparr> [],
           vs_scope = None \<rparr> \<rparr>],
       vg_mounts = [example_mount ''data'' ''/data''] \<rparr>"

section \<open>Paths\<close>

lemma split_on_no_sep: "c \<notin> set a \<Longrightarrow> split_on c a = [a]"
  by (induction a) auto

lemma split_on_append: "c \<notin> set a \<Longrightarrow> split_on c (a @ c # b) = a # split_on c b"
  by (induction a) auto

lemma split_on_parts: "p \<in> set (split_on c s) \<Longrightarrow> c \<notin> set p \<and> set p \<subseteq> set s"
proof (induction s arbitrary: p)
  case (Cons x xs)
  show ?case
  proof (cases "x = c")
    case False
    obtain q qs where q: "split_on c xs = q # qs"
      by (cases "split_on c xs") auto
    then have "c \<notin> set q \<and> set q \<subseteq> set xs" "\<And>r. r \<in> set qs \<Longrightarrow> c \<notin> set r \<and> set r \<subseteq> set xs"
      using Cons.IH by auto
    with Cons.prems False q show ?thesis
      by auto
  qed (use Cons in auto)
qed simp

text \<open>A canonical component list: no separator, no empty component, no dots.\<close>

definition clean_parts :: "string list \<Rightarrow> bool" where
  "clean_parts ps = list_all (\<lambda>p. CHR ''/'' \<notin> set p \<and> p \<noteq> [] \<and> p \<noteq> ''.'' \<and> p \<noteq> ''..'') ps"

lemma split_on_join: "ps \<noteq> [] \<Longrightarrow> clean_parts ps \<Longrightarrow> split_on CHR ''/'' (join_path ps) = ps"
  by (induction ps rule: join_path.induct)
    (auto simp: clean_parts_def split_on_no_sep split_on_append)

lemma fold_push_clean: "clean_parts ps \<Longrightarrow> fold push_part ps acc = acc @ ps"
  by (induction ps arbitrary: acc) (auto simp: clean_parts_def push_part_def)

lemma path_parts_canonical:
  "ps \<noteq> [] \<Longrightarrow> clean_parts ps \<Longrightarrow> path_parts (''/'' @ join_path ps) = ps"
  using split_on_join [of ps] fold_push_clean [of ps "[]"]
  by (simp add: path_parts_def push_part_def)

lemma fold_push_is_clean:
  assumes "clean_parts acc" and "\<forall>p \<in> set ps. CHR ''/'' \<notin> set p"
  shows "clean_parts (fold push_part ps acc)"
  using assms
proof (induction ps arbitrary: acc)
  case (Cons p ps)
  have "clean_parts (push_part p acc)"
    using Cons.prems by (auto simp: push_part_def clean_parts_def list_all_iff dest: in_set_butlastD)
  with Cons show ?case
    by simp
qed simp

lemma path_parts_clean: "clean_parts (path_parts raw)"
  unfolding path_parts_def
  by (rule fold_push_is_clean) (auto simp: clean_parts_def dest: split_on_parts)

lemma join_path_bytes: "c \<in> set (join_path ps) \<Longrightarrow> c = CHR ''/'' \<or> (\<exists>p \<in> set ps. c \<in> set p)"
  by (induction ps rule: join_path.induct) auto

lemma join_path_bytes': "p \<in> set ps \<Longrightarrow> set p \<subseteq> set (join_path ps)"
  by (induction ps rule: join_path.induct) auto

lemma fold_push_bytes: "p \<in> set (fold push_part ps acc) \<Longrightarrow> p \<in> set acc \<or> p \<in> set ps"
proof (induction ps arbitrary: acc)
  case (Cons q ps)
  from Cons.IH [of "push_part q acc"] Cons.prems show ?case
    by (auto simp: push_part_def split: if_splits dest: in_set_butlastD)
qed simp

lemma path_parts_bytes: "p \<in> set (path_parts raw) \<Longrightarrow> set p \<subseteq> set raw"
  unfolding path_parts_def using fold_push_bytes split_on_parts by fastforce

lemma admit_target_ok:
  assumes "admit_target raw ds = Inr (t, ds')"
  shows "path_parts raw \<noteq> []" and "t = ''/'' @ join_path (path_parts raw)" and "t \<notin> set ds"
    and "set ds' = insert t (set ds)" and "is_unix_path t"
  using assms by (auto simp: admit_target_def Let_def split: if_splits)

lemma admit_target_no_panic:
  assumes "CHR 0x00 \<notin> set raw"
  shows "admit_target raw ds \<noteq> Inl Panic"
proof -
  have "CHR 0x00 \<notin> set (join_path (path_parts raw))"
    using path_parts_bytes [of _ raw] join_path_bytes [of "CHR 0x00" "path_parts raw"] assms by auto
  then show ?thesis
    by (auto simp: admit_target_def Let_def is_unix_path_def starts_with_iff)
qed

lemma admit_target_again:
  assumes "admit_target raw ds = Inr (t, ds')" and "t \<notin> set es"
  shows "admit_target t es = Inr (t, bs_insert t es)"
  using admit_target_ok [OF assms(1)] assms(2)
    path_parts_canonical [of "path_parts raw"] path_parts_clean [of raw]
  by (simp add: admit_target_def Let_def)

text \<open>Both loops over the mounts are one loop over the destinations.\<close>

fun admit_targets ::
  "string list \<Rightarrow> container_path list
     \<Rightarrow> (service_spec_graph_error fault, container_path list \<times> container_path list) result" where
  "admit_targets [] ds = Inr ([], ds)"
| "admit_targets (raw # raws) ds =
     rbind (admit_target raw ds) (\<lambda>(t, ds).
     rbind (admit_targets raws ds) (\<lambda>(ts, ds). Inr (t # ts, ds)))"

lemma admit_mounts_targets:
  "admit_mounts ms ds = rbind (admit_targets (map mnt_target ms) ds) (\<lambda>(ts, ds).
     Inr (map2 (\<lambda>m t. m\<lparr> mnt_target := t \<rparr>) ms ts, ds))"
  by (induction ms arbitrary: ds) (auto simp: rbind_def split: sum.splits)

lemma admit_config_mounts_targets:
  "admit_config_mounts ms ds = rbind (admit_targets (map config_mount_target ms) ds) (\<lambda>(ts, ds).
     Inr (map2 (\<lambda>m t. m\<lparr> cm_target := Some t \<rparr>) ms ts, ds))"
  by (induction ms arbitrary: ds) (auto simp: rbind_def split: sum.splits)

lemma admit_targets_ok:
  "admit_targets raws ds = Inr (ts, ds') \<Longrightarrow>
     distinct ts \<and> set ts \<inter> set ds = {} \<and> set ds' = set ts \<union> set ds \<and> length ts = length raws
     \<and> (\<forall>t \<in> set ts. \<exists>raw es es'. admit_target raw es = Inr (t, es'))"
proof (induction raws arbitrary: ds ts ds')
  case (Cons raw raws)
  from Cons.prems obtain t ds1 ts1 where
    t: "admit_target raw ds = Inr (t, ds1)" and r: "admit_targets raws ds1 = Inr (ts1, ds')"
    and ts: "ts = t # ts1"
    by (auto simp: result_simps)
  from Cons.IH [OF r] admit_target_ok [OF t] t show ?case
    unfolding ts by auto
qed auto

lemma admit_targets_again:
  assumes "\<forall>t \<in> set ts. \<exists>raw es es'. admit_target raw es = Inr (t, es')"
    and "distinct ts" and "set ts \<inter> set ds = {}"
  shows "\<exists>ds'. admit_targets ts ds = Inr (ts, ds') \<and> set ds' = set ts \<union> set ds"
  using assms
proof (induction ts arbitrary: ds)
  case (Cons t ts)
  then obtain raw es es' where "admit_target raw es = Inr (t, es')"
    by auto
  then have t: "admit_target t ds = Inr (t, bs_insert t ds)"
    using Cons.prems(3) by (auto intro: admit_target_again)
  have "\<exists>ds'. admit_targets ts (bs_insert t ds) = Inr (ts, ds') \<and> set ds' = set ts \<union> set (bs_insert t ds)"
    by (rule Cons.IH) (use Cons.prems in auto)
  with t show ?case
    by auto
qed simp

lemma admit_targets_no_panic:
  "\<forall>raw \<in> set raws. CHR 0x00 \<notin> set raw \<Longrightarrow> admit_targets raws ds \<noteq> Inl Panic"
  by (induction raws arbitrary: ds) (auto simp: result_simps admit_target_no_panic)

lemma mount_graph_parse_targets:
  assumes "mount_graph_parse vg cg = Inr g"
  obtains ts us ds ds' where
    "admit_targets (map mnt_target (vg_mounts vg)) [] = Inr (ts, ds)"
    "admit_targets (map config_mount_target (cg_mounts cg)) ds = Inr (us, ds')"
    "mg_volumes g = vg\<lparr> vg_mounts := map2 (\<lambda>m t. m\<lparr> mnt_target := t \<rparr>) (vg_mounts vg) ts \<rparr>"
    "mg_configs g = cg\<lparr> cg_mounts := map2 (\<lambda>m t. m\<lparr> cm_target := Some t \<rparr>) (cg_mounts cg) us \<rparr>"
  using assms
  by (auto simp: mount_graph_parse_def admit_mounts_targets admit_config_mounts_targets result_simps)

lemma map2_mount_update:
  "length xs = length ts \<Longrightarrow> map mnt_target (map2 (\<lambda>m t. m\<lparr> mnt_target := t \<rparr>) xs ts) = ts"
  by (induction xs ts rule: list_induct2) simp_all

lemma map2_config_update:
  "length xs = length ts
     \<Longrightarrow> map config_mount_target (map2 (\<lambda>m t. m\<lparr> cm_target := Some t \<rparr>) xs ts) = ts"
  by (induction xs ts rule: list_induct2) (simp_all add: config_mount_target_def)

lemma map2_mount_update_again:
  "map2 (\<lambda>m t. m\<lparr> mnt_target := t \<rparr>) (map2 (\<lambda>m t. m\<lparr> mnt_target := t \<rparr>) xs ts) ts
     = map2 (\<lambda>m t. m\<lparr> mnt_target := t \<rparr>) xs ts"
  by (induction xs ts rule: list_induct2') simp_all

lemma map2_config_update_again:
  "map2 (\<lambda>m t. m\<lparr> cm_target := Some t \<rparr>) (map2 (\<lambda>m t. m\<lparr> cm_target := Some t \<rparr>) xs ts) ts
     = map2 (\<lambda>m t. m\<lparr> cm_target := Some t \<rparr>) xs ts"
  by (induction xs ts rule: list_induct2') simp_all

text \<open>Claim C31. Admitted mounts have unique canonical destinations: across Volumes and Configs no two
  mounts share a destination; every destination is absolute, is not the root and has no empty,
  \<open>.\<close> or \<open>..\<close> component; and admitting an admitted graph again changes nothing.\<close>

theorem mount_graph_canonical:
  assumes "mount_graph_parse vg cg = Inr g"
  shows "distinct (map mnt_target (vg_mounts (mg_volumes g))
        @ map config_mount_target (cg_mounts (mg_configs g)))
    \<and> (\<forall>t \<in> set (map mnt_target (vg_mounts (mg_volumes g))
        @ map config_mount_target (cg_mounts (mg_configs g))).
        \<exists>parts. t = ''/'' @ join_path parts \<and> parts \<noteq> [] \<and> clean_parts parts)
    \<and> mount_graph_parse (mg_volumes g) (mg_configs g) = Inr g"
proof -
  from assms obtain ts us ds ds' where
    ts: "admit_targets (map mnt_target (vg_mounts vg)) [] = Inr (ts, ds)" and
    us: "admit_targets (map config_mount_target (cg_mounts cg)) ds = Inr (us, ds')" and
    vols: "mg_volumes g = vg\<lparr> vg_mounts := map2 (\<lambda>m t. m\<lparr> mnt_target := t \<rparr>) (vg_mounts vg) ts \<rparr>" and
    cfgs: "mg_configs g = cg\<lparr> cg_mounts := map2 (\<lambda>m t. m\<lparr> cm_target := Some t \<rparr>) (cg_mounts cg) us \<rparr>"
    by (rule mount_graph_parse_targets)
  note t = admit_targets_ok [OF ts] and u = admit_targets_ok [OF us]
  have mt: "map mnt_target (vg_mounts (mg_volumes g)) = ts"
    and mu: "map config_mount_target (cg_mounts (mg_configs g)) = us"
    using t u by (simp_all add: vols cfgs map2_mount_update map2_config_update del: map_map)
  obtain es where es: "admit_targets ts [] = Inr (ts, es)" "set es = set ts"
    using admit_targets_again [of ts "[]"] t by auto
  obtain es' where es': "admit_targets us es = Inr (us, es')"
    using admit_targets_again [of us es] t u es(2) by auto
  have "mount_graph_parse (mg_volumes g) (mg_configs g) = Inr g"
    unfolding mount_graph_parse_def admit_mounts_targets admit_config_mounts_targets mt mu
    using vols cfgs
    by (simp add: es es' map2_mount_update_again map2_config_update_again service_mount_graph.equality)
  moreover have "distinct (ts @ us)"
    using t u by auto
  moreover have "\<exists>parts. x = ''/'' @ join_path parts \<and> parts \<noteq> [] \<and> clean_parts parts"
    if "x \<in> set (ts @ us)" for x
  proof -
    have "\<exists>raw es es'. admit_target raw es = Inr (x, es')"
      using that t u by auto
    then show ?thesis
      using admit_target_ok(1,2) path_parts_clean by metis
  qed
  ultimately show ?thesis
    unfolding mt mu by blast
qed

theorem mount_graph_canonical_witness:
  "let vg = \<lparr> vg_volumes = [], vg_mounts = [example_mount ''data'' ''/srv/../var//data/.''] \<rparr>;
       g = \<lparr> mg_volumes = \<lparr> vg_volumes = [], vg_mounts = [example_mount ''data'' ''/var/data''] \<rparr>,
             mg_configs = \<lparr> cg_configs = [], cg_mounts = [] \<rparr> \<rparr>
   in mount_graph_parse vg \<lparr> cg_configs = [], cg_mounts = [] \<rparr> = Inr g
      \<and> mount_graph_parse (mg_volumes g) (mg_configs g) = Inr g"
proof -
  let ?vg = "\<lparr> vg_volumes = [], vg_mounts = [example_mount ''data'' ''/srv/../var//data/.''] \<rparr>"
  let ?g = "\<lparr> mg_volumes = \<lparr> vg_volumes = [], vg_mounts = [example_mount ''data'' ''/var/data''] \<rparr>,
             mg_configs = \<lparr> cg_configs = [], cg_mounts = [] \<rparr> \<rparr>"
  have p: "mount_graph_parse ?vg \<lparr> cg_configs = [], cg_mounts = [] \<rparr> = Inr ?g"
    by code_simp
  with mount_graph_canonical [OF p] show ?thesis
    by (simp only: Let_def simp_thms)
qed

text \<open>Mount admission panics only on a null character: when no destination and no
  name of a Config mounted without a destination contains one, admission returns a graph
  or an error.\<close>

theorem mount_graph_no_panic:
  assumes "\<forall>m \<in> set (vg_mounts vg). CHR 0x00 \<notin> set (mnt_target m)"
    and "\<forall>m \<in> set (cg_mounts cg). CHR 0x00 \<notin> set (config_mount_target m)"
  shows "mount_graph_parse vg cg \<noteq> Inl Panic"
  using admit_targets_no_panic [of "map mnt_target (vg_mounts vg)"]
    admit_targets_no_panic [of "map config_mount_target (cg_mounts cg)"] assms
  by (auto simp: mount_graph_parse_def admit_mounts_targets admit_config_mounts_targets result_simps)

theorem mount_graph_no_panic_witness:
  "mount_graph_parse \<lparr> vg_volumes = [], vg_mounts = [example_mount ''data'' ''/..''] \<rparr>
     \<lparr> cg_configs = [], cg_mounts = [] \<rparr> \<noteq> Inl Panic"
  by (rule mount_graph_no_panic) (simp_all add: example_mount_def)


section \<open>What a Volume graph guarantees\<close>

definition compatible_aliases :: "service_volume list \<Rightarrow> bool" where
  "compatible_aliases vs = (\<forall>v \<in> set vs. \<forall>w \<in> set vs. \<forall>n.
     docker_volume_name (sv_source v) = Some n \<longrightarrow> docker_volume_name (sv_source w) = Some n
       \<longrightarrow> sv_source v = sv_source w)"

definition admitted_state ::
  "service_volume list \<Rightarrow> service_volume_reference list \<times> (docker_volume_name, volume_source) btree \<Rightarrow> bool" where
  "admitted_state vs st \<longleftrightarrow> set (fst st) = sv_reference ` set vs
     \<and> (\<forall>n s. bt_get (snd st) n = Some s
          \<longleftrightarrow> (\<exists>v \<in> set vs. docker_volume_name (sv_source v) = Some n \<and> sv_source v = s))"

lemma admit_volume_ok:
  "admit_volume v (refs, dv) = Inr (refs', dv') \<longleftrightarrow>
     sv_reference v \<notin> set refs \<and> refs' = bs_insert (sv_reference v) refs
     \<and> (case docker_volume_name (sv_source v) of
          None \<Rightarrow> dv' = dv
        | Some n \<Rightarrow> bt_get dv n \<in> {None, Some (sv_source v)} \<and> dv' = bt_insert n (sv_source v) dv)"
  by (auto simp: admit_volume_def split: option.splits)

lemma admit_volumes_sound:
  "rfold admit_volume vs ([], []) = Inr st
     \<Longrightarrow> distinct (map sv_reference vs) \<and> compatible_aliases vs \<and> admitted_state vs st"
proof (induction vs arbitrary: st rule: rev_induct)
  case (snoc v vs)
  obtain refs' dv' where st: "st = (refs', dv')"
    by (cases st)
  from snoc.prems obtain refs dv where *: "rfold admit_volume vs ([], []) = Inr (refs, dv)"
      "admit_volume v (refs, dv) = Inr (refs', dv')"
    by (auto simp: rfold_append result_simps st)
  have IH: "distinct (map sv_reference vs)" "compatible_aliases vs" "set refs = sv_reference ` set vs"
    and dv: "\<And>n s. bt_get dv n = Some s
       \<longleftrightarrow> (\<exists>v \<in> set vs. docker_volume_name (sv_source v) = Some n \<and> sv_source v = s)"
    using snoc.IH [OF *(1)] by (auto simp: admitted_state_def)
  have same: "sv_source w = sv_source v"
    if "w \<in> set vs" "docker_volume_name (sv_source w) = Some n" "docker_volume_name (sv_source v) = Some n"
    for w n
  proof -
    have "bt_get dv n = Some (sv_source w)"
      using that dv by blast
    with *(2) that(3) show ?thesis
      by (simp add: admit_volume_ok)
  qed
  have "compatible_aliases (vs @ [v])"
    unfolding compatible_aliases_def
  proof (intro ballI allI impI)
    fix a b n
    assume ab: "a \<in> set (vs @ [v])" "b \<in> set (vs @ [v])" "docker_volume_name (sv_source a) = Some n"
      "docker_volume_name (sv_source b) = Some n"
    consider "a \<in> set vs" "b \<in> set vs" | "a \<in> set vs" "b = v" | "a = v" "b \<in> set vs" | "a = v" "b = v"
      using ab(1,2) by auto
    then show "sv_source a = sv_source b"
    proof cases
      case 1
      with ab IH(2) show ?thesis
        unfolding compatible_aliases_def by blast
    next
      case 2
      with ab same [of a n] show ?thesis
        by simp
    next
      case 3
      with ab same [of b n] show ?thesis
        by simp
    qed simp
  qed
  moreover have "bt_get dv' n = Some s
      \<longleftrightarrow> (\<exists>w \<in> set (vs @ [v]). docker_volume_name (sv_source w) = Some n \<and> sv_source w = s)" for n s
  proof (cases "docker_volume_name (sv_source v) = Some n")
    case True
    then have "bt_get dv' n = Some (sv_source v)"
      using *(2) by (simp add: admit_volume_ok map_simps)
    with True same [of _ n] show ?thesis
      by auto
  next
    case False
    then have "bt_get dv' n = bt_get dv n"
      using *(2) by (auto simp: admit_volume_ok map_simps split: option.splits)
    with False dv show ?thesis
      by auto
  qed
  then have "admitted_state (vs @ [v]) st"
    using *(2) IH(3) by (auto simp: admitted_state_def st admit_volume_ok)
  ultimately show ?case
    using IH(1,3) *(2) by (auto simp: admit_volume_ok)
qed (simp add: compatible_aliases_def admitted_state_def)

lemma admit_volumes_complete:
  "distinct (map sv_reference vs) \<Longrightarrow> compatible_aliases vs
     \<Longrightarrow> \<exists>st. rfold admit_volume vs ([], []) = Inr st \<and> admitted_state vs st"
proof (induction vs rule: rev_induct)
  case (snoc v vs)
  then obtain st where st: "rfold admit_volume vs ([], []) = Inr st" "admitted_state vs st"
    by (auto simp: compatible_aliases_def)
  have "\<exists>st'. admit_volume v st = Inr st'"
    using snoc.prems st(2)
    by (cases st) (auto simp: admit_volume_def admitted_state_def compatible_aliases_def split: option.split)
  then obtain st' where "rfold admit_volume (vs @ [v]) ([], []) = Inr st'"
    using st(1) by (auto simp: rfold_append)
  with admit_volumes_sound [OF this] show ?case
    by blast
qed (simp add: admitted_state_def)

lemma volume_graph_parse_iff:
  "volume_graph_parse vs ms = Inr g \<longleftrightarrow>
     g = \<lparr> vg_volumes = vs, vg_mounts = ms \<rparr> \<and> distinct (map sv_reference vs) \<and> compatible_aliases vs
     \<and> mnt_volume ` set ms \<subseteq> sv_reference ` set vs"
proof
  assume "volume_graph_parse vs ms = Inr g"
  then obtain refs dv where "rfold admit_volume vs ([], []) = Inr (refs, dv)"
    "\<forall>m \<in> set ms. mnt_volume m \<in> set refs" "g = \<lparr> vg_volumes = vs, vg_mounts = ms \<rparr>"
    by (auto simp: volume_graph_parse_def result_simps find_None_iff split: option.splits)
  with admit_volumes_sound [OF this(1)] show "g = \<lparr> vg_volumes = vs, vg_mounts = ms \<rparr>
      \<and> distinct (map sv_reference vs) \<and> compatible_aliases vs
      \<and> mnt_volume ` set ms \<subseteq> sv_reference ` set vs"
    by (auto simp: admitted_state_def)
next
  assume *: "g = \<lparr> vg_volumes = vs, vg_mounts = ms \<rparr> \<and> distinct (map sv_reference vs)
    \<and> compatible_aliases vs \<and> mnt_volume ` set ms \<subseteq> sv_reference ` set vs"
  then obtain st where "rfold admit_volume vs ([], []) = Inr st" "admitted_state vs st"
    using admit_volumes_complete by blast
  with * have "List.find (\<lambda>m. mnt_volume m \<notin> set (fst st)) ms = None"
    by (auto simp: find_None_iff admitted_state_def)
  with * \<open>rfold admit_volume vs ([], []) = Inr st\<close> show "volume_graph_parse vs ms = Inr g"
    by (simp add: volume_graph_parse_def case_prod_beta)
qed

definition volume_graph_wf :: "service_volume_graph \<Rightarrow> bool" where
  "volume_graph_wf g \<longleftrightarrow> volume_graph_parse (vg_volumes g) (vg_mounts g) = Inr g"

lemma volume_for_total:
  assumes "volume_graph_wf g" and "m \<in> set (vg_mounts g)"
  shows "\<exists>v. volume_for g m = Some v"
proof -
  have "mnt_volume m \<in> sv_reference ` set (vg_volumes g)"
    using assms by (auto simp: volume_graph_wf_def volume_graph_parse_iff)
  then have "List.find (\<lambda>v. sv_reference v = mnt_volume m) (vg_volumes g) \<noteq> None"
    by (auto simp: find_None_iff)
  then show ?thesis
    by (auto simp: volume_for_def)
qed

text \<open>Scoping.\<close>

lemma scope_source_resolved: "is_resolved (source_scope_to_namespace ns s)"
  by (auto simp: is_resolved_def source_scope_to_namespace_def is_managed_source_def
      split: raw_volume_source.splits)

lemma scope_source_idem:
  "source_scope_to_namespace ns' (source_scope_to_namespace ns s) = source_scope_to_namespace ns s"
  by (auto simp: source_scope_to_namespace_def split: raw_volume_source.splits)

lemma resolved_scope_id: "is_resolved s \<Longrightarrow> source_scope_to_namespace ns s = s"
  by (auto simp: is_resolved_def source_scope_to_namespace_def is_managed_source_def
      split: raw_volume_source.splits)

lemma resolve_volume_graph_ok:
  "resolve_volume_graph g = Inr g' \<longleftrightarrow> g' = g \<and> (\<forall>v \<in> set (vg_volumes g). is_resolved (sv_source v))"
  by (auto simp: resolve_volume_graph_def find_None_iff dest!: find_SomeD split: option.splits)

lemma volume_graph_scope_resolved:
  assumes "volume_graph_scope ns g = Inr g'" and "v \<in> set (vg_volumes g')"
  shows "is_resolved (sv_source v)"
  using assms by (auto simp: volume_graph_scope_def volume_graph_parse_iff scope_source_resolved)

lemma resolved_graph_scope_id:
  assumes "volume_graph_wf g" and "\<forall>v \<in> set (vg_volumes g). is_resolved (sv_source v)"
  shows "volume_graph_scope ns g = Inr g"
proof -
  have "map (\<lambda>v. v\<lparr> sv_source := source_scope_to_namespace ns (sv_source v) \<rparr>) (vg_volumes g) = vg_volumes g"
    using assms(2) by (intro map_idI) (simp add: resolved_scope_id)
  with assms(1) show ?thesis
    by (simp add: volume_graph_scope_def volume_graph_wf_def)
qed

lemma creation_request_owner:
  assumes "to_create_volume_request s = Some req"
  shows "(\<exists>scope. vs_scope s = Some scope
      \<and> bt_get (cv_labels req) NAMESPACE_LABEL = Some (scope_namespace scope))
    \<and> bt_get (cv_labels req) MANAGED_LABEL = Some []"
proof -
  from assms obtain scope where scope: "vs_scope s = Some scope" and managed: "is_managed_source (vs_source s)"
    by (auto simp: to_create_volume_request_def is_resolved_def is_managed_source_def
        split: raw_volume_source.splits if_splits)
  have "cv_labels req = creation_labels s"
    using assms by (auto simp: to_create_volume_request_def split: raw_volume_source.splits if_splits)
  with scope managed show ?thesis
    by (simp add: creation_labels_def map_simps NAMESPACE_LABEL_def MANAGED_LABEL_def)
qed

text \<open>Claim C33. Scoping a graph to a Namespace resolves it once and for all: the scoped graph
  passes the check of resolved graphs, scoping it again, even to another Namespace, changes nothing,
  and every creation request it gives carries the ownership labels of the recorded scope.\<close>

theorem volume_graph_scope_stable:
  assumes "volume_graph_scope ns g = Inr g'"
  shows "resolve_volume_graph g' = Inr g' \<and> volume_graph_scope ns' g' = Inr g' \<and> volume_graph_wf g'
    \<and> (\<forall>v \<in> set (vg_volumes g'). \<forall>req. to_create_volume_request (sv_source v) = Some req \<longrightarrow>
         (\<exists>scope. vs_scope (sv_source v) = Some scope
            \<and> bt_get (cv_labels req) NAMESPACE_LABEL = Some (scope_namespace scope))
         \<and> bt_get (cv_labels req) MANAGED_LABEL = Some [])"
proof -
  have "volume_graph_wf g'"
    using assms by (auto simp: volume_graph_scope_def volume_graph_wf_def volume_graph_parse_iff)
  moreover have "\<forall>v \<in> set (vg_volumes g'). is_resolved (sv_source v)"
    using volume_graph_scope_resolved [OF assms] by blast
  ultimately show ?thesis
    using creation_request_owner by (simp add: resolve_volume_graph_ok resolved_graph_scope_id)
qed

theorem volume_graph_scope_stable_witness:
  "\<exists>g. volume_graph_scope ''prod'' example_volume_graph = Inr g \<and> volume_graph_scope ''test'' g = Inr g"
proof -
  let ?g = "\<lparr> vg_volumes = [\<lparr> sv_reference = ''data'', sv_source =
     \<lparr> vs_source = Ordinary ''prod_data'' \<lparr> vd_name = ''local'', vd_options = [] \<rparr> [],
       vs_scope = Some \<lparr> scope_namespace = ''prod'', scope_logical_name = ''data'' \<rparr> \<rparr> \<rparr>],
     vg_mounts = [example_mount ''data'' ''/data''] \<rparr>"
  have s: "volume_graph_scope ''prod'' example_volume_graph = Inr ?g"
    by code_simp
  with volume_graph_scope_stable [OF s, of "''test''"] show ?thesis
    by blast
qed

end
