(* ===== verification/Service_Spec.thy ===== *)
theory Service_Spec
  imports Volume_Graph
begin

text \<open>
  Service specs: \<open>domain/spec.rs\<close>, \<open>domain/spec/comparison.rs\<close> and
  \<open>domain/spec/serving_shape.rs\<close> under \<open>ployz-core/src\<close>.

  The code of other packages is a parameter, the record \<open>ext\<close>: the JSON text of an
  item and the JSON bytes of the serving fields (package \<open>serde_json\<close>), the
  prefix test and the network address of an \<open>IpNet\<close> (package \<open>ipnet\<close>), and
  the identity drawn for a new Service (package \<open>uuid\<close>), one per name.
\<close>

section \<open>Ports\<close>

datatype http_protocol = Http_Plain | Http_Tls
datatype transport_protocol = Tcp | Udp

text \<open>An address and a prefix length.\<close>

datatype ip_net = IpNet ip_addr nat

datatype host_bind = Bind_All | Bind_Address ip_addr | Bind_Prefix ip_net

datatype port_publication =
    Ingress_Port ingress_host u16 u16 http_protocol
  | Host_Port host_bind u16 u16 transport_protocol

section \<open>Health checks and hooks\<close>

record configured_healthcheck =
  hc_test :: "string list"
  hc_interval_millis :: "u64 option"
  hc_timeout_millis :: "u64 option"
  hc_start_period_millis :: "u64 option"
  hc_start_interval_millis :: "u64 option"
  hc_retries :: "u32 option"

record http_healthcheck =
  hh_path :: string
  hh_port :: u16
  hh_timeout_seconds :: u16

datatype healthcheck_spec =
    Healthcheck_Disabled
  | Healthcheck_Configured configured_healthcheck
  | Healthcheck_Http http_healthcheck

definition as_configured :: "healthcheck_spec \<Rightarrow> configured_healthcheck option" where
  "as_configured check =
     (case check of
        Healthcheck_Configured configured \<Rightarrow> Some configured
      | Healthcheck_Disabled \<Rightarrow> None
      | Healthcheck_Http _ \<Rightarrow> None)"

definition HEALTHCHECK_DISABLE_SENTINEL :: string where
  "HEALTHCHECK_DISABLE_SENTINEL = ''NONE''"

fun join_words :: "string list \<Rightarrow> string" where
  "join_words [] = []"
| "join_words [w] = w"
| "join_words (w # ws) = w @ '' '' @ join_words ws"

definition healthcheck_command_parse :: "string list \<Rightarrow> (value_error, string list) result" where
  "healthcheck_command_parse test =
     (if test = [] \<or> hd test = HEALTHCHECK_DISABLE_SENTINEL
      then Inl (value_error_new ''healthcheck command'' (join_words test)
        ''a non-empty command that does not begin with NONE'')
      else Inr test)"

definition http_healthcheck_path :: "string \<Rightarrow> bool" where
  "http_healthcheck_path path =
     (starts_with ''/'' path \<and> length path \<le> 2000
      \<and> \<not> list_ex (\<lambda>c. c < CHR '' '' \<or> c = CHR 0x7F) path)"

definition http_healthcheck_timeout :: "u16 \<Rightarrow> bool" where
  "http_healthcheck_timeout seconds = (1 \<le> seconds \<and> seconds \<le> 300)"

record pre_deploy_hook =
  hook_command :: "string list"
  hook_environment :: "(string, string) btree"
  hook_privileged :: "bool option"
  hook_timeout_millis :: "u64 option"
  hook_user :: "string option"

definition pre_deploy_command_parse :: "string list \<Rightarrow> (value_error, string list) result" where
  "pre_deploy_command_parse command =
     (if command = [] then Inl (value_error_new ''pre-deploy command'' [] ''a non-empty command'')
      else Inr command)"

section \<open>Containers\<close>

record log_driver =
  ld_name :: string
  ld_options :: "(string, string) btree"

record device_mapping =
  dm_machine_path :: machine_path
  dm_container_path :: container_path
  dm_cgroup_permissions :: string

record device_reservation =
  dr_driver :: "string option"
  dr_count :: "int option"
  dr_device_ids :: "string list"
  dr_capabilities :: "string list list"
  dr_options :: "(string, string) btree"

record ulimit =
  ul_soft :: int
  ul_hard :: int

record container_resources =
  cpu_nanos :: "int option"
  memory_bytes :: "int option"
  memory_reservation_bytes :: "int option"
  shared_memory_bytes :: "int option"
  devices :: "device_mapping list"
  device_reservations :: "device_reservation list"
  ulimits :: "(string, ulimit) btree"

datatype pull_policy = Pull_Always | Pull_Missing | Pull_Never
datatype update_order = StartFirst | StopFirst
datatype spec_change = UpToDate | NeedsUpdate | NeedsRecreate
datatype restart_policy = Restart_No | Restart_Always | UnlessStopped | OnFailure "int option"
datatype pid_mode = Pid_Host | Pid_Container string

record update_config =
  uc_order :: "update_order option"
  uc_monitor_millis :: "u64 option"

record resolved_update_config =
  ru_order :: update_order
  ru_monitor_millis :: "u64 option"

record service_container_spec =
  container_image :: string
  container_command :: "string list"
  entrypoint :: "string list"
  container_environment :: "(string, string) btree"
  container_labels :: "(string, string) btree"
  container_hostname :: "string option"
  extra_hosts :: "string list"
  cap_add :: "string list"
  cap_drop :: "string list"
  healthcheck :: "healthcheck_spec option"
  pull_policy :: pull_policy
  container_init :: "bool option"
  container_user :: "string option"
  working_directory :: "container_path option"
  tty :: bool
  open_stdin :: bool
  privileged :: bool
  pid_mode :: "pid_mode option"
  log_driver :: "log_driver option"
  container_resources :: container_resources
  stop_timeout_secs :: "int option"
  sysctls :: "(string, string) btree"
  restart :: restart_policy

section \<open>Services\<close>

text \<open>The number of replicas is a \<open>NonZeroU32\<close>.\<close>

datatype service_mode = Replicated nat | Global

definition same_service_mode_kind :: "service_mode \<Rightarrow> service_mode \<Rightarrow> bool" where
  "same_service_mode_kind left right =
     (case (left, right) of
        (Replicated _, Replicated _) \<Rightarrow> True
      | (Global, Global) \<Rightarrow> True
      | _ \<Rightarrow> False)"

record requested_service_spec =
  rq_name :: service_name
  rq_mode :: service_mode
  rq_container :: service_container_spec
  rq_placement :: placement
  rq_ports :: "port_publication list"
  rq_mount_graph :: service_mount_graph
  rq_pre_deploy :: "pre_deploy_hook option"
  rq_update :: update_config

record resolved_service_spec =
  rs_service_id :: service_id
  rs_name :: service_name
  rs_mode :: service_mode
  rs_container :: service_container_spec
  rs_placement :: placement
  rs_ports :: "port_publication list"
  rs_mount_graph :: service_mount_graph
  rs_pre_deploy :: "pre_deploy_hook option"
  rs_update :: resolved_update_config

abbreviation rq_volume_graph :: "requested_service_spec \<Rightarrow> service_volume_graph" where
  "rq_volume_graph spec \<equiv> mg_volumes (rq_mount_graph spec)"

abbreviation rs_volume_graph :: "resolved_service_spec \<Rightarrow> service_volume_graph" where
  "rs_volume_graph spec \<equiv> mg_volumes (rs_mount_graph spec)"

definition set_volume_graph ::
  "requested_service_spec \<Rightarrow> service_volume_graph
     \<Rightarrow> (service_spec_graph_error fault, requested_service_spec) result" where
  "set_volume_graph spec volumes =
     rbind (mount_graph_parse volumes (mg_configs (rq_mount_graph spec))) (\<lambda>graph.
     Inr (spec\<lparr> rq_mount_graph := graph \<rparr>))"

definition to_resolved ::
  "requested_service_spec \<Rightarrow> service_id \<Rightarrow> resolved_update_config
     \<Rightarrow> (service_volume_graph_error, resolved_service_spec) result" where
  "to_resolved spec service_id update =
     rbind (resolve_mount_graph (rq_mount_graph spec)) (\<lambda>graph.
     Inr \<lparr> rs_service_id = service_id, rs_name = rq_name spec, rs_mode = rq_mode spec,
           rs_container = rq_container spec, rs_placement = rq_placement spec,
           rs_ports = rq_ports spec, rs_mount_graph = graph, rs_pre_deploy = rq_pre_deploy spec,
           rs_update = update \<rparr>)"

definition to_requested :: "resolved_service_spec \<Rightarrow> requested_service_spec" where
  "to_requested spec =
     \<lparr> rq_name = rs_name spec, rq_mode = rs_mode spec, rq_container = rs_container spec,
       rq_placement = rs_placement spec, rq_ports = rs_ports spec,
       rq_mount_graph = rs_mount_graph spec, rq_pre_deploy = rs_pre_deploy spec,
       rq_update = \<lparr> uc_order = Some (ru_order (rs_update spec)),
         uc_monitor_millis = ru_monitor_millis (rs_update spec) \<rparr> \<rparr>"

text \<open>Storage requirements of one Service.\<close>

record service_storage_spec =
  ss_placement :: placement
  ss_volumes :: service_volume_graph

definition storage_spec_of_requested ::
  "requested_service_spec \<Rightarrow> (service_volume_graph_error, service_storage_spec) result" where
  "storage_spec_of_requested spec =
     rbind (resolve_volume_graph (rq_volume_graph spec)) (\<lambda>graph.
     Inr \<lparr> ss_placement = rq_placement spec, ss_volumes = graph \<rparr>)"

definition storage_spec_of_resolved :: "resolved_service_spec \<Rightarrow> service_storage_spec" where
  "storage_spec_of_resolved spec =
     \<lparr> ss_placement = rs_placement spec, ss_volumes = rs_volume_graph spec \<rparr>"

section \<open>Serving shape\<close>

text \<open>The items of the lists that the shape sorts, so that their order does not matter.\<close>

datatype json_item =
    Json_String string
  | Json_Port port_publication
  | Json_Volume service_volume_reference raw_volume_source "(string, string) btree"
  | Json_Mount service_mount
  | Json_Config config_spec
  | Json_Config_Mount config_mount

text \<open>The JSON object of the fields whose change requires a new container.\<close>

record serving_fields =
  sf_name :: service_name
  sf_mode :: string
  sf_image :: string
  sf_command :: "string list"
  sf_entrypoint :: "string list"
  sf_environment :: "(string, string) btree"
  sf_labels :: "(string, string) btree"
  sf_hostname :: "string option"
  sf_extra_hosts :: "string list"
  sf_cap_add :: "json_item list"
  sf_cap_drop :: "json_item list"
  sf_healthcheck :: "healthcheck_spec option"
  sf_init :: "bool option"
  sf_user :: "string option"
  sf_working_directory :: "container_path option"
  sf_tty :: bool
  sf_open_stdin :: bool
  sf_privileged :: bool
  sf_pid_mode :: "pid_mode option"
  sf_log_driver :: "log_driver option"
  sf_stop_timeout_secs :: "int option"
  sf_sysctls :: "(string, string) btree"
  sf_restart :: restart_policy
  sf_placement :: placement
  sf_ports :: "json_item list"
  sf_volumes :: "json_item list"
  sf_mounts :: "json_item list"
  sf_configs :: "json_item list"
  sf_config_mounts :: "json_item list"

record ext =
  json_text :: "json_item \<Rightarrow> string"
  json_bytes :: "serving_fields \<Rightarrow> u8 list"
  ipnet_contains :: "ip_net \<Rightarrow> ip_addr \<Rightarrow> bool"
  ipnet_network :: "ip_net \<Rightarrow> ip_addr"
  random_service_id :: "service_name \<Rightarrow> service_id"

definition sorted_json :: "ext \<Rightarrow> json_item list \<Rightarrow> json_item list" where
  "sorted_json x items = sort_key (json_text x) items"

definition service_mode_kind :: "service_mode \<Rightarrow> string" where
  "service_mode_kind mode = (case mode of Replicated _ \<Rightarrow> ''replicated'' | Global \<Rightarrow> ''global'')"

definition recreate_fields ::
  "ext \<Rightarrow> service_name \<Rightarrow> service_mode \<Rightarrow> service_container_spec \<Rightarrow> placement
     \<Rightarrow> port_publication list \<Rightarrow> service_mount_graph \<Rightarrow> serving_fields" where
  "recreate_fields x name mode container placement ports graph =
     \<lparr> sf_name = name, sf_mode = service_mode_kind mode, sf_image = container_image container,
       sf_command = container_command container, sf_entrypoint = entrypoint container,
       sf_environment = container_environment container, sf_labels = container_labels container,
       sf_hostname = container_hostname container, sf_extra_hosts = extra_hosts container,
       sf_cap_add = sorted_json x (map Json_String (cap_add container)),
       sf_cap_drop = sorted_json x (map Json_String (cap_drop container)),
       sf_healthcheck = healthcheck container, sf_init = container_init container,
       sf_user = container_user container, sf_working_directory = working_directory container,
       sf_tty = tty container, sf_open_stdin = open_stdin container,
       sf_privileged = privileged container, sf_pid_mode = pid_mode container,
       sf_log_driver = log_driver container, sf_stop_timeout_secs = stop_timeout_secs container,
       sf_sysctls = sysctls container, sf_restart = restart container,
       sf_placement = placement,
       sf_ports = sorted_json x (map Json_Port ports),
       sf_volumes = sorted_json x (map (\<lambda>volume. Json_Volume (sv_reference volume)
           (vs_source (sv_source volume)) (creation_labels (sv_source volume)))
         (vg_volumes (mg_volumes graph))),
       sf_mounts = sorted_json x (map Json_Mount (vg_mounts (mg_volumes graph))),
       sf_configs = sorted_json x (map Json_Config (cg_configs (mg_configs graph))),
       sf_config_mounts = sorted_json x (map Json_Config_Mount (cg_mounts (mg_configs graph))) \<rparr>"

definition fields_of_resolved :: "ext \<Rightarrow> resolved_service_spec \<Rightarrow> serving_fields" where
  "fields_of_resolved x spec =
     recreate_fields x (rs_name spec) (rs_mode spec) (rs_container spec) (rs_placement spec)
       (rs_ports spec) (rs_mount_graph spec)"

definition fields_of_requested :: "ext \<Rightarrow> requested_service_spec \<Rightarrow> serving_fields" where
  "fields_of_requested x spec =
     recreate_fields x (rq_name spec) (rq_mode spec) (rq_container spec) (rq_placement spec)
       (rq_ports spec) (rq_mount_graph spec)"

unbundle bit_operations_syntax

definition fnv1a64 :: "u8 list \<Rightarrow> u64" where
  "fnv1a64 bytes = fold (\<lambda>byte hash. (hash XOR ucast byte) * 0x100000001b3) bytes 0xcbf29ce484222325"

type_synonym serving_shape = u64

definition shape_from_fields :: "ext \<Rightarrow> serving_fields \<Rightarrow> serving_shape" where
  "shape_from_fields x payload = fnv1a64 (json_bytes x payload)"

definition shape_of_resolved :: "ext \<Rightarrow> resolved_service_spec \<Rightarrow> serving_shape" where
  "shape_of_resolved x spec = shape_from_fields x (fields_of_resolved x spec)"

definition shape_of_requested :: "ext \<Rightarrow> requested_service_spec \<Rightarrow> serving_shape" where
  "shape_of_requested x spec = shape_from_fields x (fields_of_requested x spec)"

section \<open>Comparison\<close>

definition resource_change :: "container_resources \<Rightarrow> container_resources \<Rightarrow> spec_change" where
  "resource_change current requested =
     (if devices current \<noteq> devices requested
        \<or> device_reservations current \<noteq> device_reservations requested
        \<or> ulimits current \<noteq> ulimits requested
      then NeedsRecreate
      else if cpu_nanos current \<noteq> cpu_nanos requested
        \<or> memory_bytes current \<noteq> memory_bytes requested
        \<or> memory_reservation_bytes current \<noteq> memory_reservation_bytes requested
        \<or> shared_memory_bytes current \<noteq> shared_memory_bytes requested
      then NeedsUpdate
      else UpToDate)"

definition compare_specs :: "ext \<Rightarrow> resolved_service_spec \<Rightarrow> requested_service_spec \<Rightarrow> spec_change" where
  "compare_specs x current requested =
     (if pull_policy (rq_container requested) = Pull_Always
        \<or> shape_of_resolved x current \<noteq> shape_of_requested x requested
        \<or> rs_pre_deploy current \<noteq> rq_pre_deploy requested
      then NeedsRecreate
      else resource_change (container_resources (rs_container current)) (container_resources (rq_container requested)))"

text \<open>Examples: an empty environment of external code, and a plain spec.\<close>

definition example_ext :: ext where
  "example_ext =
     \<lparr> json_text = (\<lambda>item. case item of Json_String s \<Rightarrow> s | _ \<Rightarrow> []),
       json_bytes = (\<lambda>fields. map of_char (sf_image fields)),
       ipnet_contains = (\<lambda>net address. case net of IpNet base _ \<Rightarrow> base = address),
       ipnet_network = (\<lambda>net. case net of IpNet base _ \<Rightarrow> base),
       random_service_id = (\<lambda>name. name) \<rparr>"

definition example_container :: "string \<Rightarrow> service_container_spec" where
  "example_container i =
     \<lparr> container_image = i, container_command = [], entrypoint = [], container_environment = [],
       container_labels = [], container_hostname = None, extra_hosts = [], cap_add = [],
       cap_drop = [], healthcheck = None, pull_policy = Pull_Missing, container_init = None,
       container_user = None, working_directory = None, tty = False, open_stdin = False,
       privileged = False, pid_mode = None, log_driver = None,
       container_resources = \<lparr> cpu_nanos = None, memory_bytes = None, memory_reservation_bytes = None,
         shared_memory_bytes = None, devices = [], device_reservations = [], ulimits = [] \<rparr>,
       stop_timeout_secs = None, sysctls = [], restart = UnlessStopped \<rparr>"

definition example_spec :: "service_name \<Rightarrow> service_mode \<Rightarrow> port_publication list \<Rightarrow> requested_service_spec" where
  "example_spec name mode ports =
     \<lparr> rq_name = name, rq_mode = mode, rq_container = example_container ''nginx'',
       rq_placement = [], rq_ports = ports,
       rq_mount_graph = \<lparr> mg_volumes = \<lparr> vg_volumes = [], vg_mounts = [] \<rparr>,
         mg_configs = \<lparr> cg_configs = [], cg_mounts = [] \<rparr> \<rparr>,
       rq_pre_deploy = None, rq_update = \<lparr> uc_order = None, uc_monitor_millis = None \<rparr> \<rparr>"

section \<open>Lemmas\<close>

lemma resolve_mount_graph_ok: "resolve_mount_graph g = Inr g' \<Longrightarrow> g' = g"
  by (auto simp: resolve_mount_graph_def result_simps resolve_volume_graph_ok)

lemma to_resolved_fields:
  assumes "to_resolved spec sid update = Inr r"
  shows "rs_service_id r = sid" "rs_name r = rq_name spec" "rs_mode r = rq_mode spec"
    "rs_container r = rq_container spec" "rs_placement r = rq_placement spec"
    "rs_ports r = rq_ports spec" "rs_mount_graph r = rq_mount_graph spec"
    "rs_pre_deploy r = rq_pre_deploy spec" "rs_update r = update"
  using assms resolve_mount_graph_ok by (auto simp: to_resolved_def result_simps)

lemma shape_of_to_resolved:
  assumes "to_resolved spec sid update = Inr r"
  shows "shape_of_resolved x r = shape_of_requested x spec"
  using to_resolved_fields [OF assms]
  by (simp add: shape_of_resolved_def shape_of_requested_def fields_of_resolved_def
      fields_of_requested_def)

lemma resource_change_refl [simp]: "resource_change r r = UpToDate"
  by (simp add: resource_change_def)

lemma sorted_json_perm:
  assumes "mset items = mset items'" and "inj_on (json_text x) (set items)"
  shows "sorted_json x items = sorted_json x items'"
  unfolding sorted_json_def using assms by (intro sort_key_inj_key_eq) simp_all

text \<open>The items that the shape of a spec sorts.\<close>

definition volume_items :: "service_volume_graph \<Rightarrow> json_item list" where
  "volume_items graph =
     map (\<lambda>volume. Json_Volume (sv_reference volume) (vs_source (sv_source volume))
       (creation_labels (sv_source volume))) (vg_volumes graph)"

definition shape_item_lists :: "requested_service_spec \<Rightarrow> json_item list list" where
  "shape_item_lists spec =
     [map Json_String (cap_add (rq_container spec)), map Json_String (cap_drop (rq_container spec)),
      map Json_Port (rq_ports spec), volume_items (rq_volume_graph spec),
      map Json_Mount (vg_mounts (rq_volume_graph spec)),
      map Json_Config (cg_configs (mg_configs (rq_mount_graph spec))),
      map Json_Config_Mount (cg_mounts (mg_configs (rq_mount_graph spec)))]"

text \<open>The same declaration up to the order of those items and up to the fields outside the shape:
  the replica count, the resources, the pull policy, the hook and the update settings.\<close>

definition same_shape_declaration :: "requested_service_spec \<Rightarrow> requested_service_spec \<Rightarrow> bool" where
  "same_shape_declaration a b \<longleftrightarrow>
     rq_name a = rq_name b \<and> same_service_mode_kind (rq_mode a) (rq_mode b)
     \<and> (rq_container a)\<lparr> cap_add := [], cap_drop := [], pull_policy := Pull_Missing,
          container_resources := container_resources (rq_container b) \<rparr>
       = (rq_container b)\<lparr> cap_add := [], cap_drop := [], pull_policy := Pull_Missing \<rparr>
     \<and> rq_placement a = rq_placement b
     \<and> list_all2 (\<lambda>xs ys. mset xs = mset ys) (shape_item_lists a) (shape_item_lists b)"

section \<open>Properties\<close>



text \<open>The serving shape does not depend on the order of capabilities, ports, Volumes,
  mounts and Configs, nor on the replica count, the resources, the pull policy, the hook and the
  update settings. The one fact used of the JSON package is that different items of the spec have
  different texts.\<close>

theorem serving_shape_order_insensitive:
  assumes "same_shape_declaration a b"
    and json_text_distinguishes: "inj_on (json_text x) (\<Union> (set ` set (shape_item_lists a)))"
  shows "shape_of_requested x a = shape_of_requested x b"
proof -
  have perm: "list_all2 (\<lambda>xs ys. mset xs = mset ys) (shape_item_lists a) (shape_item_lists b)"
    and same: "rq_name a = rq_name b" "rq_placement a = rq_placement b"
      "service_mode_kind (rq_mode a) = service_mode_kind (rq_mode b)"
    using assms(1)
    by (auto simp: same_shape_declaration_def same_service_mode_kind_def service_mode_kind_def
        split: service_mode.splits)
  have "map (sorted_json x) (shape_item_lists a) = map (sorted_json x) (shape_item_lists b)"
  proof (rule nth_equalityI)
    show len: "length (map (sorted_json x) (shape_item_lists a))
        = length (map (sorted_json x) (shape_item_lists b))"
      using perm by (simp add: list_all2_lengthD)
    fix i
    assume "i < length (map (sorted_json x) (shape_item_lists a))"
    then have i: "i < length (shape_item_lists a)" "i < length (shape_item_lists b)"
      using len by auto
    have "inj_on (json_text x) (set (shape_item_lists a ! i))"
      by (rule inj_on_subset [OF json_text_distinguishes]) (use i(1) nth_mem in blast)
    then show "map (sorted_json x) (shape_item_lists a) ! i = map (sorted_json x) (shape_item_lists b) ! i"
      using list_all2_nthD [OF perm i(1)] i by (simp add: sorted_json_perm)
  qed
  moreover have "fields_of_requested x s = (fields_of_requested x s)
      \<lparr> sf_cap_add := map (sorted_json x) (shape_item_lists s) ! 0,
        sf_cap_drop := map (sorted_json x) (shape_item_lists s) ! 1,
        sf_ports := map (sorted_json x) (shape_item_lists s) ! 2,
        sf_volumes := map (sorted_json x) (shape_item_lists s) ! 3,
        sf_mounts := map (sorted_json x) (shape_item_lists s) ! 4,
        sf_configs := map (sorted_json x) (shape_item_lists s) ! 5,
        sf_config_mounts := map (sorted_json x) (shape_item_lists s) ! 6 \<rparr>" for s
    by (simp add: fields_of_requested_def recreate_fields_def shape_item_lists_def volume_items_def
        numeral_nat)
  moreover have "(fields_of_requested x a)\<lparr> sf_cap_add := c1, sf_cap_drop := c2, sf_ports := c3,
        sf_volumes := c4, sf_mounts := c5, sf_configs := c6, sf_config_mounts := c7 \<rparr>
      = (fields_of_requested x b)\<lparr> sf_cap_add := c1, sf_cap_drop := c2, sf_ports := c3,
        sf_volumes := c4, sf_mounts := c5, sf_configs := c6, sf_config_mounts := c7 \<rparr>"
    for c1 c2 c3 c4 c5 c6 c7
    using assms(1) same
    by (cases "rq_container a"; cases "rq_container b")
      (simp add: fields_of_requested_def recreate_fields_def same_shape_declaration_def)
  ultimately have "fields_of_requested x a = fields_of_requested x b"
    by metis
  then show ?thesis
    by (simp add: shape_of_requested_def)
qed

theorem serving_shape_order_insensitive_witness:
  "let a = example_spec ''web'' (Replicated 2) [];
       with_caps = (\<lambda>caps n. a\<lparr> rq_container := (rq_container a)\<lparr> cap_add := caps \<rparr>, rq_mode := Replicated n \<rparr>)
   in shape_of_requested example_ext (with_caps [''NET_ADMIN'', ''SYS_TIME''] 2)
        = shape_of_requested example_ext (with_caps [''SYS_TIME'', ''NET_ADMIN''] 5)"
  unfolding Let_def
  by (rule serving_shape_order_insensitive)
    (auto simp: same_shape_declaration_def example_spec_def example_container_def
      shape_item_lists_def volume_items_def same_service_mode_kind_def example_ext_def inj_on_def)

end
