(* ===== verification/Eligibility.thy ===== *)
theory Eligibility
  imports Service_Spec
begin

text \<open>
  The reserved Ingress Proxy Service (\<open>domain/ingress.rs\<close>) and the placement and
  storage policy that decides whether a Machine can host a Service
  (\<open>service/eligibility.rs\<close>), under \<open>ployz-core/src\<close>. The wiring of Caddy is built
  with \<open>expect\<close>; \<open>None\<close> is its panic, which \<open>caddy_service_spec_total\<close> excludes.
\<close>

section \<open>The Ingress Proxy\<close>

definition caddy_container :: "string \<Rightarrow> service_container_spec" where
  "caddy_container caddy_image =
     \<lparr> container_image = caddy_image,
       container_command = [''caddy'', ''run'', ''-c'', ''/config/caddy/Caddyfile''],
       entrypoint = [],
       container_environment = [(''CADDY_ADMIN'', ''unix//run/ingress/caddy/admin.sock'')],
       container_labels = [], container_hostname = None, extra_hosts = [], cap_add = [],
       cap_drop = [], healthcheck = None, pull_policy = Pull_Missing, container_init = None,
       container_user = None, working_directory = None, tty = False, open_stdin = False,
       privileged = False, pid_mode = None, log_driver = None,
       container_resources = \<lparr> cpu_nanos = None, memory_bytes = None, memory_reservation_bytes = None,
         shared_memory_bytes = None, devices = [], device_reservations = [], ulimits = [] \<rparr>,
       stop_timeout_secs = None, sysctls = [], restart = UnlessStopped \<rparr>"

definition caddy_ports :: "port_publication list" where
  "caddy_ports =
     [Host_Port Bind_All 80 80 Tcp, Host_Port Bind_All 443 443 Tcp, Host_Port Bind_All 443 443 Udp]"

definition bind_volume :: "service_volume_reference \<Rightarrow> machine_path \<Rightarrow> service_volume" where
  "bind_volume reference path =
     \<lparr> sv_reference = reference,
       sv_source = \<lparr> vs_source = Bind path True None None, vs_scope = None \<rparr> \<rparr>"

definition ingress_mount :: "service_volume_reference \<Rightarrow> container_path \<Rightarrow> service_mount" where
  "ingress_mount volume target =
     \<lparr> mnt_volume = volume, mnt_target = target, mnt_read_only = False, mnt_no_copy = False,
       mnt_subpath = None \<rparr>"

definition caddy_volume_graph :: "(service_volume_graph_error, service_volume_graph) result" where
  "caddy_volume_graph =
     volume_graph_parse
       [bind_volume ''ingress-data'' ''/var/lib/ployz/ingress'',
        bind_volume ''ingress-runtime'' ''/run/ployz/ingress'']
       [ingress_mount ''ingress-data'' ''/config'', ingress_mount ''ingress-data'' ''/data'',
        ingress_mount ''ingress-runtime'' ''/run/ingress'']"

definition caddy_service_spec :: "string \<Rightarrow> placement \<Rightarrow> requested_service_spec option" where
  "caddy_service_spec caddy_image constraints =
     (case caddy_volume_graph of
        Inl _ \<Rightarrow> None
      | Inr volumes \<Rightarrow>
          (case mount_graph_parse volumes \<lparr> cg_configs = [], cg_mounts = [] \<rparr> of
             Inl _ \<Rightarrow> None
           | Inr graph \<Rightarrow>
               Some \<lparr> rq_name = qs_name system_ingress, rq_mode = Global,
                 rq_container = caddy_container caddy_image, rq_placement = constraints,
                 rq_ports = caddy_ports, rq_mount_graph = graph, rq_pre_deploy = None,
                 rq_update = \<lparr> uc_order = None, uc_monitor_millis = None \<rparr> \<rparr>))"

definition validate_requested_ingress_service_spec :: "requested_service_spec \<Rightarrow> bool" where
  "validate_requested_ingress_service_spec spec =
     (caddy_service_spec (container_image (rq_container spec)) (rq_placement spec) = Some spec)"

definition validate_ingress_service_spec :: "resolved_service_spec \<Rightarrow> bool" where
  "validate_ingress_service_spec spec =
     (if ru_monitor_millis (rs_update spec) \<noteq> None then False
      else case caddy_service_spec (container_image (rs_container spec)) (rs_placement spec) of
          None \<Rightarrow> False
        | Some expected \<Rightarrow> to_resolved expected (rs_service_id spec) (rs_update spec) = Inr spec)"

section \<open>Placement and storage policy\<close>

datatype ineligible_reason = PlacementMismatch | WorkNotAccepted | ProvisionedStorageUnsupported
datatype unknown_reason = MissingStorageEvidence

datatype service_placement_eligibility =
    Eligible
  | Ineligible ineligible_reason
  | Unknown unknown_reason

definition placement_eligibility ::
  "placement \<Rightarrow> service_volume_graph \<Rightarrow> machine \<Rightarrow> machine_storage_observation option \<Rightarrow> bool
     \<Rightarrow> service_placement_eligibility" where
  "placement_eligibility placement volumes machine storage ingress =
     (if \<not> machine_matches_placement machine placement then Ineligible PlacementMismatch
      else if \<not> (if ingress then m_accepts_ingress machine else m_accepts_services machine)
      then Ineligible WorkNotAccepted
      else if \<not> has_mounted_provisioned_volume volumes then Eligible
      else case storage of
          Some Ready \<Rightarrow> Eligible
        | Some (Pool _ _ _) \<Rightarrow> Eligible
        | Some Stateless \<Rightarrow> Ineligible ProvisionedStorageUnsupported
        | None \<Rightarrow> Unknown MissingStorageEvidence)"

definition rq_placement_eligibility_in_namespace ::
  "requested_service_spec \<Rightarrow> namespace \<Rightarrow> machine \<Rightarrow> machine_storage_observation option
     \<Rightarrow> service_placement_eligibility" where
  "rq_placement_eligibility_in_namespace spec namespace machine storage =
     placement_eligibility (rq_placement spec) (rq_volume_graph spec) machine storage
       (namespace = qs_namespace system_ingress \<and> validate_requested_ingress_service_spec spec)"

definition rs_placement_eligibility_in_namespace ::
  "resolved_service_spec \<Rightarrow> namespace \<Rightarrow> machine \<Rightarrow> machine_storage_observation option
     \<Rightarrow> service_placement_eligibility" where
  "rs_placement_eligibility_in_namespace spec namespace machine storage =
     placement_eligibility (rs_placement spec) (rs_volume_graph spec) machine storage
       (namespace = qs_namespace system_ingress \<and> validate_ingress_service_spec spec)"

definition storage_placement_eligibility ::
  "service_storage_spec \<Rightarrow> machine \<Rightarrow> machine_storage_observation option
     \<Rightarrow> service_placement_eligibility" where
  "storage_placement_eligibility spec machine storage =
     placement_eligibility (ss_placement spec) (ss_volumes spec) machine storage False"

section \<open>Lemmas\<close>

lemma caddy_graphs:
  "\<exists>volumes graph. caddy_volume_graph = Inr volumes
     \<and> mount_graph_parse volumes \<lparr> cg_configs = [], cg_mounts = [] \<rparr> = Inr graph
     \<and> (\<forall>v \<in> set (vg_volumes (mg_volumes graph)). is_resolved (sv_source v))"
proof -
  let ?vs = "[bind_volume ''ingress-data'' ''/var/lib/ployz/ingress'',
        bind_volume ''ingress-runtime'' ''/run/ployz/ingress'']"
  let ?ms = "[ingress_mount ''ingress-data'' ''/config'', ingress_mount ''ingress-data'' ''/data'',
        ingress_mount ''ingress-runtime'' ''/run/ingress'']"
  let ?g = "\<lparr> vg_volumes = ?vs, vg_mounts = ?ms \<rparr>"
  have "caddy_volume_graph = Inr ?g"
    "mount_graph_parse ?g \<lparr> cg_configs = [], cg_mounts = [] \<rparr>
       = Inr \<lparr> mg_volumes = ?g, mg_configs = \<lparr> cg_configs = [], cg_mounts = [] \<rparr> \<rparr>"
    by code_simp+
  then show ?thesis
    by (auto simp: bind_volume_def is_resolved_def is_managed_source_def)
qed

lemma caddy_service_spec_total: "\<exists>spec. caddy_service_spec i c = Some spec
  \<and> container_image (rq_container spec) = i \<and> rq_placement spec = c"
proof -
  obtain volumes graph where v: "caddy_volume_graph = Inr volumes"
    and g: "mount_graph_parse volumes \<lparr> cg_configs = [], cg_mounts = [] \<rparr> = Inr graph"
    using caddy_graphs by blast
  have "caddy_service_spec i c = Some
      \<lparr> rq_name = qs_name system_ingress, rq_mode = Global, rq_container = caddy_container i,
        rq_placement = c, rq_ports = caddy_ports, rq_mount_graph = graph, rq_pre_deploy = None,
        rq_update = \<lparr> uc_order = None, uc_monitor_millis = None \<rparr> \<rparr>"
    unfolding caddy_service_spec_def v by (simp add: g)
  then show ?thesis
    by (simp add: caddy_container_def)
qed

lemma caddy_spec_valid: "caddy_service_spec i c = Some spec \<Longrightarrow> validate_requested_ingress_service_spec spec"
  using caddy_service_spec_total [of i c] by (auto simp: validate_requested_ingress_service_spec_def)

lemma placement_eligibility_Eligible:
  "placement_eligibility placement volumes machine storage ingress = Eligible \<longleftrightarrow>
     machine_matches_placement machine placement
     \<and> (if ingress then m_accepts_ingress machine else m_accepts_services machine)
     \<and> (has_mounted_provisioned_volume volumes
          \<longrightarrow> (\<exists>evidence. storage = Some evidence \<and> evidence \<noteq> Stateless))"
  by (auto simp: placement_eligibility_def
      split: option.splits machine_storage_observation.splits)

end
