(* ===== verification/Observation.thy ===== *)
theory Observation
  imports Eligibility
begin

text \<open>
  What one observer sees: container observations and their admission
  (\<open>domain/observation.rs\<close>), the Services derived from them (\<open>service.rs\<close>,
  \<open>service/serving.rs\<close>), the owners of hostnames (\<open>domain/hostname.rs\<close>), the
  Namespaces (\<open>namespace.rs\<close>) and the container selector (\<open>domain/selector.rs\<close>),
  under \<open>ployz-core/src\<close>. A Service Container and a Hook Container are the
  observation itself, whose kind has been checked.
\<close>

section \<open>Containers\<close>

text \<open>Values of the package \<open>serde_json\<close>, kept as observed.\<close>

datatype json_value =
    JNull
  | JBool bool
  | JNumber int
  | JString string
  | JArray "json_value list"
  | JObject "(string \<times> json_value) list"

datatype health_observation =
    NotConfigured | Starting | Healthy | Unhealthy | Unrecognized_Health string

datatype container_runtime_observation =
    Created
  | Running health_observation
  | Paused
  | Restarting
  | Exited int
  | Removing
  | Dead
  | Unknown_Runtime json_value

definition is_healthy :: "container_runtime_observation \<Rightarrow> bool" where
  "is_healthy runtime =
     (case runtime of Running health \<Rightarrow> health = Healthy \<or> health = NotConfigured | _ \<Rightarrow> False)"

definition is_running :: "container_runtime_observation \<Rightarrow> bool" where
  "is_running runtime = (case runtime of Running _ \<Rightarrow> True | _ \<Rightarrow> False)"

datatype container_kind = ServiceContainer | PreDeployHook

record container_observation =
  co_container_id :: container_id
  co_display_name :: string
  co_created_at_unix_nanos :: int
  co_machine_id :: machine_id
  co_namespace :: namespace
  co_kind :: container_kind
  co_runtime :: container_runtime_observation
  co_effective_healthcheck :: "healthcheck_spec option"
  co_resolved_spec :: resolved_service_spec
  co_address :: "u32 option"
  co_labels :: "(string, string) btree"

text \<open>Admission: the identity labels must agree with the retained facts.\<close>

definition container_observation_try_from ::
  "container_observation \<Rightarrow> (string, container_observation) result" where
  "container_observation_try_from parts =
     (case List.find (\<lambda>(label, expected).
          case bt_get (co_labels parts) label of None \<Rightarrow> False | Some value \<Rightarrow> value \<noteq> expected)
        [(''ployz.service.id'', rs_service_id (co_resolved_spec parts)),
         (''ployz.service.name'', rs_name (co_resolved_spec parts)),
         (''ployz.namespace'', co_namespace parts)] of
        Some (label, _) \<Rightarrow> Inl label
      | None \<Rightarrow>
          if (bt_contains (co_labels parts) ''ployz.managed''
                \<or> bt_contains (co_labels parts) ''ployz.service.hook'')
             \<and> bt_contains (co_labels parts) ''ployz.service.hook'' \<noteq> (co_kind parts = PreDeployHook)
          then Inl ''ployz.service.hook''
          else Inr parts)"

definition co_service_id :: "container_observation \<Rightarrow> service_id" where
  "co_service_id observation = rs_service_id (co_resolved_spec observation)"

definition co_identity :: "container_observation \<Rightarrow> qualified_service" where
  "co_identity observation =
     QualifiedService (co_namespace observation) (rs_name (co_resolved_spec observation))"

definition redact_values :: "(string, string) btree \<Rightarrow> (string, string) btree" where
  "redact_values env = map (\<lambda>(key, _). (key, ''<redacted>'')) env"

definition redact_parts :: "container_observation \<Rightarrow> container_observation" where
  "redact_parts parts =
     parts\<lparr> co_resolved_spec := (co_resolved_spec parts)
       \<lparr> rs_container := (rs_container (co_resolved_spec parts))
           \<lparr> container_environment :=
               redact_values (container_environment (rs_container (co_resolved_spec parts))) \<rparr>,
         rs_pre_deploy := map_option (\<lambda>hook. hook\<lparr> hook_environment := redact_values (hook_environment hook) \<rparr>)
           (rs_pre_deploy (co_resolved_spec parts)) \<rparr> \<rparr>"

text \<open>\<open>None\<close> is the panic of \<open>expect(''environment redaction preserves Container identity'')\<close>.\<close>

definition redact_environment :: "container_observation \<Rightarrow> container_observation option" where
  "redact_environment observation =
     (case container_observation_try_from (redact_parts observation) of
        Inl _ \<Rightarrow> None | Inr redacted \<Rightarrow> Some redacted)"

definition traffic_address :: "container_observation \<Rightarrow> u32 option" where
  "traffic_address observation =
     (if is_healthy (co_runtime observation) then co_address observation else None)"

section \<open>Services\<close>

record service_observation =
  so_identity :: qualified_service
  so_service_id :: service_id
  so_containers :: "container_observation list"
  so_hook_containers :: "container_observation list"

text \<open>\<open>Iterator::max_by_key\<close>: of several greatest elements the last one.\<close>

definition max_by_key :: "('a \<Rightarrow> 'k::linorder) \<Rightarrow> 'a list \<Rightarrow> 'a option" where
  "max_by_key key xs =
     fold (\<lambda>x best. case best of
        None \<Rightarrow> Some x
      | Some b \<Rightarrow> if key b \<le> key x then Some x else Some b) xs None"

definition creation_key :: "container_observation \<Rightarrow> int \<times> container_id" where
  "creation_key observation = (co_created_at_unix_nanos observation, co_container_id observation)"

definition so_members :: "service_observation \<Rightarrow> container_observation list" where
  "so_members service = so_containers service @ so_hook_containers service"

definition has_name :: "service_observation \<Rightarrow> string \<Rightarrow> bool" where
  "has_name service selector = (qs_name (so_identity service) = selector)"

definition has_service_id :: "service_observation \<Rightarrow> service_id \<Rightarrow> bool" where
  "has_service_id service sid = list_ex (\<lambda>c. co_service_id c = sid) (so_members service)"

definition observed_global_slot_spec :: "service_observation \<Rightarrow> resolved_service_spec option" where
  "observed_global_slot_spec service =
     Option.bind (max_by_key creation_key (so_containers service)) (\<lambda>newest.
       let spec = co_resolved_spec newest
       in if rs_mode spec = Global then Some spec else None)"

definition add_observation ::
  "container_observation \<Rightarrow> (qualified_service, service_observation) btree
     \<Rightarrow> (qualified_service, service_observation) btree" where
  "add_observation observation services =
     bt_update_default (co_identity observation)
       \<lparr> so_identity = co_identity observation, so_service_id = co_service_id observation,
         so_containers = [], so_hook_containers = [] \<rparr>
       (\<lambda>service. case co_kind observation of
          ServiceContainer \<Rightarrow> service\<lparr> so_containers := so_containers service @ [observation] \<rparr>
        | PreDeployHook \<Rightarrow> service\<lparr> so_hook_containers := so_hook_containers service @ [observation] \<rparr>)
       services"

definition set_newest_id :: "service_observation \<Rightarrow> service_observation" where
  "set_newest_id service =
     (case max_by_key creation_key (so_members service) of
        None \<Rightarrow> service
      | Some newest \<Rightarrow> service\<lparr> so_service_id := co_service_id newest \<rparr>)"

definition derive_services :: "container_observation list \<Rightarrow> service_observation list" where
  "derive_services containers = map set_newest_id (bt_values (fold add_observation containers []))"

definition service_containers :: "container_observation list \<Rightarrow> container_observation list" where
  "service_containers observations = filter (\<lambda>c. co_kind c = ServiceContainer) observations"

datatype service_selector_error =
    Service_NotFound string
  | NameAmbiguity string "qualified_service list"

definition select_service ::
  "service_observation list \<Rightarrow> string \<Rightarrow> (service_selector_error, service_observation) result" where
  "select_service services selector =
     (case (case service_id_parse selector of
              Inl _ \<Rightarrow> None
            | Inr sid \<Rightarrow> List.find (\<lambda>service. has_service_id service sid) services) of
        Some service \<Rightarrow> Inr service
      | None \<Rightarrow>
          (case qualified_service_parse selector of
             Inr identity \<Rightarrow>
               ok_or (Service_NotFound selector)
                 (List.find (\<lambda>service. so_identity service = identity) services)
           | Inl _ \<Rightarrow>
               (let matches = sort_key so_identity (filter (\<lambda>service. has_name service selector) services)
                in case matches of
                     [] \<Rightarrow> Inl (Service_NotFound selector)
                   | [service] \<Rightarrow> Inr service
                   | _ \<Rightarrow> Inl (NameAmbiguity selector (map so_identity matches)))))"

section \<open>Containers that serve traffic\<close>

definition group_by_identity ::
  "container_observation list \<Rightarrow> (qualified_service, container_observation list) btree" where
  "group_by_identity containers =
     fold (\<lambda>c. bt_update_default (co_identity c) [] (\<lambda>members. members @ [c])) containers []"

definition serving_members ::
  "ext \<Rightarrow> container_observation list \<Rightarrow> (container_observation \<times> u32) list" where
  "serving_members x members =
     (case max_by_key creation_key (filter (\<lambda>c. traffic_address c \<noteq> None) members) of
        None \<Rightarrow> []
      | Some newest \<Rightarrow>
          let selected = shape_of_resolved x (co_resolved_spec newest) in
          List.map_filter (\<lambda>c. case traffic_address c of
              None \<Rightarrow> None
            | Some address \<Rightarrow>
                if shape_of_resolved x (co_resolved_spec c) = selected then Some (c, address) else None)
            members)"

definition serving_containers ::
  "ext \<Rightarrow> container_observation list \<Rightarrow> (container_observation \<times> u32) list" where
  "serving_containers x containers =
     concat (map (serving_members x) (bt_values (group_by_identity containers)))"

datatype slot_occupancy = Current container_observation | OtherShape | Empty_Slot

fun classify_slot ::
  "ext \<Rightarrow> serving_shape \<Rightarrow> container_observation list \<Rightarrow> container_observation option \<Rightarrow> bool
     \<Rightarrow> slot_occupancy" where
  "classify_slot x wanted [] current saw_other =
     (case current of
        Some c \<Rightarrow> Current c
      | None \<Rightarrow> if saw_other then OtherShape else Empty_Slot)"
| "classify_slot x wanted (c # cs) current saw_other =
     (if shape_of_resolved x (co_resolved_spec c) = wanted then
        if is_running (co_runtime c) then Current c
        else classify_slot x wanted cs (Some c) saw_other
      else classify_slot x wanted cs current True)"

definition slot_occupancy_classify :: "ext \<Rightarrow> container_observation list \<Rightarrow> serving_shape \<Rightarrow> slot_occupancy" where
  "slot_occupancy_classify x existing wanted = classify_slot x wanted existing None False"

section \<open>Hostnames\<close>

definition explicit_ingress_hosts :: "port_publication list \<Rightarrow> ingress_host list" where
  "explicit_ingress_hosts ports =
     List.map_filter (\<lambda>port. case port of
        Ingress_Port hostname _ _ _ \<Rightarrow> Some hostname | Host_Port _ _ _ _ \<Rightarrow> None) ports"

type_synonym hostname_claim = "int \<times> qualified_service \<times> service_id"

definition claim_hostname ::
  "hostname_claim \<Rightarrow> ingress_host \<Rightarrow> (ingress_host, hostname_claim) btree
     \<Rightarrow> (ingress_host, hostname_claim) btree" where
  "claim_hostname claim hostname winners =
     (if (case bt_get winners hostname of None \<Rightarrow> True | Some best \<Rightarrow> claim < best)
      then bt_insert hostname claim winners else winners)"

definition observation_claim :: "container_observation \<Rightarrow> hostname_claim" where
  "observation_claim c = (co_created_at_unix_nanos c, co_identity c, co_service_id c)"

definition claim_observation ::
  "container_observation \<Rightarrow> (ingress_host, hostname_claim) btree
     \<Rightarrow> (ingress_host, hostname_claim) btree" where
  "claim_observation observation winners =
     (if co_kind observation \<noteq> ServiceContainer then winners
      else fold (claim_hostname (observation_claim observation))
        (explicit_ingress_hosts (rs_ports (co_resolved_spec observation))) winners)"

definition hostname_owners :: "container_observation list \<Rightarrow> (ingress_host, qualified_service) btree" where
  "hostname_owners observations =
     map (\<lambda>(hostname, (_, identity, _)). (hostname, identity)) (fold claim_observation observations [])"

section \<open>Namespaces\<close>

definition owned_volume_namespace :: "(string, string) btree \<Rightarrow> namespace option" where
  "owned_volume_namespace labels =
     Option.bind (bt_get labels NAMESPACE_LABEL) (\<lambda>text.
       case namespace_parse text of Inl _ \<Rightarrow> None | Inr ns \<Rightarrow> Some ns)"

record namespace_observation =
  no_name :: namespace
  no_services :: "qualified_service list"
  no_volumes :: "docker_volume_id list"

definition derive_namespaces ::
  "container_observation list \<Rightarrow> (docker_volume_id \<times> (string, string) btree) list
     \<Rightarrow> namespace_observation list" where
  "derive_namespaces containers volumes =
     (let with_services = fold (\<lambda>observation. bt_update_default (co_namespace observation) ([], [])
            (\<lambda>(services, vols). (bs_insert (co_identity observation) services, vols))) containers [];
          namespaces = fold (\<lambda>(id, labels) acc.
            case owned_volume_namespace labels of
              None \<Rightarrow> acc
            | Some name \<Rightarrow> bt_update_default name ([], [])
                (\<lambda>(services, vols). (services, bs_insert id vols)) acc) volumes with_services
      in map (\<lambda>(name, (services, vols)).
           \<lparr> no_name = name, no_services = services, no_volumes = vols \<rparr>) namespaces)"

section \<open>Container selectors\<close>

datatype container_selector_error =
    Container_NotFound string
  | Container_Ambiguous string "container_id list"

definition ambiguous_containers :: "string \<Rightarrow> container_observation list \<Rightarrow> container_selector_error" where
  "ambiguous_containers selector matches = Container_Ambiguous selector (map co_container_id matches)"

definition resolve_container_selector ::
  "container_observation list \<Rightarrow> string \<Rightarrow> (container_selector_error, container_observation) result" where
  "resolve_container_selector containers selector =
     (case List.find (\<lambda>c. co_container_id c = selector) containers of
        Some container \<Rightarrow> Inr container
      | None \<Rightarrow>
          (let named = filter (\<lambda>c. co_display_name c = selector) containers in
           case named of
             [container] \<Rightarrow> Inr container
           | _ # _ # _ \<Rightarrow> Inl (ambiguous_containers selector named)
           | [] \<Rightarrow>
               (let prefixed = filter (\<lambda>c. starts_with selector (co_container_id c)) containers in
                case prefixed of
                  [] \<Rightarrow> Inl (Container_NotFound selector)
                | [container] \<Rightarrow> Inr container
                | _ \<Rightarrow> Inl (ambiguous_containers selector prefixed))))"

text \<open>A running container of a plain Service, for the examples.\<close>

definition example_resolved :: "service_name \<Rightarrow> service_mode \<Rightarrow> port_publication list \<Rightarrow> resolved_service_spec" where
  "example_resolved name mode ports =
     \<lparr> rs_service_id = name, rs_name = name, rs_mode = mode,
       rs_container = example_container ''nginx'', rs_placement = [], rs_ports = ports,
       rs_mount_graph = \<lparr> mg_volumes = \<lparr> vg_volumes = [], vg_mounts = [] \<rparr>,
         mg_configs = \<lparr> cg_configs = [], cg_mounts = [] \<rparr> \<rparr>,
       rs_pre_deploy = None, rs_update = \<lparr> ru_order = StartFirst, ru_monitor_millis = None \<rparr> \<rparr>"

definition example_observation ::
  "container_id \<Rightarrow> machine_id \<Rightarrow> int \<Rightarrow> resolved_service_spec \<Rightarrow> container_observation" where
  "example_observation cid mid created spec =
     \<lparr> co_container_id = cid, co_display_name = cid, co_created_at_unix_nanos = created,
       co_machine_id = mid, co_namespace = ''prod'', co_kind = ServiceContainer,
       co_runtime = Running Healthy, co_effective_healthcheck = None, co_resolved_spec = spec,
       co_address = Some 1, co_labels = [] \<rparr>"

section \<open>Lemmas\<close>

lemma max_by_key_snoc:
  "max_by_key key (xs @ [x]) = (case max_by_key key xs of
      None \<Rightarrow> Some x | Some b \<Rightarrow> if key b \<le> key x then Some x else Some b)"
  by (simp add: max_by_key_def)

lemma max_by_key_None: "max_by_key key xs = None \<longleftrightarrow> xs = []"
  by (induction xs rule: rev_induct) (auto simp: max_by_key_snoc split: option.splits, simp add: max_by_key_def)

lemma max_by_key_Some:
  "max_by_key key xs = Some m \<Longrightarrow> m \<in> set xs \<and> (\<forall>x \<in> set xs. key x \<le> key m)"
proof (induction xs arbitrary: m rule: rev_induct)
  case (snoc x xs)
  show ?case
  proof (cases "max_by_key key xs")
    case None
    with snoc.prems show ?thesis
      by (simp add: max_by_key_snoc max_by_key_None)
  next
    case (Some b)
    from snoc.IH [OF Some] Some snoc.prems show ?thesis
      by (fastforce simp: max_by_key_snoc split: if_splits)
  qed
qed (simp add: max_by_key_def)

definition service_of :: "container_observation list \<Rightarrow> qualified_service \<Rightarrow> container_kind \<Rightarrow> container_observation list" where
  "service_of cs q kind = filter (\<lambda>c. co_identity c = q \<and> co_kind c = kind) cs"

lemma add_observations_get:
  "bt_get (fold add_observation cs []) q =
     (case List.find (\<lambda>c. co_identity c = q) cs of
        None \<Rightarrow> None
      | Some c \<Rightarrow> Some \<lparr> so_identity = q, so_service_id = co_service_id c,
          so_containers = service_of cs q ServiceContainer,
          so_hook_containers = service_of cs q PreDeployHook \<rparr>)"
proof (induction cs rule: rev_induct)
  case (snoc c cs)
  have "fold add_observation (cs @ [c]) [] = add_observation c (fold add_observation cs [])"
    by simp
  moreover have "List.find (\<lambda>c. co_identity c = q) cs = None \<Longrightarrow> service_of cs q kind = []" for kind
    by (auto simp: service_of_def find_None_iff filter_empty_conv)
  ultimately show ?case
    using snoc
    by (cases "co_kind c")
      (auto simp: add_observation_def map_simps find_append service_of_def split: option.splits)
qed simp

lemma add_observations_wf: "bt_wf (fold add_observation cs [])"
  by (induction cs rule: rev_induct) (auto simp: add_observation_def)

lemma add_observation_keys: "set (bt_keys (fold add_observation cs [])) = co_identity ` set cs"
proof -
  have "k \<in> set (bt_keys (fold add_observation cs [])) \<longleftrightarrow> k \<in> co_identity ` set cs" for k
  proof -
    have "k \<in> set (bt_keys (fold add_observation cs [])) \<longleftrightarrow> List.find (\<lambda>c. co_identity c = k) cs \<noteq> None"
      using bt_get_None_iff [of "fold add_observation cs []" k]
      by (auto simp: add_observations_get split: option.splits)
    then show ?thesis
      by (auto simp: find_None_iff)
  qed
  then show ?thesis
    by blast
qed

lemma set_newest_id_fields [simp]:
  "so_identity (set_newest_id s) = so_identity s"
  "so_containers (set_newest_id s) = so_containers s"
  "so_hook_containers (set_newest_id s) = so_hook_containers s"
  by (auto simp: set_newest_id_def split: option.splits)

lemma set_newest_id_newest:
  assumes "so_members s \<noteq> []"
  shows "\<exists>m \<in> set (so_members s). so_service_id (set_newest_id s) = co_service_id m
    \<and> (\<forall>c \<in> set (so_members s). creation_key c \<le> creation_key m)"
proof -
  obtain m where m: "max_by_key creation_key (so_members s) = Some m"
    using assms max_by_key_None by (metis not_Some_eq)
  then have "so_service_id (set_newest_id s) = co_service_id m"
    by (simp add: set_newest_id_def)
  with max_by_key_Some [OF m] show ?thesis
    by blast
qed

lemma derive_services_member:
  assumes "s \<in> set (derive_services cs)"
  shows "so_containers s = service_of cs (so_identity s) ServiceContainer"
    "so_hook_containers s = service_of cs (so_identity s) PreDeployHook"
    "so_members s \<noteq> []"
    "\<exists>m \<in> set (so_members s). so_service_id s = co_service_id m
       \<and> (\<forall>c \<in> set (so_members s). creation_key c \<le> creation_key m)"
proof -
  from assms obtain q t where t: "(q, t) \<in> set (fold add_observation cs [])" "s = set_newest_id t"
    by (auto simp: derive_services_def)
  then have "bt_get (fold add_observation cs []) q = Some t"
    by (simp add: bt_get_Some_iff add_observations_wf)
  then obtain c where c: "List.find (\<lambda>c. co_identity c = q) cs = Some c" and
    teq: "t = \<lparr> so_identity = q, so_service_id = co_service_id c,
          so_containers = service_of cs q ServiceContainer,
          so_hook_containers = service_of cs q PreDeployHook \<rparr>"
    by (auto simp: add_observations_get split: option.splits)
  show "so_containers s = service_of cs (so_identity s) ServiceContainer"
    "so_hook_containers s = service_of cs (so_identity s) PreDeployHook"
    by (simp_all add: t(2) teq)
  have "c \<in> set (so_members t)"
    using find_SomeD [OF c] by (cases "co_kind c") (auto simp: teq so_members_def service_of_def)
  then have ne: "so_members t \<noteq> []"
    by auto
  moreover have "so_members s = so_members t"
    by (simp add: t(2) so_members_def)
  ultimately show "so_members s \<noteq> []"
    "\<exists>m \<in> set (so_members s). so_service_id s = co_service_id m
       \<and> (\<forall>c \<in> set (so_members s). creation_key c \<le> creation_key m)"
    using set_newest_id_newest [OF ne] by (simp_all add: t(2))
qed

lemma derive_services_identities:
  "map so_identity (derive_services cs) = bt_keys (fold add_observation cs [])"
proof -
  have "so_identity (snd e) = fst e" if "e \<in> set (fold add_observation cs [])" for e
  proof -
    have "bt_get (fold add_observation cs []) (fst e) = Some (snd e)"
      using that by (simp add: bt_get_Some_iff add_observations_wf)
    then show ?thesis
      by (auto simp: add_observations_get split: option.splits dest: sym)
  qed
  then show ?thesis
    by (simp add: derive_services_def)
qed

definition hostname_claims :: "container_observation list \<Rightarrow> ingress_host \<Rightarrow> hostname_claim set" where
  "hostname_claims cs h = observation_claim ` {c \<in> set cs. co_kind c = ServiceContainer
     \<and> h \<in> set (explicit_ingress_hosts (rs_ports (co_resolved_spec c)))}"

definition least_claim :: "hostname_claim set \<Rightarrow> hostname_claim option" where
  "least_claim A = (if A = {} then None else Some (Min A))"

lemma least_claim_insert:
  "finite A \<Longrightarrow> least_claim (insert c A)
     = (case least_claim A of None \<Rightarrow> Some c | Some b \<Rightarrow> Some (min c b))"
  by (simp add: least_claim_def Min_insert)

lemma claim_hostname_get:
  "bt_get (claim_hostname c h w) h'
     = (if h' = h then (case bt_get w h of None \<Rightarrow> Some c | Some b \<Rightarrow> Some (min c b)) else bt_get w h')"
  by (auto simp: claim_hostname_def map_simps min_def split: option.splits)

lemma claim_hostnames_get:
  "bt_get (fold (claim_hostname c) hs w) h
     = (if h \<in> set hs then (case bt_get w h of None \<Rightarrow> Some c | Some b \<Rightarrow> Some (min c b)) else bt_get w h)"
proof (induction hs arbitrary: w)
  case (Cons k hs)
  have "min c (min c b) = min c b" for b
    by (simp add: min.left_idem)
  then show ?case
    by (simp add: Cons.IH claim_hostname_get split: option.split)
qed simp

lemma finite_hostname_claims [simp]: "finite (hostname_claims cs h)"
  by (simp add: hostname_claims_def)

lemma claim_observations_get:
  "bt_get (fold claim_observation cs []) h = least_claim (hostname_claims cs h)"
proof (induction cs rule: rev_induct)
  case (snoc c cs)
  let ?claims = "co_kind c = ServiceContainer \<and> h \<in> set (explicit_ingress_hosts (rs_ports (co_resolved_spec c)))"
  have "hostname_claims (cs @ [c]) h
      = (if ?claims then insert (observation_claim c) (hostname_claims cs h) else hostname_claims cs h)"
    by (auto simp: hostname_claims_def)
  moreover have "bt_get (fold claim_observation (cs @ [c]) []) h
      = (if ?claims then (case bt_get (fold claim_observation cs []) h of
            None \<Rightarrow> Some (observation_claim c) | Some b \<Rightarrow> Some (min (observation_claim c) b))
         else bt_get (fold claim_observation cs []) h)"
    by (simp add: claim_observation_def claim_hostnames_get)
  ultimately show ?case
    by (simp add: snoc least_claim_insert)
qed (simp add: hostname_claims_def least_claim_def)

lemma claim_hostname_wf: "bt_wf w \<Longrightarrow> bt_wf (claim_hostname c h w)"
  by (auto simp: claim_hostname_def)

lemma claim_observations_wf: "bt_wf (fold claim_observation cs [])"
proof (induction cs rule: rev_induct)
  case (snoc c cs)
  have "bt_wf (fold (claim_hostname (observation_claim c)) hs w)" if "bt_wf w" for hs w
    using that by (induction hs arbitrary: w) (auto intro: claim_hostname_wf)
  with snoc show ?case
    by (simp add: claim_observation_def)
qed simp

lemma hostname_owners_alt:
  "hostname_owners cs = map (\<lambda>(k, v). (k, fst (snd v))) (fold claim_observation cs [])"
  by (simp add: hostname_owners_def case_prod_beta)

lemma group_by_identity_get:
  "bt_get (group_by_identity cs) q =
     (let members = filter (\<lambda>c. co_identity c = q) cs in if members = [] then None else Some members)"
proof (induction cs rule: rev_induct)
  case (snoc c cs)
  then show ?case
    by (auto simp: group_by_identity_def map_simps Let_def split: option.splits if_splits)
qed (simp add: group_by_identity_def)

lemma group_by_identity_wf: "bt_wf (group_by_identity cs)"
  unfolding group_by_identity_def by (induction cs rule: rev_induct) auto

lemma serving_members_iff:
  "(c, a) \<in> set (serving_members x ms) \<longleftrightarrow> c \<in> set ms \<and> traffic_address c = Some a
     \<and> (\<exists>newest. max_by_key creation_key (filter (\<lambda>c. traffic_address c \<noteq> None) ms) = Some newest
          \<and> shape_of_resolved x (co_resolved_spec c) = shape_of_resolved x (co_resolved_spec newest))"
proof (cases "max_by_key creation_key (filter (\<lambda>c. traffic_address c \<noteq> None) ms)")
  case (Some newest)
  then show ?thesis
    unfolding serving_members_def Some by (auto simp: in_set_map_filter Let_def split: option.splits if_splits)
qed (simp add: serving_members_def)

lemma serving_containers_iff:
  "(c, a) \<in> set (serving_containers x cs) \<longleftrightarrow>
     c \<in> set cs \<and> (c, a) \<in> set (serving_members x (filter (\<lambda>d. co_identity d = co_identity c) cs))"
proof -
  have members: "c \<in> set ms" if "(c, a) \<in> set (serving_members x ms)" for ms
    using that by (simp add: serving_members_iff)
  have "(c, a) \<in> set (serving_containers x cs) \<longleftrightarrow>
      (\<exists>q ms. bt_get (group_by_identity cs) q = Some ms \<and> (c, a) \<in> set (serving_members x ms))"
    by (force simp: serving_containers_def bt_get_Some_iff group_by_identity_wf)
  also have "\<dots> \<longleftrightarrow> (\<exists>q. filter (\<lambda>d. co_identity d = q) cs \<noteq> []
      \<and> (c, a) \<in> set (serving_members x (filter (\<lambda>d. co_identity d = q) cs)))"
    by (auto simp: group_by_identity_get Let_def)
  also have "\<dots> \<longleftrightarrow> c \<in> set cs \<and> (c, a) \<in> set (serving_members x (filter (\<lambda>d. co_identity d = co_identity c) cs))"
    using members by (fastforce simp: filter_empty_conv)
  finally show ?thesis .
qed

section \<open>Properties\<close>

text \<open>Claim C35. Deriving Services partitions what was observed: every container is a member of
  exactly one Service, the one with its Namespace and name; Services come in the order of their
  identity, without duplicates; the Service Containers of a Service are no hooks; and its Service ID
  is the one of its newest member.\<close>

theorem derive_services_partition:
  "sorted_wrt (<) (map so_identity (derive_services cs))
   \<and> set (map so_identity (derive_services cs)) = co_identity ` set cs
   \<and> mset (concat (map so_members (derive_services cs))) = mset cs
   \<and> (\<forall>s \<in> set (derive_services cs).
        (\<forall>c \<in> set (so_members s). co_identity c = so_identity s)
        \<and> (\<forall>c \<in> set (so_containers s). co_kind c = ServiceContainer)
        \<and> (\<exists>m \<in> set (so_members s). so_service_id s = co_service_id m
             \<and> (\<forall>c \<in> set (so_members s). creation_key c \<le> creation_key m)))"
proof (intro conjI ballI)
  show sorted: "sorted_wrt (<) (map so_identity (derive_services cs))"
    using add_observations_wf by (simp only: derive_services_identities bt_wf_def)
  show keys: "set (map so_identity (derive_services cs)) = co_identity ` set cs"
    by (simp only: derive_services_identities add_observation_keys)
  have members: "mset (so_members s) = filter_mset (\<lambda>c. co_identity c = so_identity s) (mset cs)"
    if "s \<in> set (derive_services cs)" for s
  proof -
    have "mset (service_of cs q ServiceContainer @ service_of cs q PreDeployHook)
        = filter_mset (\<lambda>c. co_identity c = q) (mset cs)" for q
    proof (induction cs)
      case (Cons c cs)
      then show ?case
        by (cases "co_kind c") (auto simp: service_of_def)
    qed (simp add: service_of_def)
    then show ?thesis
      using derive_services_member(1,2) [OF that] by (simp add: so_members_def)
  qed
  have split: "(\<Sum>q \<leftarrow> qs. filter_mset (\<lambda>c. co_identity c = q) M) = filter_mset (\<lambda>c. co_identity c \<in> set qs) M"
    if "distinct qs" for qs M
    using that
  proof (induction qs)
    case (Cons q qs)
    then have "filter_mset (\<lambda>c. co_identity c = q \<or> co_identity c \<in> set qs) M
        = filter_mset (\<lambda>c. co_identity c = q) M + filter_mset (\<lambda>c. co_identity c \<in> set qs) M"
      by (intro multiset_eqI) auto
    with Cons show ?case
      by simp
  qed simp
  have "mset (concat (map so_members (derive_services cs)))
      = (\<Sum>s \<leftarrow> derive_services cs. mset (so_members s))"
    by (simp add: mset_concat comp_def)
  also have "\<dots> = (\<Sum>q \<leftarrow> map so_identity (derive_services cs). filter_mset (\<lambda>c. co_identity c = q) (mset cs))"
    using members by (simp add: comp_def cong: map_cong)
  also have "\<dots> = filter_mset (\<lambda>c. co_identity c \<in> co_identity ` set cs) (mset cs)"
    using sorted split keys by (metis strict_sorted_iff)
  also have "\<dots> = mset cs"
    by (simp add: filter_mset_eq_conv)
  finally show "mset (concat (map so_members (derive_services cs))) = mset cs" .
next
  fix s c
  assume s: "s \<in> set (derive_services cs)"
  note m = derive_services_member [OF s]
  show "\<exists>m \<in> set (so_members s). so_service_id s = co_service_id m
      \<and> (\<forall>c \<in> set (so_members s). creation_key c \<le> creation_key m)"
    by (rule m(4))
  show "co_identity c = so_identity s" if "c \<in> set (so_members s)"
    using that m(1,2) by (auto simp: so_members_def service_of_def)
  show "co_kind c = ServiceContainer" if "c \<in> set (so_containers s)"
    using that m(1) by (auto simp: service_of_def)
qed

theorem derive_services_partition_witness:
  "mset (concat (map so_members (derive_services
       [example_observation ''c2'' ''m'' 2 (example_resolved ''web'' Global []),
        example_observation ''c1'' ''m'' 1 (example_resolved ''db'' Global [])])))
     = mset [example_observation ''c2'' ''m'' 2 (example_resolved ''web'' Global []),
        example_observation ''c1'' ''m'' 1 (example_resolved ''db'' Global [])]"
  using derive_services_partition by blast

text \<open>Claim C36. The owner of an Ingress Hostname is the Service with the oldest container that
  publishes it, ties broken by identity; hooks never own a hostname; and the owners depend only on
  the set of observations, not on the order in which they arrive or on repetitions.\<close>

theorem hostname_owner_is_oldest:
  "bt_wf (hostname_owners cs)
   \<and> bt_get (hostname_owners cs) h = (if hostname_claims cs h = {} then None
        else Some (fst (snd (Min (hostname_claims cs h)))))
   \<and> (set cs = set cs' \<longrightarrow> hostname_owners cs = hostname_owners cs')"
proof (intro conjI impI)
  show wf: "bt_wf (hostname_owners cs)"
    unfolding hostname_owners_alt by (intro bt_wf_map_values claim_observations_wf)
  have get: "bt_get (hostname_owners bs) k = map_option (\<lambda>v. fst (snd v)) (least_claim (hostname_claims bs k))"
    for bs k
    unfolding hostname_owners_alt bt_get_map_values claim_observations_get ..
  then show "bt_get (hostname_owners cs) h = (if hostname_claims cs h = {} then None
      else Some (fst (snd (Min (hostname_claims cs h)))))"
    by (simp add: least_claim_def)
  assume "set cs = set cs'"
  then have "hostname_claims cs = hostname_claims cs'"
    by (auto simp: hostname_claims_def)
  with get have "bt_get (hostname_owners cs) k = bt_get (hostname_owners cs') k" for k
    by simp
  moreover have "bt_wf (hostname_owners cs')"
    unfolding hostname_owners_alt by (intro bt_wf_map_values claim_observations_wf)
  ultimately show "hostname_owners cs = hostname_owners cs'"
    using wf by (intro bt_wf_ext)
qed

theorem hostname_owner_is_oldest_witness:
  "let c = example_observation ''c1'' ''m'' 1 (example_resolved ''db'' Global [Ingress_Port ''a.example'' 80 80 Http_Plain]);
       d = example_observation ''c2'' ''m'' 2 (example_resolved ''web'' Global [Ingress_Port ''a.example'' 80 80 Http_Plain])
   in hostname_owners [c, d] = [(''a.example'', QualifiedService ''prod'' ''db'')]
      \<and> hostname_owners [d, c, d] = hostname_owners [c, d]"
proof -
  let ?c = "example_observation ''c1'' ''m'' 1 (example_resolved ''db'' Global [Ingress_Port ''a.example'' 80 80 Http_Plain])"
  let ?d = "example_observation ''c2'' ''m'' 2 (example_resolved ''web'' Global [Ingress_Port ''a.example'' 80 80 Http_Plain])"
  have "set [?d, ?c, ?d] = set [?c, ?d] \<longrightarrow> hostname_owners [?d, ?c, ?d] = hostname_owners [?c, ?d]"
    using hostname_owner_is_oldest by blast
  moreover have "set [?d, ?c, ?d] = set [?c, ?d]"
    by auto
  moreover have "hostname_owners [?c, ?d] = [(''a.example'', QualifiedService ''prod'' ''db'')]"
    by code_simp
  ultimately show ?thesis
    unfolding Let_def by blast
qed

text \<open>Traffic goes only to healthy, addressed containers whose serving shape is the one
  of the newest traffic-eligible container of their Service; and a Service with a traffic-eligible
  container always has a serving container.\<close>

theorem serving_containers_newest_shape:
  "((c, a) \<in> set (serving_containers x cs) \<longrightarrow>
      c \<in> set cs \<and> is_healthy (co_runtime c) \<and> co_address c = Some a
      \<and> (\<exists>newest \<in> set cs. co_identity newest = co_identity c \<and> traffic_address newest \<noteq> None
           \<and> shape_of_resolved x (co_resolved_spec c) = shape_of_resolved x (co_resolved_spec newest)
           \<and> (\<forall>d \<in> set cs. co_identity d = co_identity c \<and> traffic_address d \<noteq> None
                \<longrightarrow> creation_key d \<le> creation_key newest)))
   \<and> (c \<in> set cs \<and> traffic_address c \<noteq> None \<longrightarrow>
        (\<exists>d b. (d, b) \<in> set (serving_containers x cs) \<and> co_identity d = co_identity c))"
proof (intro conjI impI)
  let ?ms = "filter (\<lambda>d. co_identity d = co_identity c) cs"
  let ?eligible = "filter (\<lambda>c. traffic_address c \<noteq> None) ?ms"
  { assume "(c, a) \<in> set (serving_containers x cs)"
    then have c: "c \<in> set cs" and s: "(c, a) \<in> set (serving_members x ?ms)"
      by (auto simp: serving_containers_iff)
    from s obtain newest where n: "max_by_key creation_key ?eligible = Some newest"
      "traffic_address c = Some a"
      "shape_of_resolved x (co_resolved_spec c) = shape_of_resolved x (co_resolved_spec newest)"
      by (auto simp only: serving_members_iff)
    show "c \<in> set cs"
      by (rule c)
    show "is_healthy (co_runtime c)" "co_address c = Some a"
      using n(2) by (auto simp: traffic_address_def split: if_splits)
    show "\<exists>newest \<in> set cs. co_identity newest = co_identity c \<and> traffic_address newest \<noteq> None
           \<and> shape_of_resolved x (co_resolved_spec c) = shape_of_resolved x (co_resolved_spec newest)
           \<and> (\<forall>d \<in> set cs. co_identity d = co_identity c \<and> traffic_address d \<noteq> None
                \<longrightarrow> creation_key d \<le> creation_key newest)"
      using max_by_key_Some [OF n(1)] n(3) by (intro bexI [of _ newest]) auto }
  { assume c: "c \<in> set cs \<and> traffic_address c \<noteq> None"
    then have "?eligible \<noteq> []"
      by (auto simp: filter_empty_conv)
    then obtain newest where n: "max_by_key creation_key ?eligible = Some newest"
      using max_by_key_None by (metis not_Some_eq)
    then have m: "newest \<in> set cs" "co_identity newest = co_identity c" "traffic_address newest \<noteq> None"
      using max_by_key_Some [OF n] by auto
    then obtain b where b: "traffic_address newest = Some b"
      by auto
    then have "(newest, b) \<in> set (serving_members x ?ms)"
      using n m unfolding serving_members_iff by auto
    with m show "\<exists>d b. (d, b) \<in> set (serving_containers x cs) \<and> co_identity d = co_identity c"
      by (metis serving_containers_iff) }
qed

theorem serving_containers_newest_shape_witness:
  "\<exists>d b. (d, b) \<in> set (serving_containers example_ext
       [example_observation ''c1'' ''m'' 1 (example_resolved ''db'' Global [])])"
proof -
  let ?c = "example_observation ''c1'' ''m'' 1 (example_resolved ''db'' Global [])"
  have "?c \<in> set [?c] \<and> traffic_address ?c \<noteq> None"
    by (simp add: example_observation_def traffic_address_def is_healthy_def)
  then show ?thesis
    using serving_containers_newest_shape [of ?c 1 example_ext "[?c]"] by blast
qed

end
