(* ===== verification/Storage_Capacity.thy ===== *)
theory Storage_Capacity
  imports Names
begin

text \<open>
  \<open>ployz-core/src/storage_capacity.rs\<close>: the provisioning arithmetic that the
  planner and the daemon share. All quantities are \<open>u64\<close> with checked
  additions; the sums that the code takes in \<open>u128\<close> are sums of the values.

  The reference quantities \<open>new_bytes\<close>, \<open>committed_bytes\<close> and \<open>pool_need\<close> are natural
  numbers. The lemma \<open>budget_refines\<close> characterises a returned budget by them, and
  the properties are read off that characterisation.
\<close>

section \<open>Data\<close>


definition STORAGE_GIB :: u64 where
  "STORAGE_GIB = 1024 * 1024 * 1024"

text \<open>The arguments in the order of the source's fields: \<open>Unallocated\<close> has the total and
  the available bytes of the host; \<open>RootBacked\<close> the Pool size, the length and the allocation of
  its backing file, and the host's totals; \<open>Fixed\<close> the Pool size.\<close>

datatype storage_backing =
    Unallocated u64 u64
  | RootBacked u64 u64 u64 u64 u64
  | Fixed u64

record storage_capacity =
  backing :: storage_backing
  unmanaged_used_bytes :: u64
  committed_volumes :: "(docker_volume_name, u64) btree"

record storage_budget =
  requested_bytes :: u64
  additional_commitment_bytes :: u64
  required_growth_bytes :: u64
  available_bytes :: u64
  reserve_bytes :: u64

datatype storage_capacity_error =
    InsufficientStorage u64 u64 u64
  | PoolCannotGrow u64 u64
  | StorageCapacityUnknown string
  | VolumeSizeConflict docker_volume_name

section \<open>Operations\<close>

definition unknown_capacity :: "string \<Rightarrow> storage_capacity_error" where
  "unknown_capacity message = StorageCapacityUnknown message"

definition storage_with_headroom :: "u64 \<Rightarrow> (storage_capacity_error, u64) result" where
  "storage_with_headroom commitment =
     ok_or (unknown_capacity ''commitments overflow u64'')
       (checked_add commitment (max (commitment div 10) STORAGE_GIB))"

definition storage_host_reserve :: "u64 \<Rightarrow> u64" where
  "storage_host_reserve total_bytes = max (total_bytes div 4) (10 * STORAGE_GIB)"

definition storage_growth_target ::
  "u64 \<Rightarrow> u64 \<Rightarrow> u64 \<Rightarrow> (storage_capacity_error, u64) result" where
  "storage_growth_target length_bytes observed minimum =
     (if length_bytes < observed
      then Inl (unknown_capacity ''backing length is below the observed Pool size'')
      else ok_or (unknown_capacity ''Pool growth overflow or inconsistent observation'')
        (Option.bind (checked_sub minimum observed) (\<lambda>extension.
         Option.bind (checked_next_multiple_of extension STORAGE_GIB) (\<lambda>extension.
         checked_add length_bytes extension))))"

definition validate_host :: "u64 \<Rightarrow> u64 \<Rightarrow> (storage_capacity_error, unit) result" where
  "validate_host total_bytes available =
     (if total_bytes = 0 \<or> total_bytes < available
      then Inl (unknown_capacity ''invalid host filesystem capacity'')
      else Inr ())"

text \<open>\<open>try_fold\<close> with \<open>u64::checked_add\<close>.\<close>

definition checked_sum :: "string \<Rightarrow> u64 list \<Rightarrow> u64 \<Rightarrow> (storage_capacity_error, u64) result" where
  "checked_sum message bounds start =
     rfold (\<lambda>maximum total_bytes. ok_or (unknown_capacity message) (checked_add total_bytes maximum)) bounds start"

text \<open>The loop over the request: a bound that is already committed adds nothing.\<close>

definition add_request ::
  "(docker_volume_name, u64) btree \<Rightarrow> docker_volume_name \<times> u64 \<Rightarrow> u64
     \<Rightarrow> (storage_capacity_error, u64) result" where
  "add_request volumes request additional =
     (case bt_get volumes (fst request) of
        Some existing \<Rightarrow>
          (if existing \<noteq> snd request then Inl (VolumeSizeConflict (fst request)) else Inr additional)
      | None \<Rightarrow>
          ok_or (unknown_capacity ''requested bounds overflow u64'')
            (checked_add additional (snd request)))"

text \<open>What each kind of backing gives: the growth, the available bytes, the reserve.\<close>

definition backing_growth ::
  "storage_capacity \<Rightarrow> u64 \<Rightarrow> u64 \<Rightarrow> (storage_capacity_error, u64 \<times> u64 \<times> u64) result" where
  "backing_growth capacity additional minimum =
     (case backing capacity of
        Unallocated total_bytes available \<Rightarrow>
          rbind (validate_host total_bytes available) (\<lambda>_.
          if committed_volumes capacity \<noteq> [] \<or> unmanaged_used_bytes capacity \<noteq> 0
          then Inl (unknown_capacity
            ''an unallocated Pool cannot have existing commitments or occupancy'')
          else rbind
            (if additional = 0 then Inr 0
             else ok_or (unknown_capacity ''initial Pool estimate overflows u64'')
               (checked_add minimum STORAGE_GIB)) (\<lambda>growth.
          Inr (growth, available, storage_host_reserve total_bytes)))
      | RootBacked pool_size backing_length backing_allocated total_bytes available \<Rightarrow>
          rbind (validate_host total_bytes available) (\<lambda>_.
          if pool_size = 0 \<or> pool_size < unmanaged_used_bytes capacity
            \<or> backing_length < pool_size \<or> backing_allocated < backing_length
          then Inl (unknown_capacity
            ''Machine Pool backing is not fully allocated or has inconsistent size'')
          else rbind
            (if minimum \<le> pool_size then Inr backing_allocated
             else storage_growth_target backing_length pool_size minimum) (\<lambda>target.
          Inr (saturating_sub target backing_allocated, available, storage_host_reserve total_bytes)))
      | Fixed pool_size \<Rightarrow>
          if pool_size = 0 \<or> pool_size < unmanaged_used_bytes capacity
          then Inl (unknown_capacity ''fixed Pool occupancy is inconsistent with its size'')
          else if pool_size < minimum then Inl (PoolCannotGrow minimum pool_size)
          else Inr (0, saturating_sub pool_size minimum, 0))"

definition storage_capacity_budget ::
  "storage_capacity \<Rightarrow> (docker_volume_name, u64) btree
     \<Rightarrow> (storage_capacity_error, storage_budget) result" where
  "storage_capacity_budget capacity requested =
     rbind (rfold (add_request (committed_volumes capacity)) requested 0) (\<lambda>additional.
     rbind (checked_sum ''existing commitments overflow u64''
       (bt_values (committed_volumes capacity)) additional) (\<lambda>commitment.
     rbind (checked_sum ''requested bounds overflow u64'' (bt_values requested) 0) (\<lambda>requested_bytes.
     rbind (storage_with_headroom commitment) (\<lambda>with_headroom.
     rbind (ok_or (unknown_capacity ''Pool occupancy overflows u64'')
       (checked_add with_headroom (unmanaged_used_bytes capacity))) (\<lambda>minimum.
     rbind (backing_growth capacity additional minimum) (\<lambda>(growth, available, reserve).
     if 0 < growth \<and> uint available < uint growth + uint reserve
     then Inl (InsufficientStorage growth available reserve)
     else Inr \<lparr> requested_bytes = requested_bytes, additional_commitment_bytes = additional,
        required_growth_bytes = growth, available_bytes = available, reserve_bytes = reserve \<rparr>))))))"

text \<open>The number of missing bytes that an RPC failure reports, clamped to \<open>u64\<close>.\<close>

definition shortfall_bytes :: "u64 \<Rightarrow> u64 \<Rightarrow> u64 \<Rightarrow> u64" where
  "shortfall_bytes growth available reserve =
     of_nat (min ((unat growth + unat reserve) - unat available) (2 ^ 64 - 1))"

section \<open>The reference over natural numbers\<close>

abbreviation GIB :: nat where
  "GIB \<equiv> 2 ^ 30"

definition new_bytes :: "(docker_volume_name, u64) btree \<Rightarrow> (docker_volume_name, u64) btree \<Rightarrow> nat" where
  "new_bytes volumes requested =
     sum_list (map (unat \<circ> snd) (filter (\<lambda>r. bt_get volumes (fst r) = None) requested))"

definition size_conflict ::
  "(docker_volume_name, u64) btree \<Rightarrow> (docker_volume_name, u64) btree \<Rightarrow> docker_volume_name \<Rightarrow> bool" where
  "size_conflict volumes requested name =
     (\<exists>old new. bt_get volumes name = Some old \<and> (name, new) \<in> set requested \<and> old \<noteq> new)"

definition committed_bytes :: "storage_capacity \<Rightarrow> nat" where
  "committed_bytes capacity = sum_list (map unat (bt_values (committed_volumes capacity)))"

text \<open>What the Pool must hold: every commitment, the headroom, the other occupancy.\<close>

definition pool_need :: "storage_capacity \<Rightarrow> (docker_volume_name, u64) btree \<Rightarrow> nat" where
  "pool_need capacity requested =
     (let commitment = new_bytes (committed_volumes capacity) requested + committed_bytes capacity
      in commitment + max (commitment div 10) GIB + unat (unmanaged_used_bytes capacity))"

text \<open>A root-backed Pool with one committed Volume, and a request that reuses it and adds another.\<close>

definition example_capacity :: storage_capacity where
  "example_capacity = \<lparr> backing = RootBacked 4000000000 4294967296 4294967296 536870912000 268435456000,
     unmanaged_used_bytes = 0, committed_volumes = [(''data'', 2147483648)] \<rparr>"

definition example_request :: "(docker_volume_name, u64) btree" where
  "example_request = [(''data'', 2147483648), (''logs'', 3221225472)]"

definition example_budget :: storage_budget where
  "example_budget = \<lparr> requested_bytes = 5368709120, additional_commitment_bytes = 3221225472,
     required_growth_bytes = 3221225472, available_bytes = 268435456000,
     reserve_bytes = 134217728000 \<rparr>"

section \<open>The arithmetic refines the reference\<close>

lemma unat_GIB [simp]: "unat STORAGE_GIB = GIB"
  by (simp add: STORAGE_GIB_def)

lemma unat_div_numeral: "unat (x div numeral n) = unat x div unat (numeral n :: 'a::len word)"
  for x :: "'a::len word"
  by (simp add: unat_div)

lemma storage_with_headroom_ok:
  "storage_with_headroom c = Inr w \<longleftrightarrow> unat w = unat c + max (unat c div 10) GIB"
  by (simp add: storage_with_headroom_def result_simps word_simps unat_div)

lemma unat_host_reserve: "unat (storage_host_reserve t) = max (unat t div 4) (10 * GIB)"
  by (simp add: storage_host_reserve_def STORAGE_GIB_def word_simps unat_div)

lemma storage_growth_target_ok:
  assumes "storage_growth_target l obs m = Inr t"
  shows "obs \<le> l" "obs \<le> m" "unat l + (unat m - unat obs) \<le> unat t"
    and "unat t < unat l + (unat m - unat obs) + GIB" and "GIB dvd unat t - unat l"
proof -
  from assms obtain x y where xy: "checked_sub m obs = Some x"
      "checked_next_multiple_of x STORAGE_GIB = Some y" "checked_add l y = Some t" and le: "obs \<le> l"
    by (auto simp: storage_growth_target_def result_simps bind_eq_Some_conv split: if_splits)
  note m = checked_next_multiple_of_Some [OF xy(2)]
  show "obs \<le> l" by (rule le)
  show "obs \<le> m" "unat l + (unat m - unat obs) \<le> unat t"
    "unat t < unat l + (unat m - unat obs) + GIB" "GIB dvd unat t - unat l"
    using xy m by (auto simp: word_simps word_le_nat_alt)
qed

lemma checked_sum_ok:
  "checked_sum msg xs a = Inr t \<longleftrightarrow> unat t = unat a + sum_list (map unat xs)"
proof (induction xs arbitrary: a)
  case (Cons x xs)
  show ?case
  proof
    assume "checked_sum msg (x # xs) a = Inr t"
    then obtain s where "checked_add a x = Some s" "checked_sum msg xs s = Inr t"
      by (auto simp: checked_sum_def result_simps)
    then show "unat t = unat a + sum_list (map unat (x # xs))"
      by (simp add: Cons.IH word_simps)
  next
    assume sum: "unat t = unat a + sum_list (map unat (x # xs))"
    then have "unat a + unat x < 2 ^ 64"
      using unsigned_less [of t, where ?'a = nat] by simp
    then have s: "unat (a + x) = unat a + unat x"
      by (simp add: unat_word_ariths)
    then have "checked_sum msg xs (a + x) = Inr t"
      using sum by (simp add: Cons.IH)
    moreover have "checked_add a x = Some (a + x)"
      by (simp add: word_simps s)
    ultimately show "checked_sum msg (x # xs) a = Inr t"
      by (simp add: checked_sum_def)
  qed
qed (auto simp: checked_sum_def word_unat_eq_iff)

lemma add_requests_ok:
  "rfold (add_request vols) req a = Inr t
     \<longleftrightarrow> (\<forall>n. \<not> size_conflict vols req n) \<and> unat t = unat a + new_bytes vols req"
proof (induction req arbitrary: a)
  case (Cons r req)
  obtain n m where r: "r = (n, m)"
    by (cases r)
  show ?case
  proof (cases "bt_get vols n")
    case None
    have *: "\<not> size_conflict vols (r # req) k \<longleftrightarrow> \<not> size_conflict vols req k" for k
      using None by (auto simp: size_conflict_def r)
    have "rfold (add_request vols) (r # req) a = Inr t
        \<longleftrightarrow> (\<exists>s. unat s = unat a + unat m \<and> rfold (add_request vols) req s = Inr t)"
      by (auto simp: add_request_def r None result_simps word_simps)
    also have "\<dots> \<longleftrightarrow> (\<forall>n. \<not> size_conflict vols req n)
        \<and> (\<exists>s::u64. unat s = unat a + unat m \<and> unat t = unat s + new_bytes vols req)"
      by (auto simp: Cons.IH)
    also have "(\<exists>s::u64. unat s = unat a + unat m \<and> unat t = unat s + new_bytes vols req)
        \<longleftrightarrow> unat t = unat a + new_bytes vols (r # req)"
    proof
      assume t: "unat t = unat a + new_bytes vols (r # req)"
      then have "unat a + unat m < 2 ^ 64"
        using unsigned_less [of t, where ?'a = nat] None by (simp add: new_bytes_def r)
      then have "unat (a + m) = unat a + unat m"
        by (simp add: unat_word_ariths)
      with t None show "\<exists>s::u64. unat s = unat a + unat m \<and> unat t = unat s + new_bytes vols req"
        by (intro exI [of _ "a + m"]) (simp add: new_bytes_def r)
    qed (auto simp: new_bytes_def r None)
    finally show ?thesis
      using * by simp
  next
    case (Some old)
    have step: "add_request vols r a = (if old \<noteq> m then Inl (VolumeSizeConflict n) else Inr a)"
      by (simp add: add_request_def r Some)
    have "(\<forall>k. \<not> size_conflict vols (r # req) k)
        \<longleftrightarrow> old = m \<and> (\<forall>k. \<not> size_conflict vols req k)"
      using Some by (auto simp: size_conflict_def r)
    moreover have "new_bytes vols (r # req) = new_bytes vols req"
      by (simp add: new_bytes_def r Some)
    ultimately show ?thesis
      by (auto simp: step Cons.IH)
  qed
qed (auto simp: size_conflict_def new_bytes_def word_unat_eq_iff)

lemma budget_refines:
  "storage_capacity_budget capacity requested = Inr b \<longleftrightarrow>
     (\<forall>n. \<not> size_conflict (committed_volumes capacity) requested n)
     \<and> unat (additional_commitment_bytes b) = new_bytes (committed_volumes capacity) requested
     \<and> unat (requested_bytes b) = sum_list (map unat (bt_values requested))
     \<and> (\<exists>minimum. unat minimum = pool_need capacity requested
          \<and> backing_growth capacity (additional_commitment_bytes b) minimum
              = Inr (required_growth_bytes b, available_bytes b, reserve_bytes b))
     \<and> (required_growth_bytes b = 0
          \<or> unat (required_growth_bytes b) + unat (reserve_bytes b) \<le> unat (available_bytes b))"
  (is "?lhs \<longleftrightarrow> ?rhs")
proof
  assume ?lhs
  then obtain additional commitment requested_sum with_headroom minimum growth available reserve where
    a: "rfold (add_request (committed_volumes capacity)) requested 0 = Inr additional" and
    c: "checked_sum ''existing commitments overflow u64''
          (bt_values (committed_volumes capacity)) additional = Inr commitment" and
    r: "checked_sum ''requested bounds overflow u64'' (bt_values requested) 0 = Inr requested_sum" and
    h: "storage_with_headroom commitment = Inr with_headroom" and
    m: "checked_add with_headroom (unmanaged_used_bytes capacity) = Some minimum" and
    g: "backing_growth capacity additional minimum = Inr (growth, available, reserve)" and
    fit: "\<not> (0 < growth \<and> unat available < unat growth + unat reserve)" and
    b: "b = \<lparr> requested_bytes = requested_sum, additional_commitment_bytes = additional,
        required_growth_bytes = growth, available_bytes = available, reserve_bytes = reserve \<rparr>"
    unfolding storage_capacity_budget_def result_simps uint_less_add_unat by (auto split: if_splits)
  have "unat minimum = pool_need capacity requested"
    using a c h m
    by (simp add: add_requests_ok checked_sum_ok storage_with_headroom_ok word_simps
        pool_need_def committed_bytes_def Let_def)
  with a c r g fit show ?rhs
    by (auto simp: b add_requests_ok checked_sum_ok word_gt_0)
next
  assume r: ?rhs
  then obtain minimum where m: "unat minimum = pool_need capacity requested" and
    g: "backing_growth capacity (additional_commitment_bytes b) minimum
          = Inr (required_growth_bytes b, available_bytes b, reserve_bytes b)"
    by blast
  define c where "c = unat (additional_commitment_bytes b) + committed_bytes capacity"
  have need: "pool_need capacity requested
      = c + max (c div 10) GIB + unat (unmanaged_used_bytes capacity)"
    using r by (simp add: pool_need_def Let_def c_def)
  have lt: "pool_need capacity requested < 2 ^ 64"
    using m unsigned_less [of minimum, where ?'a = nat] by simp
  obtain commitment :: u64 where com: "unat commitment = c"
    using lt need ex_word [of c, where ?'a = 64] by auto
  obtain headroom :: u64 where hr: "unat headroom = c + max (c div 10) GIB"
    using lt need ex_word [of "c + max (c div 10) GIB", where ?'a = 64] by auto
  have "rfold (add_request (committed_volumes capacity)) requested 0
      = Inr (additional_commitment_bytes b)"
    using r by (simp add: add_requests_ok)
  moreover have "checked_sum ''existing commitments overflow u64''
      (bt_values (committed_volumes capacity)) (additional_commitment_bytes b) = Inr commitment"
    by (simp add: checked_sum_ok com c_def committed_bytes_def)
  moreover have "checked_sum ''requested bounds overflow u64'' (bt_values requested) 0
      = Inr (requested_bytes b)"
    using r by (simp add: checked_sum_ok)
  moreover have "storage_with_headroom commitment = Inr headroom"
    by (simp add: storage_with_headroom_ok com hr)
  moreover have "checked_add headroom (unmanaged_used_bytes capacity) = Some minimum"
    using m by (simp add: word_simps hr need)
  ultimately show ?lhs
    using r g unfolding storage_capacity_budget_def uint_less_add_unat by (auto simp: word_gt_0)
qed

section \<open>Fewer requests never need more\<close>

lemma storage_growth_target_mono:
  assumes "storage_growth_target l obs m = Inr t" and "obs \<le> n" and "n \<le> m"
  shows "\<exists>u. storage_growth_target l obs n = Inr u \<and> u \<le> t"
proof -
  from assms(1) obtain x y where xy: "checked_sub m obs = Some x"
      "checked_next_multiple_of x STORAGE_GIB = Some y" "checked_add l y = Some t" and le: "obs \<le> l"
    by (auto simp: storage_growth_target_def result_simps bind_eq_Some_conv split: if_splits)
  have x': "checked_sub n obs = Some (n - obs)"
    using assms(2) by (simp add: checked_sub_def)
  moreover have "n - obs \<le> x"
    using x' xy(1) assms(3) by (simp add: word_simps word_le_nat_alt)
  from checked_next_multiple_of_mono [OF xy(2) this] obtain d where
    d: "checked_next_multiple_of (n - obs) STORAGE_GIB = Some d" "d \<le> y"
    by blast
  moreover have sum: "unat l + unat d < 2 ^ 64"
    using xy(3) d(2) unsigned_less [of t, where ?'a = nat] by (simp add: word_simps word_le_nat_alt)
  then have "checked_add l d = Some (l + d)"
    by (simp add: checked_add_unat)
  ultimately have "storage_growth_target l obs n = Inr (l + d)"
    using le by (simp add: storage_growth_target_def linorder_not_less)
  moreover have "l + d \<le> t"
    using sum xy(3) d(2) by (simp add: word_simps word_le_nat_alt unat_word_ariths)
  ultimately show ?thesis
    by blast
qed

lemma backing_growth_mono:
  assumes "backing_growth capacity a m = Inr (g, av, rs)" and "a' \<le> a" and "m' \<le> m"
  shows "\<exists>g' av'. backing_growth capacity a' m' = Inr (g', av', rs) \<and> g' \<le> g \<and> av \<le> av'"
proof (cases "backing capacity")
  case (Unallocated total_bytes available)
  have "\<exists>s. checked_add m' STORAGE_GIB = Some s \<and> unat s \<le> unat t"
    if "checked_add m STORAGE_GIB = Some t" for t
  proof -
    have "unat m' + GIB < 2 ^ 64"
      using that assms(3) unsigned_less [of t, where ?'a = nat] by (simp add: word_simps word_le_nat_alt)
    then have "unat (m' + STORAGE_GIB) = unat m' + GIB"
      by (simp add: unat_word_ariths)
    with that assms(3) show ?thesis
      by (intro exI [of _ "m' + STORAGE_GIB"]) (simp add: word_simps word_le_nat_alt)
  qed
  with assms Unallocated show ?thesis
    by (auto simp: backing_growth_def result_simps word_le_nat_alt unsigned_eq_0_iff split: if_splits)
next
  case (RootBacked ps bl ba total_bytes available)
  have "\<exists>t'. (if m' \<le> ps then Inr ba else storage_growth_target bl ps m') = Inr t'
      \<and> saturating_sub t' ba \<le> saturating_sub t ba"
    if "(if m \<le> ps then Inr ba else storage_growth_target bl ps m) = Inr t" for t
  proof (cases "m' \<le> ps")
    case False
    with assms(3) that have "storage_growth_target bl ps m = Inr t" "ps \<le> m'"
      by (auto split: if_splits)
    from storage_growth_target_mono [OF this assms(3)] False show ?thesis
      by (auto simp: word_simps word_le_nat_alt)
  qed (auto simp: word_simps word_le_nat_alt)
  with assms RootBacked show ?thesis
    by (fastforce simp: backing_growth_def result_simps split: if_splits)
next
  case (Fixed ps)
  with assms show ?thesis
    by (auto simp: backing_growth_def result_simps word_simps word_le_nat_alt word_less_nat_alt
        split: if_splits)
qed

lemma sum_list_submap_le:
  assumes "bt_wf xs" and "bt_wf ys" and "set xs \<subseteq> set ys"
  shows "sum_list (map (f :: 'k::linorder \<times> 'v \<Rightarrow> nat) (filter P xs))
    \<le> sum_list (map f (filter P ys))"
proof -
  have d: "distinct (filter P zs)" if "bt_wf zs" for zs :: "('k \<times> 'v) list"
    using bt_wf_distinct [OF that] by (auto intro: distinct_filter simp: distinct_map)
  show ?thesis
    unfolding sum_list_distinct_conv_sum_set [OF d [OF assms(1)]]
      sum_list_distinct_conv_sum_set [OF d [OF assms(2)]]
    using assms(3) by (intro sum_mono2) auto
qed

lemma pool_need_mono:
  "new_bytes (committed_volumes c) r' \<le> new_bytes (committed_volumes c) r
     \<Longrightarrow> pool_need c r' \<le> pool_need c r"
  unfolding pool_need_def Let_def
  by (intro add_mono max.mono div_le_mono order_refl) auto

lemma example_admitted: "storage_capacity_budget example_capacity example_request = Inr example_budget"
  by code_simp

section \<open>Properties\<close>

text \<open>An admitted request fits its Pool once the Pool has grown by the reported amount.\<close>

lemma budget_sufficient:
  assumes "storage_capacity_budget capacity requested = Inr b"
  shows "case backing capacity of
      Unallocated _ _ \<Rightarrow> new_bytes (committed_volumes capacity) requested = 0
        \<or> unat (required_growth_bytes b) = pool_need capacity requested + GIB
    | RootBacked ps bl ba _ _ \<Rightarrow>
        pool_need capacity requested + (unat bl - unat ps) \<le> unat ba + unat (required_growth_bytes b)
    | Fixed ps \<Rightarrow> pool_need capacity requested \<le> unat ps"
proof -
  from assms obtain minimum where m: "unat minimum = pool_need capacity requested" and
    a: "unat (additional_commitment_bytes b) = new_bytes (committed_volumes capacity) requested" and
    g: "backing_growth capacity (additional_commitment_bytes b) minimum
          = Inr (required_growth_bytes b, available_bytes b, reserve_bytes b)"
    unfolding budget_refines by blast
  show ?thesis
  proof (cases "backing capacity")
    case (Unallocated total_bytes available)
    with g m a show ?thesis
      by (auto simp: backing_growth_def result_simps word_simps split: if_splits)
  next
    case (RootBacked ps bl ba total_bytes available)
    with g obtain t where
      t: "(if minimum \<le> ps then Inr ba else storage_growth_target bl ps minimum) = Inr t"
      and growth: "required_growth_bytes b = saturating_sub t ba"
      and order: "ps \<le> bl" "bl \<le> ba"
      by (auto simp: backing_growth_def result_simps split: if_splits)
    show ?thesis
    proof (cases "minimum \<le> ps")
      case True
      with RootBacked order m show ?thesis
        by (simp add: word_le_nat_alt)
    next
      case False
      with t have "storage_growth_target bl ps minimum = Inr t"
        by simp
      from storage_growth_target_ok [OF this] RootBacked growth order m show ?thesis
        by (simp add: word_simps word_le_nat_alt)
    qed
  next
    case (Fixed ps)
    with g m show ?thesis
      by (auto simp: backing_growth_def result_simps word_less_nat_alt split: if_splits)
  qed
qed



text \<open>Claim C28. Storage admission is monotone: whatever subset of an admitted request is
  evaluated alone is admitted too, and needs no more growth. So a plan that drops Volumes
  from a deployment never turns an admissible deployment into a refused one.\<close>

theorem storage_budget_mono:
  assumes "storage_capacity_budget capacity requested = Inr b"
    and "bt_wf requested" and "bt_wf fewer" and "set fewer \<subseteq> set requested"
  shows "\<exists>b'. storage_capacity_budget capacity fewer = Inr b'
    \<and> required_growth_bytes b' \<le> required_growth_bytes b"
proof -
  let ?vols = "committed_volumes capacity"
  from assms(1) obtain minimum where
    conflict: "\<forall>n. \<not> size_conflict ?vols requested n" and
    a: "unat (additional_commitment_bytes b) = new_bytes ?vols requested" and
    r: "unat (requested_bytes b) = sum_list (map unat (bt_values requested))" and
    m: "unat minimum = pool_need capacity requested" and
    g: "backing_growth capacity (additional_commitment_bytes b) minimum
          = Inr (required_growth_bytes b, available_bytes b, reserve_bytes b)" and
    fit: "required_growth_bytes b = 0
      \<or> unat (required_growth_bytes b) + unat (reserve_bytes b) \<le> unat (available_bytes b)"
    unfolding budget_refines by blast
  have new: "new_bytes ?vols fewer \<le> new_bytes ?vols requested"
    unfolding new_bytes_def by (rule sum_list_submap_le [OF assms(3,2,4)])
  have req: "sum_list (map unat (bt_values fewer)) \<le> unat (requested_bytes b)"
    using sum_list_submap_le [OF assms(3,2,4), of "unat \<circ> snd" "\<lambda>_. True"] by (simp add: r)
  obtain a' :: u64 where a': "unat a' = new_bytes ?vols fewer"
    using ex_word_le [OF new [folded a]] by blast
  obtain r' :: u64 where r': "unat r' = sum_list (map unat (bt_values fewer))"
    using ex_word_le [OF req] by blast
  obtain m' :: u64 where m': "unat m' = pool_need capacity fewer"
    using ex_word_le [OF pool_need_mono [OF new, folded m]] by blast
  have "a' \<le> additional_commitment_bytes b" "m' \<le> minimum"
    using a a' m m' new pool_need_mono [OF new] by (simp_all add: word_le_nat_alt)
  from backing_growth_mono [OF g this] obtain g' av' where
    g': "backing_growth capacity a' m' = Inr (g', av', reserve_bytes b)"
    "g' \<le> required_growth_bytes b" "available_bytes b \<le> av'"
    by blast
  let ?b' = "\<lparr> requested_bytes = r', additional_commitment_bytes = a',
    required_growth_bytes = g', available_bytes = av', reserve_bytes = reserve_bytes b \<rparr>"
  have "\<not> size_conflict ?vols fewer n" for n
    using conflict assms(4) by (auto simp: size_conflict_def)
  moreover have "g' = 0 \<or> unat g' + unat (reserve_bytes b) \<le> unat av'"
    using fit g'(2,3) by (auto simp: word_le_nat_alt unsigned_eq_0_iff)
  ultimately have "storage_capacity_budget capacity fewer = Inr ?b'"
    unfolding budget_refines using a' r' m' g'(1) by auto
  with g'(2) show ?thesis
    by auto
qed

theorem storage_budget_mono_witness:
  "\<exists>b. storage_capacity_budget example_capacity [(''logs'', 3221225472)] = Inr b
     \<and> required_growth_bytes b \<le> required_growth_bytes example_budget"
  by (rule storage_budget_mono [OF example_admitted])
    (simp_all add: bt_wf_def example_request_def)

end
