(* ===== verification/Deploy_Model.thy ===== *)
theory Deploy_Model
  imports Observation Storage_Capacity
begin

text \<open>
  What a Deploy is made of: the Intent, the plan options, the operations, the outcomes and the
  rows of a preview (\<open>ployz-core/src/domain/deploy.rs\<close>), and the evidence the planner reads: the
  Volume snapshot, the Deploy snapshot and the planner's errors (\<open>ployz/src/deploy.rs\<close>).

  The Services a command applies are the closure of its selection under dependencies that the
  target declares (claim on \<open>applied_names\<close>); a Volume snapshot that validates has at most one
  piece of evidence per Volume and none that contradicts an inventory gap (lemma
  \<open>try_from_parts_exact\<close>).
\<close>

section \<open>Errors of the RPC layer\<close>

datatype rpc_error_code =
    InvalidArgument | NotFound | Ambiguous | Unsupported | Unavailable | Conflict | Internal
  | Unauthenticated | ConfirmationRequired | Unknown_Code string

record rpc_error =
  rpc_code :: rpc_error_code
  rpc_message :: string
  rpc_details :: json_value

record 'e machine_failure =
  mf_machine_id :: machine_id
  mf_error :: 'e

record 'a machine_success =
  ms_machine_id :: machine_id
  ms_value :: 'a

record ('a, 'e) partial_result =
  pr_successes :: "'a machine_success list"
  pr_failures :: "'e machine_failure list"
  pr_omissions :: "machine_id list"

section \<open>Intent\<close>

text \<open>\<open>ServiceAttempt\<close> has the name of the Service as its only field.\<close>

record plan_options =
  po_force_recreate :: bool
  po_skip_health_monitor :: bool
  po_placement_seed :: u64
  po_selected :: "service_name list"

definition plan_options_default :: plan_options where
  "plan_options_default =
     \<lparr> po_force_recreate = False, po_skip_health_monitor = False, po_placement_seed = 0,
       po_selected = [] \<rparr>"

datatype dependency_condition = ServiceStarted | ServiceHealthy

record service_dependency =
  sd_service :: service_name
  sd_condition :: dependency_condition

record registry_auth =
  ra_username :: "string option"
  ra_password :: string

record deploy_intent =
  di_namespace :: namespace
  di_target :: "requested_service_spec list"
  di_options :: plan_options
  di_dependencies :: "(service_name, service_dependency list) btree"
  di_registry_auth :: "(service_name, registry_auth) btree"

definition intent_new :: "namespace \<Rightarrow> requested_service_spec list \<Rightarrow> plan_options \<Rightarrow> deploy_intent" where
  "intent_new namespace target options =
     \<lparr> di_namespace = namespace, di_target = target, di_options = options,
       di_dependencies = [], di_registry_auth = [] \<rparr>"

definition apply_all :: "namespace \<Rightarrow> requested_service_spec list \<Rightarrow> plan_options \<Rightarrow> deploy_intent" where
  "apply_all namespace specs options = intent_new namespace specs options"

definition apply_one :: "namespace \<Rightarrow> requested_service_spec \<Rightarrow> plan_options \<Rightarrow> deploy_intent" where
  "apply_one namespace spec options =
     intent_new namespace [spec] (options\<lparr> po_selected := [rq_name spec] \<rparr>)"

definition with_dependencies ::
  "deploy_intent \<Rightarrow> (service_name, service_dependency list) btree \<Rightarrow> deploy_intent" where
  "with_dependencies intent dependencies = intent\<lparr> di_dependencies := dependencies \<rparr>"

definition from_named_specs ::
  "namespace \<Rightarrow> (string, requested_service_spec) btree
     \<Rightarrow> (string, service_dependency list) btree \<Rightarrow> plan_options \<Rightarrow> deploy_intent" where
  "from_named_specs namespace services dependencies options =
     with_dependencies (intent_new namespace (bt_values services) options)
       (bt_collect (List.map_filter (\<lambda>(name, deps).
          map_option (\<lambda>service.
              (rq_name service, filter (\<lambda>dependency. bt_contains services (sd_service dependency)) deps))
            (bt_get services name)) dependencies))"

definition dependencies_of ::
  "(service_name, service_dependency list) btree \<Rightarrow> service_name \<Rightarrow> service_dependency list" where
  "dependencies_of dependencies name =
     (case bt_get dependencies name of None \<Rightarrow> [] | Some deps \<Rightarrow> deps)"

lemma set_butlast_last: "xs \<noteq> [] \<Longrightarrow> set xs = insert (last xs) (set (butlast xs))"
  by (cases xs rule: rev_cases) auto

text \<open>The loop of \<open>applied_names\<close>; the top of the stack is the last element of \<open>pending\<close>. It
  ends because every name enters \<open>included\<close> once, and names are pushed only when one enters.\<close>

function applied_loop ::
  "service_name list \<Rightarrow> (service_name, service_dependency list) btree
     \<Rightarrow> service_name list \<Rightarrow> service_name list \<Rightarrow> service_name list" where
  "applied_loop present dependencies pending included =
     (if pending = [] then included
      else
        let name = last pending; rest = butlast pending in
        if name \<in> set included then applied_loop present dependencies rest included
        else applied_loop present dependencies
               (rest @ filter (\<lambda>dependency. dependency \<in> set present)
                         (map sd_service (dependencies_of dependencies name)))
               (bs_insert name included))"
  by pat_completeness auto

termination
proof (relation "measures [\<lambda>(present, _, pending, included).
    card ((set present \<union> set pending) - set included), \<lambda>(_, _, pending, _). length pending]",
  goal_cases)
  case (2 present deps pending included x xa)
  then have "(set present \<union> set xa) - set included \<subseteq> (set present \<union> set pending) - set included"
    using set_butlast_last by auto
  from card_mono [OF _ this] 2 show ?case
    by auto
next
  case (3 present deps pending included x xa)
  then have "(set present \<union> set (xa @ filter (\<lambda>d. d \<in> set present)
      (map sd_service (dependencies_of deps x)))) - set (bs_insert x included)
      \<subset> (set present \<union> set pending) - set included"
    using set_butlast_last [of pending] by auto
  from psubset_card_mono [OF _ this] show ?case
    by auto
qed simp

declare applied_loop.simps [simp del]

definition target_names :: "deploy_intent \<Rightarrow> service_name list" where
  "target_names intent = map rq_name (di_target intent)"

definition applied_names :: "deploy_intent \<Rightarrow> service_name list" where
  "applied_names intent =
     (if po_selected (di_options intent) = [] then bs_collect (target_names intent)
      else
        let present = bs_collect (target_names intent) in
        applied_loop present (di_dependencies intent)
          (filter (\<lambda>name. name \<in> set present) (po_selected (di_options intent))) [])"

datatype prune_refusal_kind = IncompleteSnapshot | SelectedServices

definition prune_refusal :: "deploy_intent \<Rightarrow> bool \<Rightarrow> prune_refusal_kind option" where
  "prune_refusal intent snapshot_complete =
     (if \<not> snapshot_complete then Some IncompleteSnapshot
      else if po_selected (di_options intent) \<noteq> [] then Some SelectedServices
      else None)"

section \<open>Operations and outcomes\<close>

record replacement_operation =
  rep_machine_id :: machine_id
  rep_old_container_id :: container_id
  rep_spec :: resolved_service_spec
  rep_skip_health_monitor :: bool

datatype stop_container_purpose = Lifecycle | FreeHostPorts

text \<open>The arguments in the order of the source's fields.\<close>

datatype deploy_operation =
    PrepareVolumes machine_id "service_storage_spec list"
  | WaitHealthy machine_id qualified_service qualified_service
  | RunContainer machine_id resolved_service_spec bool
  | StopContainer machine_id container_id stop_container_purpose
  | RemoveContainer machine_id container_id
  | ReplaceContainer replacement_operation
  | StopHook machine_id container_id
  | RunHook machine_id resolved_service_spec "(machine_id \<times> container_id) list"
  | RemoveVolume docker_volume_id

fun op_machine_id :: "deploy_operation \<Rightarrow> machine_id" where
  "op_machine_id (PrepareVolumes machine_id _) = machine_id"
| "op_machine_id (WaitHealthy machine_id _ _) = machine_id"
| "op_machine_id (RunContainer machine_id _ _) = machine_id"
| "op_machine_id (StopContainer machine_id _ _) = machine_id"
| "op_machine_id (RemoveContainer machine_id _) = machine_id"
| "op_machine_id (StopHook machine_id _) = machine_id"
| "op_machine_id (RunHook machine_id _ _) = machine_id"
| "op_machine_id (ReplaceContainer replacement) = rep_machine_id replacement"
| "op_machine_id (RemoveVolume vid) = volume_machine_id vid"

fun op_service_name :: "deploy_operation \<Rightarrow> service_name option" where
  "op_service_name (WaitHealthy _ dependent _) = Some (qs_name dependent)"
| "op_service_name (RunContainer _ spec _) = Some (rs_name spec)"
| "op_service_name (RunHook _ spec _) = Some (rs_name spec)"
| "op_service_name (ReplaceContainer replacement) = Some (rs_name (rep_spec replacement))"
| "op_service_name _ = None"

fun op_container_id :: "deploy_operation \<Rightarrow> container_id option" where
  "op_container_id (StopContainer _ container_id _) = Some container_id"
| "op_container_id (RemoveContainer _ container_id) = Some container_id"
| "op_container_id (StopHook _ container_id) = Some container_id"
| "op_container_id (ReplaceContainer replacement) = Some (rep_old_container_id replacement)"
| "op_container_id _ = None"

fun op_spec :: "deploy_operation \<Rightarrow> resolved_service_spec option" where
  "op_spec (RunContainer _ spec _) = Some spec"
| "op_spec (RunHook _ spec _) = Some spec"
| "op_spec (ReplaceContainer replacement) = Some (rep_spec replacement)"
| "op_spec _ = None"

datatype 'e stop_attempt = Stopped | Stop_Failed 'e

definition attempt_stopped :: "'e stop_attempt \<Rightarrow> bool" where
  "attempt_stopped attempt = (case attempt of Stopped \<Rightarrow> True | Stop_Failed _ \<Rightarrow> False)"

definition stop_attempt_from :: "('e, unit) result \<Rightarrow> 'e stop_attempt" where
  "stop_attempt_from r = (case r of Inr _ \<Rightarrow> Stopped | Inl error \<Rightarrow> Stop_Failed error)"

datatype 'e restart_attempt = Restarted | Restart_Failed 'e

definition attempt_restarted :: "'e restart_attempt \<Rightarrow> bool" where
  "attempt_restarted attempt = (case attempt of Restarted \<Rightarrow> True | Restart_Failed _ \<Rightarrow> False)"

definition restart_attempt_from :: "('e, unit) result \<Rightarrow> 'e restart_attempt" where
  "restart_attempt_from r = (case r of Inr _ \<Rightarrow> Restarted | Inl error \<Rightarrow> Restart_Failed error)"

datatype 'e replacement_compensation =
    OldUntouched "'e stop_attempt"
  | OldStopped "'e stop_attempt option" "'e restart_attempt"

datatype 'e failed_operation =
    Failed_Operation deploy_operation 'e
  | Failed_Replacement replacement_operation 'e "'e replacement_compensation"

datatype 'e deploy_outcome =
    Deploy_Success "deploy_operation list"
  | Deploy_Failed "deploy_operation list" "'e failed_operation" "deploy_operation list"

datatype machine_action =
    Action_PrepareVolumes | Action_CreateContainer | Action_StartContainer
  | Action_InspectContainer | Action_StopContainer | Action_RemoveContainer | Action_RemoveVolume

datatype health_failure =
    Health_Cancelled | Health_TimedOut | Health_Runtime container_runtime_observation

datatype dependency_health_failure =
    Dependency_Cancelled
  | NoContainers
  | Dependency_Observation rpc_error
  | Dependency_Container container_id health_failure

datatype hook_failure =
    Hook_Cancelled "rpc_error option"
  | Hook_TimedOut "rpc_error option"
  | Hook_Exit int

datatype execution_error =
    Machine_Error machine_action rpc_error
  | Health_Error container_id health_failure
  | DependencyHealth qualified_service dependency_health_failure
  | Hook_Error container_id hook_failure
  | Cancelled

section \<open>Preview\<close>

datatype operation_phase =
    Phase_Starting
  | CreatingContainer
  | StartingContainer
  | WaitingForHealth container_id "health_observation option" u64 u64
  | WaitingForHook container_id u64 u64
  | StoppingContainer
  | RemovingContainer
  | RemovingVolume
  | Compensating

datatype operation_status =
    Row_Pending
  | Row_Running operation_phase
  | Row_Completed
  | Row_Failed execution_error
  | Row_Unexecuted

record operation_row =
  row_index :: u32
  row_machine_id :: machine_id
  row_machine_name :: "machine_name option"
  row_operation :: deploy_operation
  row_display_name :: "string option"
  row_service_name :: "service_name option"
  row_status :: operation_status

definition or_else :: "'a option \<Rightarrow> 'a option \<Rightarrow> 'a option" where
  "or_else x y = (case x of None \<Rightarrow> y | Some v \<Rightarrow> Some v)"

definition row_service :: "operation_row \<Rightarrow> service_name option" where
  "row_service row = or_else (row_service_name row) (op_service_name (row_operation row))"

definition row_pending ::
  "u32 \<Rightarrow> deploy_operation \<Rightarrow> machine_name option \<Rightarrow> string option \<Rightarrow> service_name option \<Rightarrow> operation_row" where
  "row_pending index operation machine_name display_name service_name =
     \<lparr> row_index = index, row_machine_id = op_machine_id operation, row_machine_name = machine_name,
       row_operation = operation, row_display_name = display_name,
       row_service_name = or_else service_name (op_service_name operation),
       row_status = Row_Pending \<rparr>"

datatype observation_kind = Container_Kind | Volume_Kind

text \<open>The display text of a Volume failure is the pair it is formatted from.\<close>

datatype warning_message = Rpc_Message string | Volume_Failure_Message docker_volume_id rpc_error

datatype deploy_warning =
    StorageHeadroom machine_id u64
  | UnbudgetedDiskUsage
  | ObservationFailed observation_kind machine_id warning_message
  | ObservationOmitted observation_kind machine_id
  | StorageObservationUnknown machine_id
  | IngressHostname string
  | ObserverRelativeHostnameConflict
  | SkippedDependencyHealth qualified_service qualified_service

record volume_to_create =
  vc_machine_id :: machine_id
  vc_machine_name :: "machine_name option"
  vc_name :: docker_volume_name
  vc_maximum_bytes :: "u64 option"

record preserved_volume =
  pv_id :: docker_volume_id
  pv_machine_name :: "machine_name option"

record machine_storage_budget =
  msb_machine_id :: machine_id
  msb_machine_name :: machine_name
  msb_budget :: storage_budget

record deploy_preview =
  dp_storage :: "machine_storage_budget list"
  dp_namespace :: namespace
  dp_operations :: "operation_row list"
  dp_warnings :: "deploy_warning list"
  dp_volumes_to_create :: "volume_to_create list"
  dp_would_remove :: "qualified_service list"
  dp_preserved_volumes :: "preserved_volume list"
  dp_prune_refusal :: "prune_refusal_kind option"

definition preview_new :: "operation_row list \<Rightarrow> deploy_warning list \<Rightarrow> namespace \<Rightarrow> deploy_preview" where
  "preview_new operations warnings namespace =
     \<lparr> dp_storage = [], dp_namespace = namespace, dp_operations = operations,
       dp_warnings = warnings, dp_volumes_to_create = [], dp_would_remove = [],
       dp_preserved_volumes = [], dp_prune_refusal = None \<rparr>"

definition preview_noop :: "deploy_preview \<Rightarrow> bool" where
  "preview_noop preview = (dp_operations preview = [])"

section \<open>Volume evidence\<close>

record volume_observation_failure =
  vf_id :: docker_volume_id
  vf_error :: rpc_error

record volume_inventory =
  vi_volumes :: "docker_volume list"
  vi_failures :: "volume_observation_failure list"

record volume_snapshot =
  vsn_observations :: "docker_volume list"
  vsn_named_failures :: "volume_observation_failure list"
  vsn_machine_failures :: "rpc_error machine_failure list"
  vsn_omissions :: "machine_id list"

text \<open>The errors of \<open>validate\<close>, one per message; their code is \<open>InvalidArgument\<close>, and
  \<open>from_partial\<close> turns it into \<open>Internal\<close>.\<close>

datatype volume_snapshot_error =
    Observation_Repeated docker_volume_id
  | Evidence_Repeated docker_volume_id
  | Inventory_Failure_Repeated machine_id
  | Inventory_Gap_Repeated machine_id
  | Evidence_Contradicts_Gap docker_volume_id

definition insert_new :: "('a \<Rightarrow> 'e) \<Rightarrow> 'a::linorder \<Rightarrow> 'a list \<Rightarrow> ('e, 'a list) result" where
  "insert_new repeated a s = (if a \<in> set s then Inl (repeated a) else Inr (bs_insert a s))"

definition volume_snapshot_validate :: "volume_snapshot \<Rightarrow> (volume_snapshot_error, unit) result" where
  "volume_snapshot_validate snapshot =
     rbind (rfold (insert_new Observation_Repeated)
       (map dv_id (vsn_observations snapshot)) []) (\<lambda>observed.
     rbind (rfold (insert_new Evidence_Repeated)
       (map vf_id (vsn_named_failures snapshot)) observed) (\<lambda>ids.
     rbind (rfold (insert_new Inventory_Failure_Repeated)
       (map mf_machine_id (vsn_machine_failures snapshot)) []) (\<lambda>failed.
     rbind (rfold (insert_new Inventory_Gap_Repeated) (vsn_omissions snapshot) failed) (\<lambda>machine_gaps.
     case List.find (\<lambda>vid. volume_machine_id vid \<in> set machine_gaps) ids of
       Some vid \<Rightarrow> Inl (Evidence_Contradicts_Gap vid)
     | None \<Rightarrow> Inr ()))))"

definition try_from_parts ::
  "docker_volume list \<Rightarrow> volume_observation_failure list \<Rightarrow> rpc_error machine_failure list
     \<Rightarrow> machine_id list \<Rightarrow> (volume_snapshot_error, volume_snapshot) result" where
  "try_from_parts observations named_failures machine_failures omissions =
     (let snapshot = \<lparr> vsn_observations = observations, vsn_named_failures = named_failures,
            vsn_machine_failures = machine_failures, vsn_omissions = omissions \<rparr>
      in rbind (volume_snapshot_validate snapshot) (\<lambda>_. Inr snapshot))"

definition try_from_observations ::
  "docker_volume list \<Rightarrow> (volume_snapshot_error, volume_snapshot) result" where
  "try_from_observations observations = try_from_parts observations [] [] []"

definition volume_snapshot_from_partial ::
  "(volume_inventory, rpc_error) partial_result \<Rightarrow> (volume_snapshot_error, volume_snapshot) result" where
  "volume_snapshot_from_partial parts =
     try_from_parts (concat (map (\<lambda>s. vi_volumes (ms_value s)) (pr_successes parts)))
       (concat (map (\<lambda>s. vi_failures (ms_value s)) (pr_successes parts)))
       (pr_failures parts) (pr_omissions parts)"

definition known_ids :: "volume_snapshot \<Rightarrow> docker_volume_id list" where
  "known_ids snapshot =
     map dv_id (vsn_observations snapshot) @ map vf_id (vsn_named_failures snapshot)"

definition affects_required ::
  "rpc_error machine_failure list \<Rightarrow> machine_id list \<Rightarrow> machine_id list \<Rightarrow> bool" where
  "affects_required failures omissions required =
     (list_ex (\<lambda>failure. mf_machine_id failure \<in> set required) failures
        \<or> list_ex (\<lambda>machine. machine \<in> set required) omissions)"

definition volumes_affect_required :: "volume_snapshot \<Rightarrow> machine_id list \<Rightarrow> bool" where
  "volumes_affect_required snapshot required =
     (affects_required (vsn_machine_failures snapshot) (vsn_omissions snapshot) required
        \<or> list_ex (\<lambda>failure. volume_machine_id (vf_id failure) \<in> set required) (vsn_named_failures snapshot))"

text \<open>Why a Machine's inventory is missing: the failure's message, or no response.\<close>

datatype inventory_gap = Inventory_Failed string | No_Terminal_Response

definition machine_gap :: "volume_snapshot \<Rightarrow> machine_id \<Rightarrow> inventory_gap option" where
  "machine_gap snapshot machine_id =
     or_else
       (map_option (\<lambda>failure. Inventory_Failed (rpc_message (mf_error failure)))
          (List.find (\<lambda>failure. mf_machine_id failure = machine_id) (vsn_machine_failures snapshot)))
       (if machine_id \<in> set (vsn_omissions snapshot) then Some No_Terminal_Response else None)"

definition named_gap ::
  "volume_snapshot \<Rightarrow> (docker_volume_id \<Rightarrow> bool) \<Rightarrow> (docker_volume_id \<times> rpc_error) option" where
  "named_gap snapshot relevant =
     map_option (\<lambda>failure. (vf_id failure, vf_error failure))
       (List.find (\<lambda>failure. relevant (vf_id failure)) (vsn_named_failures snapshot))"

definition snapshot_deploy_warnings :: "volume_snapshot \<Rightarrow> deploy_warning list" where
  "snapshot_deploy_warnings snapshot =
     map (\<lambda>failure. ObservationFailed Volume_Kind (mf_machine_id failure)
        (Rpc_Message (rpc_message (mf_error failure)))) (vsn_machine_failures snapshot)
     @ map (ObservationOmitted Volume_Kind) (vsn_omissions snapshot)
     @ map (\<lambda>failure. ObservationFailed Volume_Kind (volume_machine_id (vf_id failure))
        (Volume_Failure_Message (vf_id failure) (vf_error failure))) (vsn_named_failures snapshot)"

section \<open>Deploy snapshot\<close>

definition is_active_runtime :: "container_runtime_observation \<Rightarrow> bool" where
  "is_active_runtime runtime =
     (case runtime of Running _ \<Rightarrow> True | Paused \<Rightarrow> True | Restarting \<Rightarrow> True | _ \<Rightarrow> False)"

record deploy_snapshot =
  ds_machines :: "machine_observation list"
  ds_storage_capacity :: "(machine_id, (rpc_error, storage_capacity) result) btree"
  ds_containers :: "container_observation list"
  ds_volume_snapshot :: volume_snapshot
  ds_container_failures :: "rpc_error machine_failure list"
  ds_container_omissions :: "machine_id list"
  ds_capacity :: "(machine_id, bridge_endpoint_capacity) btree option"

definition services_in :: "deploy_snapshot \<Rightarrow> namespace \<Rightarrow> service_observation list" where
  "services_in snapshot namespace =
     derive_services (filter (\<lambda>container. co_namespace container = namespace) (ds_containers snapshot))"

definition is_observer_complete :: "deploy_snapshot \<Rightarrow> bool" where
  "is_observer_complete snapshot =
     (let required = bs_collect (map (\<lambda>machine. m_id (mo_machine machine))
            (filter (\<lambda>machine. invites_rpc (mo_membership machine)) (ds_machines snapshot)))
      in \<not> affects_required (ds_container_failures snapshot) (ds_container_omissions snapshot) required
         \<and> \<not> volumes_affect_required (ds_volume_snapshot snapshot) required)"

section \<open>Planner errors\<close>

datatype eliminating_constraint =
    NoMachines
  | UnknownPlacement "placement_constraint list"
  | Constraint_WorkNotAccepted "machine_name list"
  | MachineDown "machine_name list"
  | VolumeAlreadyOn docker_volume_name "machine_name list"
  | VolumeConflictsWithPlacement docker_volume_name "machine_name list" "placement_constraint list"
  | SharedVolumeNoCommonMachine docker_volume_name "placement_constraint list"

definition eliminating_constraints :: "eliminating_constraint list \<Rightarrow> eliminating_constraint list" where
  "eliminating_constraints constraints = (if constraints = [] then [NoMachines] else constraints)"

text \<open>Why a Volume is unavailable, in place of the formatted message: the gap in its Machine's
  inventory, or the failure to inspect it.\<close>

datatype unavailable_message =
    Machine_Inventory_Gap machine_name inventory_gap
  | Volume_Inspection_Failure rpc_error

datatype plan_error =
    Storage_Error machine_id machine_name storage_capacity_error
  | ConflictingHostPublications service_name
  | HostPortConflict service_name
  | CapacityUnknown
  | InsufficientCapacity
  | NoEligibleMachines "eliminating_constraint list"
  | ServiceModeCannotChange
  | ConflictingDockerVolumeDefinitions docker_volume_name
  | DuplicateTargetService service_name
  | ProvisionedVolumeStorageRequired machine_name
  | ProvisionedVolumeStorageUnavailable
  | ProvisionedVolumeStorageUnknown "machine_name list"
  | ExistingPlainVolume docker_volume_name machine_name
  | ExistingProvisionedVolumeMismatch docker_volume_name machine_name u64
  | Service_Error string plan_error
  | MixedVolumeModes docker_volume_name string string
  | DependencyCycle string
  | DockerVolumeUnavailable docker_volume_id unavailable_message
  | HostnameConflict ingress_host qualified_service

definition no_eligible_machines :: "eliminating_constraint list \<Rightarrow> plan_error" where
  "no_eligible_machines constraints = NoEligibleMachines (eliminating_constraints constraints)"

text \<open>What the planner returns: an error of the plan, a panic, or a value.\<close>

type_synonym 'a planned = "(plan_error fault, 'a) result"

text \<open>\<open>expect\<close>: the absent value is a panic.\<close>

definition expect :: "'a option \<Rightarrow> 'a planned" where
  "expect x = ok_or Panic x"

text \<open>The \<open>context\<close> of an error; a panic passes through.\<close>

definition map_fault :: "(plan_error \<Rightarrow> plan_error) \<Rightarrow> 'a planned \<Rightarrow> 'a planned" where
  "map_fault f m = map_err (\<lambda>e. case e of Err error \<Rightarrow> Err (f error) | Panic \<Rightarrow> Panic) m"

lemma expect_eq_Inr [result_simps]: "expect x = Inr y \<longleftrightarrow> x = Some y"
  and expect_eq_Inl [result_simps]: "expect x = Inl e \<longleftrightarrow> x = None \<and> e = Panic"
  by (auto simp: expect_def result_simps)

lemma expect_simps [simp]: "expect None = Inl Panic" "expect (Some y) = Inr y"
  by (simp_all add: expect_def)

lemma map_fault_eq_Inr [result_simps]: "map_fault f m = Inr y \<longleftrightarrow> m = Inr y"
  by (simp add: map_fault_def result_simps)

lemma map_fault_Panic [result_simps]: "map_fault f m = Inl Panic \<longleftrightarrow> m = Inl Panic"
  by (cases m) (auto simp: map_fault_def split: fault.splits)

section \<open>The Services a command applies\<close>

text \<open>The dependency edges between Services of the target.\<close>

definition dependency_edges ::
  "service_name list \<Rightarrow> (service_name, service_dependency list) btree \<Rightarrow> (service_name \<times> service_name) set" where
  "dependency_edges present dependencies =
     {(a, b). b \<in> set present \<and> b \<in> sd_service ` set (dependencies_of dependencies a)}"

definition applied_edges :: "deploy_intent \<Rightarrow> (service_name \<times> service_name) set" where
  "applied_edges intent = dependency_edges (target_names intent) (di_dependencies intent)"

lemma rtrancl_Image_closed:
  assumes "E `` A \<subseteq> A \<union> B"
  shows "E\<^sup>* `` A \<subseteq> A \<union> E\<^sup>* `` B"
proof -
  have "y \<in> A \<union> E\<^sup>* `` B" if "(x, y) \<in> E\<^sup>*" "x \<in> A" for x y
    using that
  proof (induction rule: rtrancl_induct)
    case (step y z)
    then show ?case
      using assms by (auto intro: rtrancl_into_rtrancl)
  qed simp
  then show ?thesis
    by auto
qed

lemma rtrancl_Image_step: "E\<^sup>* `` {x} = insert x (E\<^sup>* `` (E `` {x}))"
  by (auto elim: converse_rtranclE intro: converse_rtrancl_into_rtrancl)

lemma set_applied_loop:
  assumes "dependency_edges present dependencies `` set included \<subseteq> set included \<union> set pending"
  shows "set (applied_loop present dependencies pending included)
    = set included \<union> (dependency_edges present dependencies)\<^sup>* `` set pending"
  using assms
proof (induction present dependencies pending included rule: applied_loop.induct)
  case (1 present dependencies pending included)
  let ?E = "dependency_edges present dependencies"
  show ?case
  proof (cases "pending = []")
    case True
    then show ?thesis
      by (simp add: applied_loop.simps)
  next
    case False
    let ?name = "last pending" and ?rest = "butlast pending"
    have pending: "set pending = insert ?name (set ?rest)"
      using False by (rule set_butlast_last)
    show ?thesis
    proof (cases "?name \<in> set included")
      case True
      then have closed: "?E `` set included \<subseteq> set included \<union> set ?rest"
        using 1(3) pending by auto
      have "?E\<^sup>* `` {?name} \<subseteq> set included \<union> ?E\<^sup>* `` set ?rest"
        using rtrancl_Image_closed [OF closed] True by auto
      then have "set included \<union> ?E\<^sup>* `` set pending = set included \<union> ?E\<^sup>* `` set ?rest"
        using pending by auto
      with 1(1) [OF False refl refl True closed] True False show ?thesis
        by (subst applied_loop.simps) (simp add: Let_def)
    next
      case new: False
      let ?pushed = "filter (\<lambda>d. d \<in> set present) (map sd_service (dependencies_of dependencies ?name))"
      have pushed: "set ?pushed = ?E `` {?name}"
        by (auto simp: dependency_edges_def)
      have "?E `` set (bs_insert ?name included) \<subseteq> set (bs_insert ?name included) \<union> set (?rest @ ?pushed)"
        using 1(3) pending pushed by auto
      from 1(2) [OF False refl refl new this] new False
      have "set (applied_loop present dependencies pending included)
        = insert ?name (set included) \<union> ?E\<^sup>* `` (set ?rest \<union> ?E `` {?name})"
        by (subst applied_loop.simps) (simp add: Let_def pushed [symmetric])
      also have "\<dots> = set included \<union> ?E\<^sup>* `` set pending"
        using pending rtrancl_Image_step [of ?E ?name] by auto
      finally show ?thesis .
    qed
  qed
qed

lemma bs_wf_applied_loop: "bs_wf included \<Longrightarrow> bs_wf (applied_loop present dependencies pending included)"
proof (induction present dependencies pending included rule: applied_loop.induct)
  case (1 present dependencies pending included)
  show ?case
    using 1(3) 1(1) [OF _ refl refl] 1(2) [OF _ refl refl _ bs_wf_insert]
    by (subst applied_loop.simps) (simp add: Let_def)
qed

lemma set_applied_names:
  "set (applied_names intent) =
     (if po_selected (di_options intent) = [] then set (target_names intent)
      else (applied_edges intent)\<^sup>* `` (set (po_selected (di_options intent)) \<inter> set (target_names intent)))"
  by (auto simp: applied_names_def Let_def set_applied_loop applied_edges_def
    dependency_edges_def)

lemma applied_names_subset: "set (applied_names intent) \<subseteq> set (target_names intent)"
proof -
  let ?E = "applied_edges intent" and ?T = "set (target_names intent)"
  have "?E `` A \<subseteq> ?T" for A
    by (auto simp: applied_edges_def dependency_edges_def)
  then have "?E\<^sup>* `` ?T \<subseteq> ?T"
    using rtrancl_Image_closed [of ?E ?T "{}"] by simp
  then show ?thesis
    unfolding set_applied_names by auto
qed

lemma bs_wf_applied_names: "bs_wf (applied_names intent)"
  by (auto simp: applied_names_def Let_def intro: bs_wf_applied_loop)

text \<open>
  Claim C26. The Services that a command applies are each listed once, in order of their names;
  without a selection they are the Services of the target, and with one they are exactly the
  Services that the selected ones of the target reach through dependencies inside the target.
\<close>

theorem applied_names_closure:
  "bs_wf (applied_names intent) \<and>
   set (applied_names intent) =
     (if po_selected (di_options intent) = [] then set (target_names intent)
      else (applied_edges intent)\<^sup>* `` (set (po_selected (di_options intent)) \<inter> set (target_names intent)))"
  using bs_wf_applied_names set_applied_names by blast

section \<open>Valid Volume evidence\<close>

lemma rfold_insert_new:
  "rfold (insert_new c) xs s = Inr t \<longleftrightarrow> distinct xs \<and> set xs \<inter> set s = {} \<and> t = bs_extend xs s"
proof (induction xs arbitrary: s)
  case (Cons x xs)
  show ?case
    by (cases "x \<in> set s")
      (auto simp: insert_new_def [of c x] Cons.IH bs_extend_def [of "x # xs"] bs_extend_def [of xs])
qed (auto simp: bs_extend_def)

lemma volume_snapshot_validate_iff:
  "volume_snapshot_validate s = Inr () \<longleftrightarrow>
     distinct (known_ids s)
     \<and> distinct (map mf_machine_id (vsn_machine_failures s) @ vsn_omissions s)
     \<and> volume_machine_id ` set (known_ids s)
         \<inter> set (map mf_machine_id (vsn_machine_failures s) @ vsn_omissions s) = {}"
  (is "?l \<longleftrightarrow> ?ids \<and> ?gaps \<and> ?apart")
proof -
  let ?found = "List.find (\<lambda>vid. volume_machine_id vid
      \<in> set (bs_extend (vsn_omissions s) (bs_collect (map mf_machine_id (vsn_machine_failures s)))))
      (bs_extend (map vf_id (vsn_named_failures s)) (bs_collect (map dv_id (vsn_observations s))))"
  have apart: "?found = None \<longleftrightarrow> ?apart"
    by (auto simp: find_None_iff known_ids_def)
  have "?l \<longleftrightarrow> ?ids \<and> ?gaps \<and> ?found = None"
    unfolding volume_snapshot_validate_def rbind_eq_Inr rfold_insert_new
    by (auto simp: known_ids_def split: option.splits)
  with apart show ?thesis
    by simp
qed

text \<open>
  A Volume snapshot is built exactly from evidence that has no Volume twice (neither
  two observations, nor two failures, nor one of each), no Machine twice among the inventory
  failures and omissions, and no evidence of a Machine whose inventory is missing.
\<close>

theorem try_from_parts_exact:
  "is_ok (try_from_parts observations named_failures machine_failures omissions) \<longleftrightarrow>
     distinct (map dv_id observations @ map vf_id named_failures)
     \<and> distinct (map mf_machine_id machine_failures @ omissions)
     \<and> volume_machine_id ` set (map dv_id observations @ map vf_id named_failures)
         \<inter> set (map mf_machine_id machine_failures @ omissions) = {}"
  using volume_snapshot_validate_iff [of "\<lparr> vsn_observations = observations,
    vsn_named_failures = named_failures, vsn_machine_failures = machine_failures,
    vsn_omissions = omissions \<rparr>"]
  by (simp add: try_from_parts_def Let_def is_ok_iff rbind_eq_Inr known_ids_def)

end
