(* ===== verification/Capacity_Budget.thy ===== *)
theory Capacity_Budget
  imports Deploy_Model
begin

text \<open>
  The budget of container endpoints that one plan shares between its Services:
  \<open>ployz/src/deploy/planning/capacity.rs\<close>. A budget knows the free endpoints of every Machine
  whose telemetry is fresh; without any telemetry it admits everything.

  The locale \<open>endpoint_ledger\<close> is what the placement relies on: a reservation is granted or
  refused without a panic, and what a Machine has left plus what was reserved on it is what it
  had. It is interpreted on the budget of the code.
\<close>

section \<open>Operations\<close>

definition endpoint_capacity_error ::
  "u64 \<Rightarrow> bridge_endpoint_capacity option \<Rightarrow> plan_error option" where
  "endpoint_capacity_error required capacity =
     (case capacity of
        None \<Rightarrow> if required > 0 then Some CapacityUnknown else None
      | Some capacity \<Rightarrow>
          if free_endpoints capacity < required then Some InsufficientCapacity else None)"

record endpoint_demand =
  ed_peak :: u64
  ed_persistent :: u64
  ed_uses_hook :: bool

datatype endpoint_operation = Unchanged | Create | Replace

definition demand_for_operation :: "endpoint_operation \<Rightarrow> bool \<Rightarrow> endpoint_demand" where
  "demand_for_operation operation hook_pending =
     (let changes = operation \<noteq> Unchanged; uses_hook = changes \<and> hook_pending in
      \<lparr> ed_peak = of_bool changes + of_bool uses_hook,
        ed_persistent = of_bool (operation = Create) + of_bool uses_hook,
        ed_uses_hook = uses_hook \<rparr>)"

text \<open>A \<open>CapacityBudget\<close> has the map of free endpoints as its only field.\<close>

type_synonym capacity_budget = "(machine_id, u64) btree option"

definition budget_from_snapshot :: "deploy_snapshot \<Rightarrow> capacity_budget" where
  "budget_from_snapshot snapshot =
     map_option (\<lambda>capacity. bt_collect (map (\<lambda>(machine_id, c). (machine_id, free_endpoints c)) capacity))
       (ds_capacity snapshot)"

definition budget_fits :: "capacity_budget \<Rightarrow> machine_id \<Rightarrow> u64 \<Rightarrow> bool" where
  "budget_fits budget machine_id peak =
     (peak = 0 \<or>
      (case budget of
         None \<Rightarrow> True
       | Some free \<Rightarrow> (case bt_get free machine_id of None \<Rightarrow> False | Some n \<Rightarrow> n \<ge> peak)))"

definition budget_fits_demand :: "capacity_budget \<Rightarrow> machine_id \<Rightarrow> endpoint_demand \<Rightarrow> bool" where
  "budget_fits_demand budget machine_id demand = budget_fits budget machine_id (ed_peak demand)"

text \<open>Two panics: no entry of the Machine, and the subtraction that would overflow.\<close>

definition budget_reserve ::
  "capacity_budget \<Rightarrow> machine_id \<Rightarrow> endpoint_demand \<Rightarrow> (bool \<times> capacity_budget) planned" where
  "budget_reserve budget machine_id demand =
     (if \<not> budget_fits_demand budget machine_id demand then Inr (False, budget)
      else if ed_persistent demand > 0 then
        (case budget of
           None \<Rightarrow> Inr (True, budget)
         | Some free \<Rightarrow>
             rbind (expect (bt_get free machine_id)) (\<lambda>n.
             rbind (expect (checked_sub n (ed_persistent demand))) (\<lambda>left.
             Inr (True, Some (bt_insert machine_id left free)))))
      else Inr (True, budget))"

definition budget_release :: "capacity_budget \<Rightarrow> machine_id \<Rightarrow> capacity_budget" where
  "budget_release budget machine_id =
     (case budget of
        None \<Rightarrow> None
      | Some free \<Rightarrow>
          (case bt_get free machine_id of
             None \<Rightarrow> Some free
           | Some n \<Rightarrow> Some (bt_insert machine_id (saturating_add n 1) free)))"

definition budget_error_for :: "capacity_budget \<Rightarrow> machine_id list \<Rightarrow> plan_error" where
  "budget_error_for budget machine_ids =
     (if (case budget of
            None \<Rightarrow> False
          | Some free \<Rightarrow> list_ex (\<lambda>machine_id. \<not> bt_contains free machine_id) machine_ids)
      then CapacityUnknown else InsufficientCapacity)"

fun supply_loop :: "(machine_id, u64) btree \<Rightarrow> u64 \<Rightarrow> machine_id list \<Rightarrow> u64 \<Rightarrow> bool" where
  "supply_loop free required [] available = False"
| "supply_loop free required (machine_id # machine_ids) available =
     (case bt_get free machine_id of
        None \<Rightarrow> supply_loop free required machine_ids available
      | Some machine_free \<Rightarrow>
          (let available = saturating_add available machine_free in
           if available \<ge> required then True
           else supply_loop free required machine_ids available))"

definition can_supply_persistent :: "capacity_budget \<Rightarrow> machine_id list \<Rightarrow> u64 \<Rightarrow> bool" where
  "can_supply_persistent budget machine_ids required =
     (if required = 0 then True
      else case budget of
        None \<Rightarrow> True
      | Some free \<Rightarrow> supply_loop free required machine_ids 0)"

section \<open>The contract of a ledger\<close>

text \<open>The demands of the code never keep more endpoints than they need at their peak.\<close>

definition demand_wf :: "endpoint_demand \<Rightarrow> bool" where
  "demand_wf demand \<longleftrightarrow> ed_persistent demand \<le> ed_peak demand"

lemma checked_sub_le:
  fixes a b :: u64
  assumes "b \<le> a"
  shows "\<exists>c. checked_sub a b = Some c"
  using assms by (auto simp: checked_sub_def word_le_def)

lemma demand_wf_for_operation [simp]: "demand_wf (demand_for_operation operation hook)"
  by (cases operation; cases hook) (simp_all add: demand_wf_def demand_for_operation_def Let_def)

lemma uses_hook_iff [simp]: "ed_uses_hook (demand_for_operation operation hook) \<longleftrightarrow> operation \<noteq> Unchanged \<and> hook"
  by (simp add: demand_for_operation_def Let_def)

text \<open>What the entries of a list charge to one Machine.\<close>

definition charged :: "('m \<times> nat) list \<Rightarrow> 'm \<Rightarrow> nat" where
  "charged entries m = sum_list (map snd (filter (\<lambda>e. fst e = m) entries))"

text \<open>From \<open>b0\<close> to \<open>b\<close> exactly the entries were charged; unobserved Machines stay so.\<close>

definition ledger :: "('b \<Rightarrow> 'm \<Rightarrow> nat option) \<Rightarrow> 'b \<Rightarrow> 'b \<Rightarrow> ('m \<times> nat) list \<Rightarrow> bool" where
  "ledger free b0 b entries \<longleftrightarrow>
     (\<forall>m. case free b0 m of
        None \<Rightarrow> free b m = None
      | Some n \<Rightarrow> \<exists>left. free b m = Some left \<and> left + charged entries m = n)"

lemma charged_simps [simp]:
  "charged [] m = 0"
  "charged ((k, n) # entries) m = (if k = m then n else 0) + charged entries m"
  by (simp_all add: charged_def)

lemma charged_append: "charged (xs @ ys) m = charged xs m + charged ys m"
  by (simp add: charged_def)

locale endpoint_ledger =
  fixes free :: "'b \<Rightarrow> 'm \<Rightarrow> nat option"
    and fits :: "'b \<Rightarrow> 'm \<Rightarrow> u64 \<Rightarrow> bool"
    and reserve :: "'b \<Rightarrow> 'm \<Rightarrow> endpoint_demand \<Rightarrow> (bool \<times> 'b) planned"
  assumes fits_free: "fits b m peak \<Longrightarrow> free b m = Some n \<Longrightarrow> unat peak \<le> n"
    and reserve_total: "demand_wf d \<Longrightarrow> \<exists>b'. reserve b m d = Inr (fits b m (ed_peak d), b')"
    and reserve_refused: "reserve b m d = Inr (False, b') \<Longrightarrow> b' = b"
    and reserve_other: "reserve b m d = Inr (ok, b') \<Longrightarrow> k \<noteq> m \<Longrightarrow> free b' k = free b k"
    and reserve_unknown: "reserve b m d = Inr (ok, b') \<Longrightarrow> free b m = None \<Longrightarrow> free b' m = None"
    and reserve_granted: "demand_wf d \<Longrightarrow> reserve b m d = Inr (True, b') \<Longrightarrow> free b m = Some n
      \<Longrightarrow> free b' m = Some (n - unat (ed_persistent d))"
begin

lemma reserve_fits:
  assumes "demand_wf d" and "reserve b m d = Inr (ok, b')"
  shows "ok = fits b m (ed_peak d)"
  using reserve_total [OF assms(1), of b m] assms(2) by auto

lemma ledger_start: "ledger free b b []"
  by (auto simp: ledger_def split: option.splits)

lemma ledger_refused:
  assumes "ledger free b0 b entries" and "reserve b m d = Inr (False, b')"
  shows "ledger free b0 b' entries"
  using assms reserve_refused by metis

lemma ledger_granted:
  assumes "ledger free b0 b entries" and "demand_wf d" and "reserve b m d = Inr (True, b')"
  shows "ledger free b0 b' ((m, unat (ed_persistent d)) # entries)"
proof -
  have "case free b0 k of None \<Rightarrow> free b' k = None
      | Some n \<Rightarrow> \<exists>left. free b' k = Some left
          \<and> left + charged ((m, unat (ed_persistent d)) # entries) k = n" for k
  proof (cases "k = m")
    case False
    then show ?thesis
      using assms(1) [unfolded ledger_def, rule_format, of k] reserve_other [OF assms(3) False]
      by (simp split: option.splits)
  next
    case True
    show ?thesis
    proof (cases "free b0 m")
      case None
      then have "free b m = None"
        using assms(1) [unfolded ledger_def, rule_format, of m] by simp
      then show ?thesis
        using None True reserve_unknown [OF assms(3)] by simp
    next
      case (Some n)
      then obtain left where left: "free b m = Some left" "left + charged entries m = n"
        using assms(1) [unfolded ledger_def, rule_format, of m] by auto
      have "fits b m (ed_peak d)"
        using reserve_fits [OF assms(2,3)] by simp
      then have "unat (ed_persistent d) \<le> left"
        using fits_free [OF _ left(1)] assms(2) by (fastforce simp: demand_wf_def word_le_nat_alt)
      then show ?thesis
        using Some True left reserve_granted [OF assms(2,3) left(1)] by simp
    qed
  qed
  then show ?thesis
    by (simp add: ledger_def)
qed

text \<open>No Machine is charged more than it had.\<close>

lemma ledger_bounded:
  assumes "ledger free b0 b entries" and "free b0 m = Some n"
  shows "charged entries m \<le> n"
  using assms by (fastforce simp: ledger_def split: option.splits)

end

section \<open>The budget of the code\<close>

definition budget_free :: "capacity_budget \<Rightarrow> machine_id \<Rightarrow> nat option" where
  "budget_free budget machine_id =
     Option.bind budget (\<lambda>free. map_option unat (bt_get free machine_id))"

interpretation capacity: endpoint_ledger budget_free budget_fits budget_reserve
proof
  fix b m peak n
  assume "budget_fits b m peak" "budget_free b m = Some n"
  then show "unat peak \<le> n"
    by (auto simp: budget_fits_def budget_free_def word_le_nat_alt split: option.splits bind_splits)
next
  fix b m d
  assume wf: "demand_wf d"
  have "\<exists>c. checked_sub n (ed_persistent d) = Some c" if "ed_peak d \<le> n" for n
    using that wf by (intro checked_sub_le) (auto simp: demand_wf_def)
  with wf show "\<exists>b'. budget_reserve b m d = Inr (budget_fits b m (ed_peak d), b')"
    by (auto simp: budget_reserve_def budget_fits_demand_def budget_fits_def demand_wf_def
        result_simps split: option.splits)
next
  fix b m d b'
  assume "budget_reserve b m d = Inr (False, b')"
  then show "b' = b"
    by (auto simp: budget_reserve_def result_simps split: if_splits option.splits)
next
  fix b m d ok b' k
  assume "budget_reserve b m d = Inr (ok, b')" "k \<noteq> m"
  then show "budget_free b' k = budget_free b k"
    by (auto simp: budget_reserve_def budget_free_def result_simps map_simps split: if_splits option.splits)
next
  fix b m d ok b'
  assume "budget_reserve b m d = Inr (ok, b')" "budget_free b m = None"
  then show "budget_free b' m = None"
    by (auto simp: budget_reserve_def budget_free_def result_simps map_simps split: if_splits option.splits)
next
  fix b m d b' n
  assume "demand_wf d" "budget_reserve b m d = Inr (True, b')" "budget_free b m = Some n"
  then show "budget_free b' m = Some (n - unat (ed_persistent d))"
    by (auto simp: budget_reserve_def budget_free_def result_simps map_simps word_simps word_gt_0
        split: if_splits option.splits)
qed

section \<open>The free endpoints of several Machines\<close>

text \<open>The endpoints that the listed Machines have free together; unobserved ones have none.\<close>

definition observed_free :: "capacity_budget \<Rightarrow> machine_id list \<Rightarrow> nat" where
  "observed_free budget machine_ids =
     sum_list (map (\<lambda>m. case budget_free budget m of None \<Rightarrow> 0 | Some n \<Rightarrow> n) machine_ids)"

lemma supply_loop_iff:
  assumes "available < required"
  shows "supply_loop free required machine_ids available \<longleftrightarrow>
    unat required \<le> unat available + observed_free (Some free) machine_ids"
  using assms
proof (induction machine_ids arbitrary: available)
  case Nil
  then show ?case
    by (simp add: observed_free_def word_less_nat_alt)
next
  case (Cons m machine_ids)
  show ?case
  proof (cases "bt_get free m")
    case None
    with Cons show ?thesis
      by (simp add: observed_free_def budget_free_def)
  next
    case (Some n)
    let ?next = "saturating_add available n"
    have bound: "unat required \<le> 2 ^ 64 - 1"
      using unsigned_less [of required, where ?'a = nat] by simp
    then have "required \<le> ?next \<longleftrightarrow> unat required \<le> unat available + unat n"
      by (auto simp: word_le_nat_alt unat_saturating_add)
    moreover have "unat ?next = unat available + unat n" if "?next < required"
      using that bound by (auto simp: word_less_nat_alt unat_saturating_add)
    ultimately show ?thesis
      using Some Cons.IH [of ?next]
      by (auto simp: observed_free_def budget_free_def Let_def not_le)
  qed
qed

text \<open>
  Claim C27. The check before a placement is exact: a budget with telemetry can supply the
  required endpoints if and only if the listed Machines have as many free together; a budget
  without telemetry can supply any number.
\<close>

theorem can_supply_persistent_exact:
  "can_supply_persistent budget machine_ids required \<longleftrightarrow>
     budget = None \<or> unat required \<le> observed_free budget machine_ids"
proof (cases budget)
  case None
  then show ?thesis
    by (simp add: can_supply_persistent_def)
next
  case (Some free)
  then show ?thesis
    using supply_loop_iff [of 0 required free machine_ids]
    by (cases "required = 0") (simp_all add: can_supply_persistent_def word_gt_0)
qed

end
