(* ===== verification/Sockets.thy ===== *)
theory Sockets
  imports Capacity_Budget
begin

text \<open>
  Which containers a Service may keep and which host sockets a plan may bind: the helpers and the
  \<open>HostSockets\<close> of \<open>ployz/src/deploy/planning/placement.rs\<close>.

  The claims of a plan are exclusive per Machine: no two of them publish overlapping sockets
  (\<open>sockets_ok\<close>). That releasing a container and admitting a new one keep this is the contract
  \<open>exclusive_sockets\<close> that the placement relies on; it is interpreted on the claims of the code.
\<close>

section \<open>Host ports\<close>

definition is_ipv4 :: "ip_addr \<Rightarrow> bool" where
  "is_ipv4 address = (case address of V4 _ \<Rightarrow> True | V6 _ \<Rightarrow> False)"

definition is_unspecified :: "ip_addr \<Rightarrow> bool" where
  "is_unspecified address = (case address of V4 a \<Rightarrow> a = 0 | V6 a \<Rightarrow> a = 0)"

definition address_in_prefix :: "ext \<Rightarrow> ip_addr \<Rightarrow> ip_net \<Rightarrow> bool" where
  "address_in_prefix x address prefix =
     (ipnet_contains x prefix address
        \<or> (is_unspecified address \<and> is_ipv4 address = is_ipv4 (ipnet_network x prefix)))"

fun binds_overlap :: "ext \<Rightarrow> host_bind \<Rightarrow> host_bind \<Rightarrow> bool" where
  "binds_overlap x Bind_All _ = True"
| "binds_overlap x _ Bind_All = True"
| "binds_overlap x (Bind_Address left) (Bind_Address right) =
     (left = right \<or> (is_ipv4 left = is_ipv4 right \<and> (is_unspecified left \<or> is_unspecified right)))"
| "binds_overlap x (Bind_Address address) (Bind_Prefix prefix) = address_in_prefix x address prefix"
| "binds_overlap x (Bind_Prefix prefix) (Bind_Address address) = address_in_prefix x address prefix"
| "binds_overlap x (Bind_Prefix left) (Bind_Prefix right) =
     (ipnet_contains x left (ipnet_network x right) \<or> ipnet_contains x right (ipnet_network x left))"

definition host_ports_conflict :: "ext \<Rightarrow> port_publication \<Rightarrow> port_publication \<Rightarrow> bool" where
  "host_ports_conflict x left right =
     (case (left, right) of
        (Host_Port left_bind left_port _ left_protocol, Host_Port right_bind right_port _ right_protocol) \<Rightarrow>
          left_port = right_port \<and> left_protocol = right_protocol \<and> binds_overlap x left_bind right_bind
      | _ \<Rightarrow> False)"

definition ports_conflict :: "ext \<Rightarrow> port_publication list \<Rightarrow> port_publication list \<Rightarrow> bool" where
  "ports_conflict x olds news = list_ex (\<lambda>old. list_ex (\<lambda>new. host_ports_conflict x old new) news) olds"

fun conflict_with_later :: "ext \<Rightarrow> port_publication list \<Rightarrow> bool" where
  "conflict_with_later x [] = False"
| "conflict_with_later x (port # ports) =
     (list_ex (\<lambda>other. host_ports_conflict x port other) ports \<or> conflict_with_later x ports)"

definition validate_host_ports :: "ext \<Rightarrow> requested_service_spec \<Rightarrow> unit planned" where
  "validate_host_ports x requested =
     (if conflict_with_later x (rq_ports requested)
      then Inl (Err (ConflictingHostPublications (rq_name requested))) else Inr ())"

section \<open>Containers of a Service\<close>

definition is_up_to_date ::
  "ext \<Rightarrow> container_observation \<Rightarrow> requested_service_spec \<Rightarrow> plan_options \<Rightarrow> bool" where
  "is_up_to_date x container requested options =
     (\<not> po_force_recreate options \<and> is_running (co_runtime container)
        \<and> compare_specs x (co_resolved_spec container) requested = UpToDate)"

definition names_docker_volume :: "service_volume \<Rightarrow> bool" where
  "names_docker_volume volume =
     (case vs_source (sv_source volume) of
        External _ \<Rightarrow> True | Ordinary _ _ _ \<Rightarrow> True | Provisioned _ _ _ \<Rightarrow> True
      | Bind _ _ _ _ \<Rightarrow> False | Tmpfs _ _ _ \<Rightarrow> False)"

definition determine_update_order ::
  "ext \<Rightarrow> container_observation option \<Rightarrow> requested_service_spec \<Rightarrow> update_order" where
  "determine_update_order x current requested =
     (case uc_order (rq_update requested) of
        Some order \<Rightarrow> order
      | None \<Rightarrow>
          if (case current of
                None \<Rightarrow> False
              | Some c \<Rightarrow> ports_conflict x (rs_ports (co_resolved_spec c)) (rq_ports requested))
          then StopFirst
          else if list_ex names_docker_volume (mounted_volumes (rq_volume_graph requested))
          then StopFirst
          else StartFirst)"

definition resolve ::
  "requested_service_spec \<Rightarrow> service_id \<Rightarrow> update_order \<Rightarrow> resolved_service_spec planned" where
  "resolve requested service_id order =
     (case to_resolved requested service_id
         \<lparr> ru_order = order, ru_monitor_millis = uc_monitor_millis (rq_update requested) \<rparr> of
        Inl _ \<Rightarrow> Inl Panic
      | Inr spec \<Rightarrow> Inr spec)"

definition replicated_operation ::
  "ext \<Rightarrow> container_observation option \<Rightarrow> requested_service_spec \<Rightarrow> plan_options \<Rightarrow> endpoint_operation" where
  "replicated_operation x existing requested options =
     (case existing of
        Some container \<Rightarrow> if is_up_to_date x container requested options then Unchanged else Replace
      | None \<Rightarrow> Create)"

definition on_machine :: "container_observation list \<Rightarrow> machine_id \<Rightarrow> container_observation list" where
  "on_machine current machine_id = filter (\<lambda>container. co_machine_id container = machine_id) current"

definition conflicting_siblings ::
  "ext \<Rightarrow> requested_service_spec \<Rightarrow> container_observation option \<Rightarrow> endpoint_operation
     \<Rightarrow> container_observation list \<Rightarrow> container_id list" where
  "conflicting_siblings x requested existing operation remaining =
     (case (existing, operation) of
        (Some existing, Replace) \<Rightarrow>
          map co_container_id (filter (\<lambda>container.
            co_container_id container \<noteq> co_container_id existing
              \<and> is_active_runtime (co_runtime container)
              \<and> ports_conflict x (rs_ports (co_resolved_spec container)) (rq_ports requested)) remaining)
      | _ \<Rightarrow> [])"

section \<open>Host sockets\<close>

text \<open>A claim: the Machine, the container that holds it (none for one that the plan creates) and
  the publications. \<open>HostSockets\<close> has the claims as its only field.\<close>

type_synonym socket_claim = "machine_id \<times> container_id option \<times> port_publication list"
type_synonym host_sockets = "socket_claim list"

definition sockets_from_snapshot :: "deploy_snapshot \<Rightarrow> host_sockets" where
  "sockets_from_snapshot snapshot =
     map (\<lambda>container. (co_machine_id container, Some (co_container_id container),
            rs_ports (co_resolved_spec container)))
       (filter (\<lambda>container. co_kind container = ServiceContainer \<and> is_active_runtime (co_runtime container))
          (ds_containers snapshot))"

definition sockets_release :: "host_sockets \<Rightarrow> machine_id \<Rightarrow> container_id \<Rightarrow> host_sockets" where
  "sockets_release claims machine container =
     filter (\<lambda>(owner_machine, owner, _). owner_machine \<noteq> machine \<or> owner \<noteq> Some container) claims"

definition released_container ::
  "ext \<Rightarrow> requested_service_spec \<Rightarrow> container_observation option \<Rightarrow> container_id option" where
  "released_container x requested existing =
     (case existing of
        None \<Rightarrow> None
      | Some container \<Rightarrow>
          if determine_update_order x (Some container) requested = StopFirst
          then Some (co_container_id container) else None)"

definition sockets_fit ::
  "ext \<Rightarrow> host_sockets \<Rightarrow> machine_id \<Rightarrow> requested_service_spec \<Rightarrow> container_observation option
     \<Rightarrow> endpoint_operation \<Rightarrow> container_id list \<Rightarrow> bool" where
  "sockets_fit x claims machine requested existing operation pre_stops =
     (operation = Unchanged \<or>
      (let released = released_container x requested existing in
       \<not> list_ex (\<lambda>(owner_machine, owner, ports).
           owner_machine = machine
           \<and> (released = None \<or> owner \<noteq> released)
           \<and> \<not> (case owner of None \<Rightarrow> False | Some c \<Rightarrow> c \<in> set pre_stops)
           \<and> ports_conflict x ports (rq_ports requested)) claims))"

definition socket_error :: "requested_service_spec \<Rightarrow> plan_error" where
  "socket_error requested = HostPortConflict (rq_name requested)"

definition sockets_admit ::
  "ext \<Rightarrow> host_sockets \<Rightarrow> machine_id \<Rightarrow> requested_service_spec \<Rightarrow> container_observation option
     \<Rightarrow> endpoint_operation \<Rightarrow> host_sockets planned" where
  "sockets_admit x claims machine requested existing operation =
     (if \<not> sockets_fit x claims machine requested existing operation []
      then Inl (Err (socket_error requested))
      else if operation \<noteq> Unchanged then
        Inr ((case existing of
                None \<Rightarrow> claims
              | Some container \<Rightarrow> sockets_release claims machine (co_container_id container))
             @ [(machine, None, rq_ports requested)])
      else Inr claims)"

section \<open>Conflicts\<close>

lemma resolve_total:
  assumes "\<forall>v \<in> set (vg_volumes (rq_volume_graph requested)). is_resolved (sv_source v)"
  shows "\<exists>spec. resolve requested service_id order = Inr spec"
  using assms resolve_volume_graph_ok [of "rq_volume_graph requested" "rq_volume_graph requested"]
  by (simp add: resolve_def to_resolved_def resolve_mount_graph_def)

lemma binds_overlap_sym: "binds_overlap x left right = binds_overlap x right left"
  by (cases left; cases right) auto

lemma host_ports_conflict_sym: "host_ports_conflict x left right = host_ports_conflict x right left"
  by (auto simp: host_ports_conflict_def binds_overlap_sym [of x] split: port_publication.splits)

lemma ports_conflict_iff:
  "ports_conflict x olds news \<longleftrightarrow> (\<exists>old \<in> set olds. \<exists>new \<in> set news. host_ports_conflict x old new)"
  by (simp add: ports_conflict_def list_ex_iff)

lemma ports_conflict_sym: "ports_conflict x olds news = ports_conflict x news olds"
  unfolding ports_conflict_iff using host_ports_conflict_sym by blast

lemma conflict_with_later_iff:
  "conflict_with_later x ports \<longleftrightarrow> \<not> sorted_wrt (\<lambda>p q. \<not> host_ports_conflict x p q) ports"
  by (induction ports) (auto simp: list_ex_iff)

section \<open>Exclusive claims\<close>

definition sockets_ok :: "ext \<Rightarrow> host_sockets \<Rightarrow> bool" where
  "sockets_ok x claims =
     sorted_wrt (\<lambda>c d. fst c = fst d \<longrightarrow> \<not> ports_conflict x (snd (snd c)) (snd (snd d))) claims"

text \<open>What the placement relies on. A claim is kept as \<open>ok\<close> by releases and by admissions.\<close>

locale exclusive_sockets =
  fixes ok :: "'s \<Rightarrow> bool"
    and release :: "'s \<Rightarrow> machine_id \<Rightarrow> container_id \<Rightarrow> 's"
    and admit :: "'s \<Rightarrow> machine_id \<Rightarrow> 'r \<Rightarrow> 'c option \<Rightarrow> endpoint_operation \<Rightarrow> 's planned"
  assumes release_ok: "ok s \<Longrightarrow> ok (release s m c)"
    and admit_ok: "ok s \<Longrightarrow> admit s m r existing operation = Inr s' \<Longrightarrow> ok s'"
    and admit_unchanged: "admit s m r existing Unchanged = Inr s"
    and admit_no_panic: "admit s m r existing operation \<noteq> Inl Panic"
begin

lemma release_all_ok: "ok s \<Longrightarrow> ok (fold (\<lambda>(m, c) s. release s m c) cs s)"
  by (induction cs arbitrary: s) (auto intro: release_ok)

lemma release_on_ok: "ok s \<Longrightarrow> ok (fold (\<lambda>c s. release s m c) cs s)"
  by (induction cs arbitrary: s) (auto intro: release_ok)

end

lemma sockets_ok_admit:
  assumes "sockets_ok x claims"
    and "sockets_admit x claims machine requested existing operation = Inr claims'"
  shows "sockets_ok x claims'"
proof (cases "operation = Unchanged")
  case True
  then show ?thesis
    using assms by (auto simp: sockets_admit_def split: if_splits)
next
  case False
  let ?kept = "case existing of None \<Rightarrow> claims
    | Some container \<Rightarrow> sockets_release claims machine (co_container_id container)"
  have claims': "claims' = ?kept @ [(machine, None, rq_ports requested)]"
    and fit: "sockets_fit x claims machine requested existing operation []"
    using assms(2) False by (auto simp: sockets_admit_def split: if_splits)
  have "sockets_ok x ?kept"
    using assms(1) by (auto simp: sockets_ok_def sockets_release_def sorted_wrt_filter split: option.splits)
  moreover have "\<not> ports_conflict x ports (rq_ports requested)"
    if "(machine, owner, ports) \<in> set ?kept" for owner ports
  proof -
    have in_claims: "(machine, owner, ports) \<in> set claims"
      and owner: "released_container x requested existing = None
        \<or> owner \<noteq> released_container x requested existing"
      using that by (auto simp: released_container_def sockets_release_def split: option.splits if_splits)
    from fit False in_claims owner show ?thesis
      by (force simp: sockets_fit_def Let_def list_ex_iff split: option.splits)
  qed
  ultimately show ?thesis
    unfolding claims' by (auto simp: sockets_ok_def sorted_wrt_append)
qed

interpretation sockets: exclusive_sockets "sockets_ok x" sockets_release "sockets_admit x"
proof
  show "sockets_ok x claims \<Longrightarrow> sockets_ok x (sockets_release claims m c)" for claims m c
    by (simp add: sockets_ok_def sockets_release_def sorted_wrt_filter)
  show "sockets_ok x claims \<Longrightarrow> sockets_admit x claims m r existing operation = Inr claims'
      \<Longrightarrow> sockets_ok x claims'" for claims m r existing operation claims'
    by (rule sockets_ok_admit)
  show "sockets_admit x claims m r existing Unchanged = Inr claims" for claims m r existing
    by (simp add: sockets_admit_def sockets_fit_def)
  show "sockets_admit x claims m r existing operation \<noteq> Inl Panic" for claims m r existing operation
    by (simp add: sockets_admit_def)
qed

end
