(* ===== verification/Placement.thy ===== *)
theory Placement
  imports Sockets
begin

text \<open>
  Where the containers of one Service go: \<open>ployz/src/deploy/planning/placement.rs\<close>. A replicated
  Service takes \<open>replicas\<close> slots on its candidate Machines (\<open>select_replicated\<close>), a global one a
  slot per Machine (\<open>plan_global\<close>); what is not used is removed (\<open>remove_unused\<close>).

  The state is threaded through the plan: occupancy, endpoint budget, socket claims and the
  reservations that shared Volumes made beforehand. The functions return the new state with their
  result; after an error of the code the old state is not used again, except in \<open>reserve_on\<close>,
  which works on copies.
\<close>

section \<open>State\<close>

datatype replica_action =
    Keep container_id
  | Exchange container_id "container_id list"
  | Start_New

record replica_choice =
  ch_machine_id :: machine_id
  ch_action :: replica_action

record replicated_reservation =
  rr_choices :: "replica_choice list"
  rr_hook_machine :: "machine_id option"

datatype capacity_admission =
    Admission_Pending plan_error
  | Admission_Reserved replicated_reservation

record placement_state =
  ps_occupancy :: "(machine_id, nat) btree"
  ps_capacity :: capacity_budget
  ps_sockets :: host_sockets
  ps_reservations :: "(service_name, replicated_reservation) btree"

record placement_reservations =
  pr_capacity :: capacity_budget
  pr_sockets :: host_sockets
  pr_reservations :: "(service_name, replicated_reservation) btree"

definition reservations_new :: "deploy_snapshot \<Rightarrow> placement_reservations" where
  "reservations_new snapshot =
     \<lparr> pr_capacity = budget_from_snapshot snapshot, pr_sockets = sockets_from_snapshot snapshot,
       pr_reservations = [] \<rparr>"

definition into_placement :: "placement_reservations \<Rightarrow> deploy_snapshot \<Rightarrow> placement_state" where
  "into_placement reservations snapshot =
     \<lparr> ps_occupancy = [], ps_capacity = pr_capacity reservations,
       ps_sockets = sockets_from_snapshot snapshot, ps_reservations = pr_reservations reservations \<rparr>"

definition capacity_fits :: "placement_state \<Rightarrow> machine_id \<Rightarrow> u64 \<Rightarrow> bool" where
  "capacity_fits placement machine_id peak = budget_fits (ps_capacity placement) machine_id peak"

definition take_reservation ::
  "placement_state \<Rightarrow> service_name \<Rightarrow> capacity_admission option \<times> placement_state" where
  "take_reservation placement service =
     (map_option Admission_Reserved (bt_get (ps_reservations placement) service),
      placement\<lparr> ps_reservations := bt_remove service (ps_reservations placement) \<rparr>)"

definition capacity_error_for :: "placement_state \<Rightarrow> machine_id list \<Rightarrow> plan_error" where
  "capacity_error_for placement machine_ids = budget_error_for (ps_capacity placement) machine_ids"

definition release_hooks :: "capacity_budget \<Rightarrow> container_observation list \<Rightarrow> capacity_budget" where
  "release_hooks capacity hooks = fold (\<lambda>hook budget. budget_release budget (co_machine_id hook)) hooks capacity"

definition state_release_hooks :: "placement_state \<Rightarrow> container_observation list \<Rightarrow> placement_state" where
  "state_release_hooks placement hooks =
     placement\<lparr> ps_capacity := release_hooks (ps_capacity placement) hooks \<rparr>"

section \<open>Selection of replicas\<close>

record select_state =
  sel_by_machine :: "(machine_id, container_observation list) btree"
  sel_cursor :: nat
  sel_hook_pending :: bool
  sel_hook_machine :: "machine_id option"
  sel_choices :: "replica_choice list"
  sel_capacity :: capacity_budget
  sel_sockets :: host_sockets

definition last_option :: "'a list \<Rightarrow> 'a option" where
  "last_option xs = (if xs = [] then None else Some (last xs))"

definition machine_containers ::
  "(machine_id, container_observation list) btree \<Rightarrow> machine_id \<Rightarrow> container_observation list" where
  "machine_containers by_machine machine_id =
     (case bt_get by_machine machine_id of None \<Rightarrow> [] | Some containers \<Rightarrow> containers)"

definition group_by_machine ::
  "ext \<Rightarrow> requested_service_spec \<Rightarrow> plan_options \<Rightarrow> container_observation list
     \<Rightarrow> (machine_id, container_observation list) btree" where
  "group_by_machine x requested options current =
     map (\<lambda>(machine_id, containers).
        (machine_id, sort_key (\<lambda>container. is_up_to_date x container requested options) containers))
       (fold (\<lambda>container. bt_update_default (co_machine_id container) []
          (\<lambda>containers. containers @ [container])) current [])"

text \<open>The inner loop: the next Machines in the round that still have a fitting slot. The result
  says which Machine was selected, and whether a host socket blocked one.\<close>

fun try_machines ::
  "ext \<Rightarrow> requested_service_spec \<Rightarrow> plan_options \<Rightarrow> machine_id list \<Rightarrow> select_state
     \<Rightarrow> nat \<Rightarrow> nat \<Rightarrow> capacity_budget \<Rightarrow> bool
     \<Rightarrow> ((machine_id \<times> endpoint_operation \<times> container_id list \<times> endpoint_demand) option
          \<times> nat \<times> capacity_budget \<times> bool) planned" where
  "try_machines x requested options machines st 0 cursor capacity socket_blocked =
     Inr (None, cursor, capacity, socket_blocked)"
| "try_machines x requested options machines st (Suc n) cursor capacity socket_blocked =
     rbind (expect (if machines = [] then None else Some (machines ! (cursor mod length machines))))
       (\<lambda>machine_id.
       let remaining = machine_containers (sel_by_machine st) machine_id;
           existing = last_option remaining;
           operation = replicated_operation x existing requested options;
           pre_stops = conflicting_siblings x requested existing operation remaining
       in if \<not> sockets_fit x (sel_sockets st) machine_id requested existing operation pre_stops
          then try_machines x requested options machines st n (Suc cursor) capacity True
          else
            let demand = demand_for_operation operation (sel_hook_pending st) in
            rbind (budget_reserve capacity machine_id demand) (\<lambda>(granted, capacity).
              if granted
              then Inr (Some (machine_id, operation, pre_stops, demand), Suc cursor, capacity, socket_blocked)
              else try_machines x requested options machines st n (Suc cursor) capacity socket_blocked))"

definition choice_action ::
  "container_observation option \<Rightarrow> endpoint_operation \<Rightarrow> container_id list \<Rightarrow> replica_action" where
  "choice_action existing operation pre_stops =
     (case existing of
        Some container \<Rightarrow>
          if operation = Unchanged then Keep (co_container_id container)
          else Exchange (co_container_id container) pre_stops
      | None \<Rightarrow> Start_New)"

text \<open>One replica.\<close>

definition select_replica ::
  "ext \<Rightarrow> requested_service_spec \<Rightarrow> plan_options \<Rightarrow> machine_id list \<Rightarrow> plan_error
     \<Rightarrow> select_state \<Rightarrow> select_state planned" where
  "select_replica x requested options machines capacity_error st =
     rbind (try_machines x requested options machines st (length machines) (sel_cursor st)
         (sel_capacity st) False) (\<lambda>(selected, cursor, capacity, socket_blocked).
     case selected of
       None \<Rightarrow> Inl (Err (if socket_blocked then socket_error requested else capacity_error))
     | Some (machine_id, operation, pre_stops, demand) \<Rightarrow>
         let remaining = machine_containers (sel_by_machine st) machine_id;
             existing = last_option remaining;
             sockets = fold (\<lambda>container_id sockets. sockets_release sockets machine_id container_id)
               pre_stops (sel_sockets st);
             kept = filter (\<lambda>container. co_container_id container \<notin> set pre_stops) (butlast remaining)
         in rbind (sockets_admit x sockets machine_id requested existing operation) (\<lambda>sockets.
            Inr \<lparr> sel_by_machine = bt_insert machine_id kept (sel_by_machine st),
                  sel_cursor = cursor,
                  sel_hook_pending = (if ed_uses_hook demand then False else sel_hook_pending st),
                  sel_hook_machine = (if ed_uses_hook demand then Some machine_id else sel_hook_machine st),
                  sel_choices = sel_choices st @
                    [\<lparr> ch_machine_id = machine_id, ch_action = choice_action existing operation pre_stops \<rparr>],
                  sel_capacity = capacity,
                  sel_sockets = sockets \<rparr>))"

definition machine_order ::
  "ext \<Rightarrow> requested_service_spec \<Rightarrow> plan_options \<Rightarrow> (machine_id, container_observation list) btree
     \<Rightarrow> (machine_id, nat) btree \<Rightarrow> machine_id \<Rightarrow> int \<times> int \<times> int" where
  "machine_order x requested options by_machine occupancy machine_id =
     (let containers = machine_containers by_machine machine_id in
      (- int (length (filter (\<lambda>container. is_up_to_date x container requested options) containers)),
       - int (length containers),
       case bt_get occupancy machine_id of None \<Rightarrow> 0 | Some n \<Rightarrow> int n))"

definition select_replicated ::
  "ext \<Rightarrow> requested_service_spec \<Rightarrow> container_observation list \<Rightarrow> machine_id list
     \<Rightarrow> (machine_id, nat) btree \<Rightarrow> capacity_budget \<times> host_sockets \<Rightarrow> plan_error \<Rightarrow> plan_options
     \<Rightarrow> (replicated_reservation \<times> capacity_budget \<times> host_sockets) planned" where
  "select_replicated x requested current machines occupancy budget capacity_error options =
     (case rq_mode requested of
        Global \<Rightarrow> Inl (Err capacity_error)
      | Replicated replicas \<Rightarrow>
          let by_machine = group_by_machine x requested options current;
              existing = sum_list (map (\<lambda>machine_id. length (machine_containers by_machine machine_id)) machines);
              up_to_date = length (filter (\<lambda>container. is_up_to_date x container requested options)
                (concat (map (machine_containers by_machine) machines)));
              required = replicas - existing
                + (if rq_pre_deploy requested \<noteq> None \<and> up_to_date < replicas then 1 else 0)
          in if \<not> can_supply_persistent (fst budget) machines (of_nat required)
             then Inl (Err capacity_error)
             else
               let machines = sort_key (machine_order x requested options by_machine occupancy) machines in
               rbind (rfold (\<lambda>_. select_replica x requested options machines capacity_error)
                   [0..<replicas]
                   \<lparr> sel_by_machine = by_machine, sel_cursor = 0,
                     sel_hook_pending = rq_pre_deploy requested \<noteq> None, sel_hook_machine = None,
                     sel_choices = [], sel_capacity = fst budget, sel_sockets = snd budget \<rparr>) (\<lambda>st.
               Inr (\<lparr> rr_choices = sel_choices st, rr_hook_machine = sel_hook_machine st \<rparr>,
                    sel_capacity st, sel_sockets st)))"

section \<open>Operations of a Service\<close>

text \<open>The plan so far: the state, the containers in use and the operations.\<close>

record container_plan =
  cp_placement :: placement_state
  cp_used :: "container_id list"
  cp_operations :: "deploy_operation list"

definition occupy :: "machine_id \<Rightarrow> placement_state \<Rightarrow> placement_state" where
  "occupy machine_id placement =
     placement\<lparr> ps_occupancy := bt_update_default machine_id 0 Suc (ps_occupancy placement) \<rparr>"

definition remove_container :: "container_observation \<Rightarrow> container_plan \<Rightarrow> container_plan" where
  "remove_container container plan =
     (if co_container_id container \<in> set (cp_used plan) then plan
      else plan\<lparr> cp_operations := cp_operations plan @
             [RemoveContainer (co_machine_id container) (co_container_id container)],
           cp_placement := (cp_placement plan)
             \<lparr> ps_capacity := budget_release (ps_capacity (cp_placement plan)) (co_machine_id container),
               ps_sockets := sockets_release (ps_sockets (cp_placement plan))
                 (co_machine_id container) (co_container_id container) \<rparr> \<rparr>)"

definition remove_unused :: "container_observation list \<Rightarrow> container_plan \<Rightarrow> container_plan" where
  "remove_unused current plan = fold remove_container current plan"

text \<open>Stops a sibling that holds a socket, before the replacement starts.\<close>

definition free_host_ports :: "machine_id \<Rightarrow> container_id \<Rightarrow> container_plan \<Rightarrow> container_plan" where
  "free_host_ports machine_id container_id plan =
     plan\<lparr> cp_placement := (cp_placement plan)
             \<lparr> ps_sockets := sockets_release (ps_sockets (cp_placement plan)) machine_id container_id \<rparr>,
           cp_operations := cp_operations plan @ [StopContainer machine_id container_id FreeHostPorts] \<rparr>"

definition admit_sockets ::
  "ext \<Rightarrow> machine_id \<Rightarrow> requested_service_spec \<Rightarrow> container_observation option \<Rightarrow> endpoint_operation
     \<Rightarrow> container_plan \<Rightarrow> container_plan planned" where
  "admit_sockets x machine_id requested existing operation plan =
     rbind (sockets_admit x (ps_sockets (cp_placement plan)) machine_id requested existing operation) (\<lambda>sockets.
     Inr (plan\<lparr> cp_placement := (cp_placement plan)\<lparr> ps_sockets := sockets \<rparr> \<rparr>))"

definition use_container :: "container_id \<Rightarrow> container_plan \<Rightarrow> container_plan" where
  "use_container container_id plan = plan\<lparr> cp_used := bs_insert container_id (cp_used plan) \<rparr>"

definition add_operation :: "deploy_operation \<Rightarrow> container_plan \<Rightarrow> container_plan" where
  "add_operation operation plan = plan\<lparr> cp_operations := cp_operations plan @ [operation] \<rparr>"

definition plan_run ::
  "ext \<Rightarrow> requested_service_spec \<Rightarrow> service_id \<Rightarrow> plan_options \<Rightarrow> machine_id \<Rightarrow> container_plan
     \<Rightarrow> container_plan planned" where
  "plan_run x requested service_id options machine_id plan =
     rbind (admit_sockets x machine_id requested None Create plan) (\<lambda>plan.
     rbind (resolve requested service_id (determine_update_order x None requested)) (\<lambda>spec.
     Inr (add_operation (RunContainer machine_id spec (po_skip_health_monitor options)) plan)))"

definition plan_replace ::
  "ext \<Rightarrow> requested_service_spec \<Rightarrow> service_id \<Rightarrow> plan_options \<Rightarrow> machine_id \<Rightarrow> container_observation
     \<Rightarrow> container_plan \<Rightarrow> container_plan planned" where
  "plan_replace x requested service_id options machine_id container plan =
     rbind (admit_sockets x machine_id requested (Some container) Replace plan) (\<lambda>plan.
     rbind (resolve requested service_id (determine_update_order x (Some container) requested)) (\<lambda>spec.
     Inr (add_operation (ReplaceContainer
       \<lparr> rep_machine_id = machine_id, rep_old_container_id = co_container_id container,
         rep_spec = spec, rep_skip_health_monitor = po_skip_health_monitor options \<rparr>) plan)))"

subsection \<open>Replicated Services\<close>

definition plan_choice ::
  "ext \<Rightarrow> requested_service_spec \<Rightarrow> service_id \<Rightarrow> plan_options
     \<Rightarrow> (container_id, container_observation) btree \<Rightarrow> replica_choice \<Rightarrow> container_plan
     \<Rightarrow> container_plan planned" where
  "plan_choice x requested service_id options by_id choice plan =
     (let machine_id = ch_machine_id choice;
          plan = plan\<lparr> cp_placement := occupy machine_id (cp_placement plan) \<rparr>
      in case ch_action choice of
           Keep container_id \<Rightarrow> Inr (use_container container_id plan)
         | Exchange container_id pre_stops \<Rightarrow>
             rbind (expect (bt_get by_id container_id)) (\<lambda>container.
             plan_replace x requested service_id options machine_id container
               (fold (free_host_ports machine_id) pre_stops (use_container container_id plan)))
         | Start_New \<Rightarrow> plan_run x requested service_id options machine_id plan)"

definition index_containers ::
  "container_observation list \<Rightarrow> (container_id, container_observation) btree" where
  "index_containers current = bt_collect (map (\<lambda>container. (co_container_id container, container)) current)"

definition admitted_reservation ::
  "ext \<Rightarrow> requested_service_spec \<Rightarrow> container_observation list \<Rightarrow> machine_observation list
     \<Rightarrow> capacity_admission \<Rightarrow> placement_state \<Rightarrow> plan_options
     \<Rightarrow> (replicated_reservation \<times> placement_state) planned" where
  "admitted_reservation x requested current machines admission placement options =
     (case admission of
        Admission_Reserved reservation \<Rightarrow> Inr (reservation, placement)
      | Admission_Pending error \<Rightarrow>
          rbind (select_replicated x requested current
              (map (\<lambda>machine. m_id (mo_machine machine)) machines) (ps_occupancy placement)
              (ps_capacity placement, ps_sockets placement) error options)
            (\<lambda>(reservation, capacity, _).
            Inr (reservation, placement\<lparr> ps_capacity := capacity \<rparr>)))"

definition plan_replicated ::
  "ext \<Rightarrow> service_id \<Rightarrow> container_observation list
     \<Rightarrow> requested_service_spec \<times> machine_observation list \<Rightarrow> capacity_admission
     \<Rightarrow> placement_state \<Rightarrow> plan_options
     \<Rightarrow> (deploy_operation list \<times> machine_id option \<times> placement_state) planned" where
  "plan_replicated x service_id current volumes admission placement options =
     (case volumes of (requested, machines) \<Rightarrow>
      rbind (admitted_reservation x requested current machines admission placement options)
        (\<lambda>(reservation, placement).
      rbind (rfold (plan_choice x requested service_id options (index_containers current))
          (rr_choices reservation) \<lparr> cp_placement = placement, cp_used = [], cp_operations = [] \<rparr>) (\<lambda>plan.
      let plan = remove_unused current plan in
      Inr (cp_operations plan, rr_hook_machine reservation, cp_placement plan))))"

subsection \<open>Global Services\<close>

text \<open>\<open>resolve\<close> panics on a graph that is not scoped, and the comparison is false here then; by
  \<open>resolve_total\<close> it returns on the scoped graphs the planner binds.\<close>

definition reusable_global ::
  "container_observation \<Rightarrow> requested_service_spec \<Rightarrow> plan_options \<Rightarrow> bool" where
  "reusable_global container requested options =
     (\<not> po_force_recreate options \<and> \<not> is_active_runtime (co_runtime container)
        \<and> bt_contains (co_labels container) ''ployz.creation.key''
        \<and> resolve requested (co_service_id container) (ru_order (rs_update (co_resolved_spec container)))
            = Inr (co_resolved_spec container))"

definition global_endpoint_operation ::
  "ext \<Rightarrow> container_observation list \<Rightarrow> machine_id \<Rightarrow> requested_service_spec \<Rightarrow> plan_options
     \<Rightarrow> endpoint_operation" where
  "global_endpoint_operation x current machine_id requested options =
     (if list_ex (\<lambda>container. is_up_to_date x container requested options
            \<or> reusable_global container requested options) (on_machine current machine_id)
      then Unchanged
      else if list_ex (\<lambda>container. is_active_runtime (co_runtime container)) (on_machine current machine_id)
      then Replace
      else Create)"

definition reserve_endpoint ::
  "plan_error \<Rightarrow> machine_id \<Rightarrow> endpoint_demand \<Rightarrow> container_plan \<Rightarrow> container_plan planned" where
  "reserve_endpoint capacity_error machine_id demand plan =
     rbind (budget_reserve (ps_capacity (cp_placement plan)) machine_id demand) (\<lambda>(granted, capacity).
       if granted
       then Inr (plan\<lparr> cp_placement := (cp_placement plan)\<lparr> ps_capacity := capacity \<rparr> \<rparr>)
       else Inl (Err capacity_error))"

text \<open>The body of the loop over the Machines.\<close>

definition plan_global_machine ::
  "ext \<Rightarrow> service_id \<Rightarrow> container_observation list \<Rightarrow> requested_service_spec \<Rightarrow> plan_options
     \<Rightarrow> machine_id option \<Rightarrow> plan_error \<Rightarrow> machine_id \<Rightarrow> container_plan \<Rightarrow> container_plan planned" where
  "plan_global_machine x service_id current requested options hook_machine capacity_error machine_id plan =
     (let plan = plan\<lparr> cp_placement := occupy machine_id (cp_placement plan) \<rparr>;
          here = on_machine current machine_id
      in case List.find (\<lambda>container. is_up_to_date x container requested options) here of
           Some kept \<Rightarrow> Inr (use_container (co_container_id kept) plan)
         | None \<Rightarrow>
         (case List.find (\<lambda>container. reusable_global container requested options) here of
           Some container \<Rightarrow>
             rbind (admit_sockets x machine_id requested None Create
                 (use_container (co_container_id container) plan)) (\<lambda>plan.
             Inr (add_operation (RunContainer machine_id (co_resolved_spec container)
               (po_skip_health_monitor options)) plan))
         | None \<Rightarrow>
         (case List.find (\<lambda>container. is_active_runtime (co_runtime container)) here of
           Some container \<Rightarrow>
             rbind (reserve_endpoint capacity_error machine_id
                 (demand_for_operation Replace (hook_machine = Some machine_id)) plan) (\<lambda>plan.
             plan_replace x requested service_id options machine_id container
               (fold (free_host_ports machine_id)
                  (map co_container_id (filter (\<lambda>other.
                     co_container_id other \<noteq> co_container_id container
                     \<and> is_active_runtime (co_runtime other)
                     \<and> ports_conflict x (rs_ports (co_resolved_spec other)) (rq_ports requested)) here))
                  (use_container (co_container_id container) plan)))
         | None \<Rightarrow>
             rbind (reserve_endpoint capacity_error machine_id
                 (demand_for_operation Create (hook_machine = Some machine_id)) plan) (\<lambda>plan.
             plan_run x requested service_id options machine_id plan))))"

definition plan_global ::
  "ext \<Rightarrow> service_id \<Rightarrow> container_observation list \<Rightarrow> container_observation list
     \<Rightarrow> requested_service_spec \<times> machine_observation list \<Rightarrow> placement_state \<Rightarrow> plan_options
     \<Rightarrow> (deploy_operation list \<times> machine_id option \<times> placement_state) planned" where
  "plan_global x service_id current hooks volumes placement options =
     (case volumes of (requested, machines) \<Rightarrow>
      let ids = map (\<lambda>machine. m_id (mo_machine machine)) machines;
          operation = (\<lambda>machine_id. global_endpoint_operation x current machine_id requested options);
          changing = filter (\<lambda>machine_id. operation machine_id \<noteq> Unchanged) ids;
          placement = (if rq_pre_deploy requested \<noteq> None \<and> changing \<noteq> []
            then state_release_hooks placement hooks else placement);
          capacity_error = budget_error_for (ps_capacity placement) changing;
          hook_machine = (if rq_pre_deploy requested = None then None
            else List.find (\<lambda>machine_id. operation machine_id \<noteq> Unchanged
              \<and> budget_fits_demand (ps_capacity placement) machine_id
                  (demand_for_operation (operation machine_id) True)) ids)
      in if rq_pre_deploy requested \<noteq> None \<and> hook_machine = None \<and> changing \<noteq> []
         then Inl (Err capacity_error)
         else
           rbind (rfold (plan_global_machine x service_id current requested options hook_machine capacity_error)
               ids \<lparr> cp_placement = placement, cp_used = [], cp_operations = [] \<rparr>) (\<lambda>plan.
           let plan = remove_unused current plan in
           Inr (cp_operations plan, hook_machine, cp_placement plan)))"

section \<open>Reservations for shared Volumes\<close>

definition choice_container :: "replica_action \<Rightarrow> container_id option" where
  "choice_container action =
     (case action of Keep c \<Rightarrow> Some c | Exchange c _ \<Rightarrow> Some c | Start_New \<Rightarrow> None)"

definition reserve_replicated_service_demand ::
  "ext \<Rightarrow> requested_service_spec \<Rightarrow> service_observation option \<Rightarrow> machine_id \<Rightarrow> plan_options
     \<Rightarrow> capacity_budget \<times> host_sockets
     \<Rightarrow> (replicated_reservation \<times> capacity_budget \<times> host_sockets) planned" where
  "reserve_replicated_service_demand x requested observed machine_id options budget =
     (let current = (case observed of None \<Rightarrow> [] | Some service \<Rightarrow> so_containers service);
          hooks = (case observed of None \<Rightarrow> [] | Some service \<Rightarrow> so_hook_containers service);
          releases = (case rq_mode requested of
              Global \<Rightarrow> False
            | Replicated replicas \<Rightarrow>
                rq_pre_deploy requested \<noteq> None
                \<and> length (filter (\<lambda>container. co_machine_id container = machine_id
                    \<and> is_up_to_date x container requested options) current) < replicas);
          capacity = (if releases then release_hooks (fst budget) hooks else fst budget)
      in rbind (select_replicated x requested current [machine_id] [] (capacity, snd budget)
             (budget_error_for capacity [machine_id]) options) (\<lambda>(reservation, capacity, sockets).
         let chosen = (\<lambda>container. list_ex (\<lambda>choice.
               choice_container (ch_action choice) = Some (co_container_id container)) (rr_choices reservation))
         in Inr (reservation, capacity,
              fold (\<lambda>container sockets. sockets_release sockets (co_machine_id container) (co_container_id container))
                (filter (\<lambda>container. \<not> chosen container) current) sockets)))"

definition reserve_service ::
  "ext \<Rightarrow> machine_id \<Rightarrow> service_observation list \<Rightarrow> plan_options \<Rightarrow> requested_service_spec
     \<Rightarrow> placement_reservations \<Rightarrow> placement_reservations planned" where
  "reserve_service x machine_id observed options spec state =
     rbind (reserve_replicated_service_demand x spec
         (List.find (\<lambda>service. qs_name (so_identity service) = rq_name spec) observed) machine_id options
         (pr_capacity state, pr_sockets state)) (\<lambda>(reservation, capacity, sockets).
     Inr \<lparr> pr_capacity = capacity, pr_sockets = sockets,
           pr_reservations = bt_insert (rq_name spec) reservation (pr_reservations state) \<rparr>)"

definition reserve_on ::
  "ext \<Rightarrow> machine_id \<Rightarrow> requested_service_spec list \<Rightarrow> service_observation list \<Rightarrow> plan_options
     \<Rightarrow> placement_reservations \<Rightarrow> placement_reservations planned" where
  "reserve_on x machine_id requested observed options state =
     rfold (reserve_service x machine_id observed options) requested state"

end
