(* ===== verification/Candidates.thy ===== *)
theory Candidates
  imports Deploy_Model
begin

unbundle bit_operations_syntax

text \<open>
  The candidate Machines of a Service, in the part of \<open>ployz/src/deploy/planning.rs\<close> that the volume
  planner and the planner share: which Machines are eligible, the error when none is, and the
  seeded shuffle that varies the choice between equals.
\<close>

section \<open>Shuffle\<close>

definition scramble :: "u64 \<Rightarrow> u64" where
  "scramble state =
     (let state = (state XOR drop_bit 30 state) * 0xbf58476d1ce4e5b9;
          state = (state XOR drop_bit 27 state) * 0x94d049bb133111eb
      in state XOR drop_bit 31 state)"

definition placement_seed_state :: "u64 \<Rightarrow> service_name \<Rightarrow> u64" where
  "placement_seed_state seed name =
     fold (\<lambda>byte state. scramble (state + of_char byte + 0x9e3779b97f4a7c15)) name seed"

text \<open>\<open>usize\<close> has 64 bits, so the remainder is taken of the whole word.\<close>

definition shuffle_index :: "u64 \<Rightarrow> nat \<Rightarrow> nat" where
  "shuffle_index state upper = nat (uint (scramble state) mod (int upper + 1))"

definition swap :: "'a list \<Rightarrow> nat \<Rightarrow> nat \<Rightarrow> 'a list" where
  "swap values i j = values[i := values ! j, j := values ! i]"

fun shuffle_from :: "nat \<Rightarrow> u64 \<Rightarrow> 'a list \<Rightarrow> 'a list" where
  "shuffle_from 0 state values = values"
| "shuffle_from (Suc n) state values =
     (let state = state + 0x9e3779b97f4a7c15
      in shuffle_from n state (swap values (Suc n) (shuffle_index state (Suc n))))"

definition shuffle :: "'a list \<Rightarrow> u64 \<Rightarrow> 'a list" where
  "shuffle values state = shuffle_from (length values - 1) state values"

section \<open>Eligible Machines\<close>

definition observed_eligibility ::
  "requested_service_spec \<Rightarrow> namespace \<Rightarrow> machine_observation \<Rightarrow> service_placement_eligibility" where
  "observed_eligibility spec namespace machine =
     rq_placement_eligibility_in_namespace spec namespace (mo_machine machine) (mo_storage machine)"

definition placement_error :: "requested_service_spec \<Rightarrow> namespace \<Rightarrow> deploy_snapshot \<Rightarrow> plan_error" where
  "placement_error spec namespace snapshot =
     (if ds_machines snapshot = [] then no_eligible_machines [NoMachines]
      else
        let matched = filter (\<lambda>machine. machine_matches_placement (mo_machine machine) (rq_placement spec))
              (ds_machines snapshot)
        in if matched = [] then no_eligible_machines [UnknownPlacement (rq_placement spec)]
           else
             let down = map (\<lambda>machine. m_name (mo_machine machine))
                   (filter (\<lambda>machine. mo_membership machine = Down) matched);
                 refused = map (\<lambda>machine. m_name (mo_machine machine))
                   (filter (\<lambda>machine. mo_membership machine \<noteq> Down
                      \<and> observed_eligibility spec namespace machine = Ineligible WorkNotAccepted) matched)
             in no_eligible_machines
                  ((if down = [] then [] else [MachineDown down])
                   @ (if refused = [] then [] else [Constraint_WorkNotAccepted refused])))"

definition placement_candidates ::
  "requested_service_spec \<Rightarrow> namespace \<Rightarrow> deploy_snapshot \<Rightarrow> machine_observation list planned" where
  "placement_candidates requested namespace snapshot =
     (let candidates = filter (\<lambda>machine. mo_membership machine \<noteq> Down
            \<and> observed_eligibility requested namespace machine \<noteq> Ineligible PlacementMismatch
            \<and> observed_eligibility requested namespace machine \<noteq> Ineligible WorkNotAccepted)
            (ds_machines snapshot)
      in if candidates = [] then Inl (Err (placement_error requested namespace snapshot))
         else Inr candidates)"

definition is_unknown :: "service_placement_eligibility \<Rightarrow> bool" where
  "is_unknown eligibility = (case eligibility of Unknown _ \<Rightarrow> True | _ \<Rightarrow> False)"

definition eligible_machines ::
  "requested_service_spec \<Rightarrow> namespace \<Rightarrow> deploy_snapshot \<Rightarrow> plan_options
     \<Rightarrow> machine_observation list planned" where
  "eligible_machines requested namespace snapshot options =
     rbind (placement_candidates requested namespace snapshot) (\<lambda>candidates.
     let unknown = map (\<lambda>machine. m_name (mo_machine machine))
           (filter (\<lambda>machine. is_unknown (observed_eligibility requested namespace machine)) candidates);
         machines = filter (\<lambda>machine. observed_eligibility requested namespace machine = Eligible) candidates
     in if machines = [] then
          if unknown \<noteq> [] then Inl (Err (ProvisionedVolumeStorageUnknown unknown))
          else if rq_placement requested \<noteq> [] \<and> length candidates = 1
          then Inl (Err (ProvisionedVolumeStorageRequired (m_name (mo_machine (hd candidates)))))
          else Inl (Err ProvisionedVolumeStorageUnavailable)
        else Inr (shuffle machines (placement_seed_state (po_placement_seed options) (rq_name requested))))"

definition storage_eligibility_warnings ::
  "requested_service_spec list \<Rightarrow> namespace \<Rightarrow> deploy_snapshot \<Rightarrow> deploy_warning list" where
  "storage_eligibility_warnings requested namespace snapshot =
     map StorageObservationUnknown (rev (remdups (rev
       (map (\<lambda>machine. m_id (mo_machine machine))
          (concat (map (\<lambda>spec.
             filter (\<lambda>machine. mo_membership machine \<noteq> Down
                \<and> is_unknown (observed_eligibility spec namespace machine)) (ds_machines snapshot))
             requested))))))"

definition service_error :: "bool \<Rightarrow> string \<Rightarrow> plan_error \<Rightarrow> plan_error" where
  "service_error name_errors_with_service service source =
     (if name_errors_with_service then Service_Error service source else source)"

section \<open>The shuffle permutes\<close>

lemma shuffle_index_le: "shuffle_index state upper \<le> upper"
  using pos_mod_bound [of "int upper + 1" "uint (scramble state)"] by (simp add: shuffle_index_def)

lemma mset_swap: "i < length xs \<Longrightarrow> j < length xs \<Longrightarrow> mset (swap xs i j) = mset xs"
  by (simp add: swap_def mset_update nth_list_update)

lemma mset_shuffle_from: "n < length xs \<or> n = 0 \<Longrightarrow> mset (shuffle_from n state xs) = mset xs"
proof (induction n arbitrary: state xs)
  case (Suc n)
  let ?state = "state + 0x9e3779b97f4a7c15"
  have "shuffle_index ?state (Suc n) < length xs"
    using Suc.prems shuffle_index_le [of ?state "Suc n"] by simp
  then show ?case
    using Suc mset_swap [of "Suc n" xs] by (simp add: Let_def swap_def)
qed simp

lemma mset_shuffle: "mset (shuffle xs state) = mset xs"
  unfolding shuffle_def by (rule mset_shuffle_from) auto

lemma set_shuffle [simp]: "set (shuffle xs state) = set xs"
  by (metis mset_shuffle set_mset_mset)

section \<open>What the candidates are\<close>

definition may_host :: "requested_service_spec \<Rightarrow> namespace \<Rightarrow> machine_observation \<Rightarrow> bool" where
  "may_host spec namespace machine \<longleftrightarrow>
     mo_membership machine \<noteq> Down \<and> observed_eligibility spec namespace machine = Eligible"

lemma placement_candidates_Inr:
  "placement_candidates spec namespace snapshot = Inr candidates \<Longrightarrow>
     candidates \<noteq> [] \<and> set candidates \<subseteq> set (ds_machines snapshot)"
  by (auto simp: placement_candidates_def Let_def split: if_splits)

lemma eligible_machines_Inr:
  assumes "eligible_machines spec namespace snapshot options = Inr machines"
  shows "mset machines = mset (filter (may_host spec namespace) (ds_machines snapshot)) \<and> machines \<noteq> []"
proof -
  have "filter (\<lambda>machine. observed_eligibility spec namespace machine = Eligible)
      (filter (\<lambda>machine. mo_membership machine \<noteq> Down
            \<and> observed_eligibility spec namespace machine \<noteq> Ineligible PlacementMismatch
            \<and> observed_eligibility spec namespace machine \<noteq> Ineligible WorkNotAccepted) ms)
      = filter (may_host spec namespace) ms" for ms
    by (induction ms) (auto simp: may_host_def)
  with assms have "filter (may_host spec namespace) (ds_machines snapshot) \<noteq> []"
    "machines = shuffle (filter (may_host spec namespace) (ds_machines snapshot))
       (placement_seed_state (po_placement_seed options) (rq_name spec))"
    by (auto simp: eligible_machines_def placement_candidates_def Let_def rbind_eq_Inr split: if_splits)
  then show ?thesis
    using mset_shuffle by (metis mset_zero_iff)
qed

lemma placement_candidates_no_panic: "placement_candidates spec namespace snapshot \<noteq> Inl Panic"
  by (auto simp: placement_candidates_def Let_def)

lemma eligible_machines_no_panic: "eligible_machines spec namespace snapshot options \<noteq> Inl Panic"
  by (auto simp: eligible_machines_def Let_def rbind_eq_Inl placement_candidates_no_panic)

text \<open>
  Claim C40. The candidates of a Service are exactly the Machines of the snapshot that are not down
  and eligible, each as often as it was observed, whatever the seed; only their order depends on it.
  There is an error exactly when there is no such Machine, and never a panic.
\<close>

theorem eligible_machines_exact:
  "case eligible_machines spec namespace snapshot options of
     Inr machines \<Rightarrow> mset machines = mset (filter (may_host spec namespace) (ds_machines snapshot)) \<and> machines \<noteq> []
   | Inl e \<Rightarrow> e \<noteq> Panic \<and> filter (may_host spec namespace) (ds_machines snapshot) = []"
proof (cases "eligible_machines spec namespace snapshot options")
  case (Inl e)
  moreover have "filter (may_host spec namespace) (ds_machines snapshot) = []"
    using Inl by (auto simp: eligible_machines_def placement_candidates_def Let_def rbind_eq_Inl
        filter_empty_conv may_host_def split: if_splits)
  moreover have "e \<noteq> Panic"
    using Inl eligible_machines_no_panic by auto
  ultimately show ?thesis
    by simp
next
  case (Inr machines)
  then show ?thesis
    using eligible_machines_Inr by simp
qed

end
