(* ===== verification/Volume_Placement.thy ===== *)
theory Volume_Placement
  imports Placement Candidates
begin

text \<open>
  The volume planner, \<open>ployz/src/deploy/planning/volumes.rs\<close> and \<open>planning/storage.rs\<close>. It owns the
  ledger of assigned Volumes: choosing a Machine for a Service records the Service's storage there,
  and locality, budgets and the rows of Volumes to create are read off the ledger.

  The functions that only return errors of the code have the type \<open>(plan_error, _) result\<close>; those
  that reach an \<open>expect\<close> or \<open>unreachable!\<close> return \<open>planned\<close> values.
\<close>

section \<open>Storage of a Machine\<close>

definition volume_bounds :: "service_volume list \<Rightarrow> (docker_volume_name, u64) btree" where
  "volume_bounds volumes =
     bt_collect (List.map_filter (\<lambda>volume.
       case vs_source (sv_source volume) of
         Provisioned name maximum_bytes _ \<Rightarrow> Some (name, maximum_bytes)
       | Bind _ _ _ _ \<Rightarrow> None | External _ \<Rightarrow> None | Ordinary _ _ _ \<Rightarrow> None | Tmpfs _ _ _ \<Rightarrow> None) volumes)"

definition machine_storage_error :: "machine_observation \<Rightarrow> storage_capacity_error \<Rightarrow> plan_error" where
  "machine_storage_error machine source =
     Storage_Error (m_id (mo_machine machine)) (m_name (mo_machine machine)) source"

definition machine_capacity ::
  "deploy_snapshot \<Rightarrow> machine_observation \<Rightarrow> (plan_error, storage_capacity) result" where
  "machine_capacity snapshot machine =
     (case bt_get (ds_storage_capacity snapshot) (m_id (mo_machine machine)) of
        Some (Inr capacity) \<Rightarrow> Inr capacity
      | Some (Inl error) \<Rightarrow>
          Inl (machine_storage_error machine (StorageCapacityUnknown (rpc_message error)))
      | None \<Rightarrow>
          Inl (machine_storage_error machine
            (StorageCapacityUnknown ''the Machine did not return fresh storage capacity'')))"

definition machine_budget ::
  "deploy_snapshot \<Rightarrow> machine_observation \<Rightarrow> (docker_volume_name, u64) btree
     \<Rightarrow> (plan_error, storage_budget) result" where
  "machine_budget snapshot machine volumes =
     rbind (machine_capacity snapshot machine) (\<lambda>capacity.
     map_err (machine_storage_error machine) (storage_capacity_budget capacity volumes))"

section \<open>The ledger\<close>

record volume_plan =
  vp_snapshot :: deploy_snapshot
  vp_namespace :: namespace
  vp_assignments :: "(machine_id, (service_name, service_storage_spec) btree) btree"

record planned_volumes =
  plv_creates :: "(machine_id \<times> service_volume) list"
  plv_budgets :: "machine_storage_budget list"

datatype volume_locality = Absent | Located machine_id "machine_id list"

datatype volume_presence_shape = Shape_DockerVolume docker_volume | ProvisionedDataset

record volume_presence =
  at_machine_id :: machine_id
  at_name :: docker_volume_name
  at_shape :: volume_presence_shape

definition managed_volume_name :: "service_volume \<Rightarrow> docker_volume_name option" where
  "managed_volume_name volume = managed_docker_volume_name (sv_source volume)"

definition mounted_managed_volumes :: "service_volume_graph \<Rightarrow> service_volume list" where
  "mounted_managed_volumes graph =
     bt_values (fold (\<lambda>volume by_docker_name.
       case managed_volume_name volume of
         None \<Rightarrow> by_docker_name
       | Some name \<Rightarrow> bt_or_insert name volume by_docker_name) (mounted_volumes graph) [])"

definition presence_matches :: "volume_presence \<Rightarrow> service_volume \<Rightarrow> bool" where
  "presence_matches located volume =
     (if managed_volume_name volume \<noteq> Some (at_name located) then False
      else case at_shape located of
          Shape_DockerVolume observed \<Rightarrow> matches_managed_volume (sv_source volume) observed
        | ProvisionedDataset \<Rightarrow> is_provisioned (vs_source (sv_source volume)))"

definition observed_locations :: "volume_plan \<Rightarrow> volume_presence list" where
  "observed_locations plan =
     map (\<lambda>observed. \<lparr> at_machine_id = volume_machine_id (dv_id observed),
            at_name = volume_name (dv_id observed), at_shape = Shape_DockerVolume observed \<rparr>)
       (vsn_observations (ds_volume_snapshot (vp_snapshot plan)))
     @ concat (map (\<lambda>(machine_id, capacity).
         case capacity of
           Inl _ \<Rightarrow> []
         | Inr capacity \<Rightarrow>
             map (\<lambda>name. \<lparr> at_machine_id = machine_id, at_name = name, at_shape = ProvisionedDataset \<rparr>)
               (bt_keys (committed_volumes capacity)))
         (ds_storage_capacity (vp_snapshot plan)))"

definition assigned_volumes :: "volume_plan \<Rightarrow> (machine_id \<times> service_volume) list" where
  "assigned_volumes plan =
     concat (map (\<lambda>(machine_id, specs).
       concat (map (\<lambda>spec. map (Pair machine_id) (mounted_volumes (ss_volumes spec))) (bt_values specs)))
       (vp_assignments plan))"

definition plan_storage_budget ::
  "volume_plan \<Rightarrow> machine_observation \<Rightarrow> service_volume list \<Rightarrow> (plan_error, storage_budget option) result" where
  "plan_storage_budget plan machine volumes =
     (let requested = volume_bounds
            (map snd (filter (\<lambda>(machine_id, _). machine_id = m_id (mo_machine machine)) (assigned_volumes plan))
              @ volumes)
      in if requested = [] then Inr None
         else rbind (machine_budget (vp_snapshot plan) machine requested) (\<lambda>budget. Inr (Some budget)))"

definition plan_assign :: "machine_id \<Rightarrow> requested_service_spec \<Rightarrow> volume_plan \<Rightarrow> volume_plan planned" where
  "plan_assign machine_id spec plan =
     (let specs = (case bt_get (vp_assignments plan) machine_id of None \<Rightarrow> [] | Some specs \<Rightarrow> specs)
      in if bt_contains specs (rq_name spec) then Inr plan
         else case storage_spec_of_requested spec of
             Inl _ \<Rightarrow> Inl Panic
           | Inr storage \<Rightarrow>
               Inr (plan\<lparr> vp_assignments :=
                 bt_insert machine_id (bt_insert (rq_name spec) storage specs) (vp_assignments plan) \<rparr>))"

definition incompatible_on :: "volume_plan \<Rightarrow> machine_id \<Rightarrow> service_volume \<Rightarrow> bool" where
  "incompatible_on plan machine_id volume =
     (list_ex (\<lambda>(id', assigned). id' = machine_id
          \<and> managed_volume_name volume = managed_volume_name assigned
          \<and> to_create_volume_request (sv_source assigned) \<noteq> to_create_volume_request (sv_source volume))
        (assigned_volumes plan)
      \<or> list_ex (\<lambda>located. at_machine_id located = machine_id
          \<and> managed_volume_name volume = Some (at_name located)
          \<and> \<not> presence_matches located volume) (observed_locations plan))"

definition plan_locality :: "volume_plan \<Rightarrow> service_volume \<Rightarrow> (plan_error, volume_locality) result" where
  "plan_locality plan volume =
     (let assigned = bs_collect (map fst (filter (\<lambda>(_, assigned).
            managed_volume_name volume = managed_volume_name assigned) (assigned_volumes plan)));
          locations = (if assigned = []
            then bs_collect (map at_machine_id
              (filter (\<lambda>located. presence_matches located volume) (observed_locations plan)))
            else assigned)
      in case locations of
           first # others \<Rightarrow> Inr (Located first others)
         | [] \<Rightarrow>
             if is_provisioned (vs_source (sv_source volume))
             then rbind (rmap (machine_capacity (vp_snapshot plan)) (ds_machines (vp_snapshot plan)))
               (\<lambda>_. Inr Absent)
             else Inr Absent)"

section \<open>Constraints of the mounted Volumes\<close>

definition plan_find_machine :: "deploy_snapshot \<Rightarrow> machine_id \<Rightarrow> machine_observation option" where
  "plan_find_machine snapshot machine_id =
     List.find (\<lambda>machine. m_id (mo_machine machine) = machine_id) (ds_machines snapshot)"

definition add_unless_in :: "'a \<Rightarrow> 'a list \<Rightarrow> 'a list" where
  "add_unless_in a xs = (if a \<in> set xs then xs else xs @ [a])"

definition volume_located_on :: "deploy_snapshot \<Rightarrow> volume_plan \<Rightarrow> docker_volume_name \<Rightarrow> machine_name list" where
  "volume_located_on snapshot plan name =
     fold (\<lambda>located located_on.
        case plan_find_machine snapshot (at_machine_id located) of
          None \<Rightarrow> located_on
        | Some machine \<Rightarrow> add_unless_in (m_name (mo_machine machine)) located_on)
       (filter (\<lambda>located. at_name located = name) (observed_locations plan)) []"

definition volume_anchor ::
  "deploy_snapshot \<Rightarrow> volume_plan \<Rightarrow> docker_volume_name \<Rightarrow> placement_constraint list
     \<Rightarrow> eliminating_constraint option" where
  "volume_anchor snapshot plan name requested =
     (let located_on = volume_located_on snapshot plan name;
          hits_located = list_ex (\<lambda>machine. m_name (mo_machine machine) \<in> set located_on
            \<and> list_all (\<lambda>constraint. constraint_matches constraint (mo_machine machine) = Some True) requested)
            (ds_machines snapshot)
      in if located_on = [] then
           if requested = [] then None else Some (SharedVolumeNoCommonMachine name requested)
         else if requested = [] \<or> hits_located then Some (VolumeAlreadyOn name located_on)
         else Some (VolumeConflictsWithPlacement name located_on requested))"

text \<open>The loops over the mounted provisioned Volumes and the Machines; other sources are filtered out
  before, so their branches, \<open>unreachable!\<close> in the code, are not taken.\<close>

definition validate_existing ::
  "deploy_snapshot \<Rightarrow> service_volume \<Rightarrow> machine_observation \<Rightarrow> (plan_error, unit) result" where
  "validate_existing snapshot volume machine =
     (case vs_source (sv_source volume) of
        Provisioned name maximum_bytes _ \<Rightarrow>
          (case List.find (\<lambda>existing. volume_machine_id (dv_id existing) = m_id (mo_machine machine)
                \<and> volume_name (dv_id existing) = name) (vsn_observations (ds_volume_snapshot snapshot)) of
             None \<Rightarrow> Inr ()
           | Some existing \<Rightarrow>
               (case dv_storage existing of
                  Plain _ \<Rightarrow> Inl (ExistingPlainVolume name (m_name (mo_machine machine)))
                | Provisioned_Storage _ _ _ \<Rightarrow>
                    if \<not> matches_managed_volume (sv_source volume) existing
                    then Inl (ExistingProvisionedVolumeMismatch name (m_name (mo_machine machine)) maximum_bytes)
                    else Inr ()))
      | _ \<Rightarrow> Inr ())"

definition validate_provisioned_volumes ::
  "deploy_snapshot \<Rightarrow> requested_service_spec \<Rightarrow> machine_observation list \<Rightarrow> (plan_error, unit) result" where
  "validate_provisioned_volumes snapshot spec machines =
     rfold (\<lambda>volume _. rfold (\<lambda>machine _. validate_existing snapshot volume machine) machines ())
       (mounted_provisioned_volumes (rq_volume_graph spec)) ()"

text \<open>The loop over the mounted Volumes keeps the Machines and the missing Volumes.\<close>

definition constrain_volume ::
  "volume_plan \<Rightarrow> service_mode \<Rightarrow> service_volume \<Rightarrow> machine_observation list \<times> service_volume list
     \<Rightarrow> (plan_error, machine_observation list \<times> service_volume list) result" where
  "constrain_volume plan mode volume st =
     (case st of (machines, missing) \<Rightarrow>
      let machines = filter (\<lambda>machine. \<not> incompatible_on plan (m_id (mo_machine machine)) volume) machines
      in case mode of
           Global \<Rightarrow> Inr (machines, missing)
         | Replicated _ \<Rightarrow>
             rbind (plan_locality plan volume) (\<lambda>locality.
             case locality of
               Located first others \<Rightarrow>
                 Inr (filter (\<lambda>machine. m_id (mo_machine machine) = first
                        \<or> m_id (mo_machine machine) \<in> set others) machines, missing)
             | Absent \<Rightarrow> Inr (machines, missing @ [volume])))"

definition volume_constraints ::
  "requested_service_spec \<Rightarrow> deploy_snapshot \<Rightarrow> volume_plan \<Rightarrow> machine_observation list
     \<Rightarrow> (plan_error, service_volume list \<times> service_volume list \<times> machine_observation list) result" where
  "volume_constraints spec snapshot plan machines =
     (let mounted = mounted_managed_volumes (rq_volume_graph spec);
          gap = (\<lambda>machine. machine_gap (ds_volume_snapshot snapshot) (m_id (mo_machine machine)));
          incomplete = List.find (\<lambda>machine. gap machine \<noteq> None) machines;
          machines = (if mounted \<noteq> [] then filter (\<lambda>machine. gap machine = None) machines else machines);
          unavailable = (if machines \<noteq> [] then None else
            case (incomplete, mounted) of
              (Some machine, volume # _) \<Rightarrow>
                (case (gap machine, managed_volume_name volume) of
                   (Some message, Some name) \<Rightarrow>
                     Some (DockerVolumeUnavailable (DockerVolumeId (m_id (mo_machine machine)) name)
                       (Machine_Inventory_Gap (m_name (mo_machine machine)) message))
                 | _ \<Rightarrow> None)
            | _ \<Rightarrow> None)
      in case unavailable of
           Some error \<Rightarrow> Inl error
         | None \<Rightarrow>
         (case named_gap (ds_volume_snapshot snapshot) (\<lambda>volume_id.
             list_ex (\<lambda>machine. m_id (mo_machine machine) = volume_machine_id volume_id) machines
             \<and> list_ex (\<lambda>volume. managed_volume_name volume = Some (volume_name volume_id)) mounted) of
           Some (volume_id, error) \<Rightarrow> Inl (DockerVolumeUnavailable volume_id (Volume_Inspection_Failure error))
         | None \<Rightarrow>
             rbind (rfold (constrain_volume plan (rq_mode spec)) mounted (machines, [])) (\<lambda>(machines, missing).
             if machines = []
             then Inl (no_eligible_machines (List.map_filter (\<lambda>name.
                     volume_anchor snapshot plan name (rq_placement spec))
                   (List.map_filter managed_volume_name mounted)))
             else Inr (mounted, missing, machines))))"

definition planned_volume_constraints ::
  "requested_service_spec \<Rightarrow> deploy_snapshot \<Rightarrow> volume_plan \<Rightarrow> machine_observation list
     \<Rightarrow> (plan_error, service_volume list \<times> service_volume list \<times> machine_observation list) result" where
  "planned_volume_constraints spec snapshot plan machines =
     rbind (validate_provisioned_volumes snapshot spec machines) (\<lambda>_.
     volume_constraints spec snapshot plan machines)"

definition constrain_candidates ::
  "volume_plan \<Rightarrow> requested_service_spec \<Rightarrow> machine_observation list
     \<Rightarrow> (plan_error, machine_observation list) result" where
  "constrain_candidates plan spec machines =
     rbind (planned_volume_constraints spec (vp_snapshot plan) plan machines)
       (\<lambda>(_, _, machines). Inr machines)"

section \<open>Validation of the declared Volumes\<close>

definition scope_requested :: "namespace \<Rightarrow> requested_service_spec \<Rightarrow> requested_service_spec planned" where
  "scope_requested namespace spec =
     (case mount_graph_scope namespace (rq_mount_graph spec) of
        Inr graph \<Rightarrow> Inr (spec\<lparr> rq_mount_graph := graph \<rparr>)
      | Inl (IncompatibleVolumeAliases name) \<Rightarrow> Inl (Err (ConflictingDockerVolumeDefinitions name))
      | Inl _ \<Rightarrow> Inl Panic)"

type_synonym volume_definitions = "(docker_volume_id, volume_source) btree"

definition record_definition ::
  "service_volume \<Rightarrow> machine_observation \<Rightarrow> volume_definitions \<Rightarrow> (plan_error, volume_definitions) result" where
  "record_definition volume machine definitions =
     (case vs_source (sv_source volume) of
        Provisioned name _ _ \<Rightarrow>
          (let volume_id = DockerVolumeId (m_id (mo_machine machine)) name in
           if bt_get definitions volume_id \<notin> {None, Some (sv_source volume)}
           then Inl (ConflictingDockerVolumeDefinitions name)
           else Inr (bt_insert volume_id (sv_source volume) definitions))
      | _ \<Rightarrow> Inr definitions)"

definition record_provisioned ::
  "requested_service_spec \<Rightarrow> machine_observation list \<Rightarrow> volume_definitions
     \<Rightarrow> (plan_error, volume_definitions) result" where
  "record_provisioned spec machines definitions =
     rfold (\<lambda>volume. rfold (record_definition volume) machines)
       (mounted_provisioned_volumes (rq_volume_graph spec)) definitions"

definition validate_definition ::
  "volume_plan \<Rightarrow> requested_service_spec \<Rightarrow> volume_definitions \<Rightarrow> volume_definitions planned" where
  "validate_definition plan spec definitions =
     rbind (placement_candidates spec (vp_namespace plan) (vp_snapshot plan)) (\<lambda>candidates.
     rbind (map_err Err (record_provisioned spec candidates definitions)) (\<lambda>definitions.
     let machines = filter (\<lambda>machine.
           observed_eligibility spec (vp_namespace plan) machine = Eligible) candidates
     in if machines = [] then Inr definitions
        else rbind (map_err Err (validate_provisioned_volumes (vp_snapshot plan) spec machines)) (\<lambda>_.
          rbind (map_err Err (volume_constraints spec (vp_snapshot plan) plan machines)) (\<lambda>_.
          Inr definitions))))"

definition validate_provisioned_volume_definitions ::
  "volume_plan \<Rightarrow> requested_service_spec list \<Rightarrow> volume_definitions planned" where
  "validate_provisioned_volume_definitions plan target =
     rfold (\<lambda>spec definitions.
        if \<not> has_mounted_provisioned_volume (rq_volume_graph spec) then Inr definitions
        else map_fault (service_error (1 < length target) (rq_name spec))
          (validate_definition plan spec definitions)) target []"

section \<open>Volumes that Services share\<close>

record managed_volume_use =
  mu_service_name :: service_name
  mu_service :: requested_service_spec
  mu_global :: bool

type_synonym volume_uses = "(docker_volume_name, managed_volume_use list) btree"

definition add_use :: "requested_service_spec \<Rightarrow> managed_volume_use list \<Rightarrow> managed_volume_use list" where
  "add_use spec uses =
     (if list_ex (\<lambda>volume_use. mu_service_name volume_use = rq_name spec) uses then uses
      else uses @ [\<lparr> mu_service_name = rq_name spec, mu_service = spec, mu_global = (rq_mode spec = Global) \<rparr>])"

definition managed_volume_uses :: "requested_service_spec list \<Rightarrow> volume_uses" where
  "managed_volume_uses requested =
     fold (\<lambda>spec. fold (\<lambda>volume uses.
         case managed_volume_name volume of
           None \<Rightarrow> uses
         | Some name \<Rightarrow> bt_update_default name [] (add_use spec) uses)
       (mounted_volumes (rq_volume_graph spec))) requested []"

definition reject_mixed_volume_modes :: "volume_uses \<Rightarrow> (plan_error, unit) result" where
  "reject_mixed_volume_modes volume_uses =
     rfold (\<lambda>(name, uses) _.
        case (List.find mu_global uses, List.find (\<lambda>volume_use. \<not> mu_global volume_use) uses) of
          (Some global, Some replicated) \<Rightarrow>
            Inl (MixedVolumeModes name (mu_service_name global) (mu_service_name replicated))
        | _ \<Rightarrow> Inr ()) volume_uses ()"

definition volume_plan_new ::
  "deploy_snapshot \<Rightarrow> namespace \<Rightarrow> requested_service_spec list \<Rightarrow> requested_service_spec list
     \<Rightarrow> volume_plan planned" where
  "volume_plan_new snapshot namespace target requested =
     rbind (map_err Err (reject_mixed_volume_modes (managed_volume_uses requested))) (\<lambda>_.
     let plan = \<lparr> vp_snapshot = snapshot, vp_namespace = namespace, vp_assignments = [] \<rparr>
     in rbind (validate_provisioned_volume_definitions plan target) (\<lambda>_. Inr plan))"

type_synonym shared_volume_component = "(docker_volume_name \<times> managed_volume_use list) list"

definition shares_a_service :: "shared_volume_component \<Rightarrow> managed_volume_use list \<Rightarrow> bool" where
  "shares_a_service component candidate =
     list_ex (\<lambda>candidate. list_ex (\<lambda>(_, uses).
        list_ex (\<lambda>volume_use. mu_service_name volume_use = mu_service_name candidate) uses) component) candidate"

text \<open>\<open>position\<close> followed by \<open>remove\<close>.\<close>

fun remove_first :: "('a \<Rightarrow> bool) \<Rightarrow> 'a list \<Rightarrow> ('a \<times> 'a list) option" where
  "remove_first P [] = None"
| "remove_first P (a # xs) =
     (if P a then Some (a, xs) else map_option (\<lambda>(b, ys). (b, a # ys)) (remove_first P xs))"

lemma remove_first_mset: "remove_first P xs = Some (a, ys) \<Longrightarrow> mset xs = add_mset a (mset ys)"
  by (induction xs arbitrary: ys) (auto split: if_splits)

lemma remove_first_length: "remove_first P xs = Some (a, ys) \<Longrightarrow> length ys < length xs"
  using remove_first_mset [of P xs a ys] size_mset [of xs] by (simp flip: size_mset)

function grow_component ::
  "shared_volume_component \<Rightarrow> shared_volume_component \<Rightarrow> shared_volume_component \<times> shared_volume_component" where
  "grow_component component remaining =
     (case remove_first (\<lambda>(_, uses). shares_a_service component uses) remaining of
        None \<Rightarrow> (component, remaining)
      | Some (volume, remaining) \<Rightarrow> grow_component (component @ [volume]) remaining)"
  by pat_completeness auto
termination
  by (relation "measure (\<lambda>(_, remaining). length remaining)") (auto dest: remove_first_length)

declare grow_component.simps [simp del]

lemma grow_component_mset:
  "grow_component component remaining = (component', remaining') \<Longrightarrow>
     mset component' + mset remaining' = mset component + mset remaining \<and> length remaining' \<le> length remaining"
proof (induction component remaining rule: grow_component.induct)
  case (1 component remaining)
  show ?case
  proof (cases "remove_first (\<lambda>(_, uses). shares_a_service component uses) remaining")
    case None
    then show ?thesis
      using 1(2) by (simp add: grow_component.simps [of component remaining])
  next
    case (Some r)
    obtain volume rest where r: "r = (volume, rest)"
      by (cases r)
    then have "grow_component (component @ [volume]) rest = (component', remaining')"
      using 1(2) Some by (simp add: grow_component.simps [of component remaining])
    from 1(1) [OF Some r [symmetric] this] remove_first_mset [OF Some [unfolded r]]
      remove_first_length [OF Some [unfolded r]]
    show ?thesis
      by auto
  qed
qed

lemma grow_component_shrinks:
  "(component', remaining') = grow_component component remaining \<Longrightarrow> length remaining' \<le> length remaining"
  using grow_component_mset [of component remaining component' remaining'] by simp

function component_loop :: "shared_volume_component \<Rightarrow> shared_volume_component list" where
  "component_loop [] = []"
| "component_loop (volume # remaining) =
     (case grow_component [volume] remaining of (component, remaining) \<Rightarrow> component # component_loop remaining)"
  by pat_completeness auto
termination
  by (relation "measure length") (auto simp: less_Suc_eq_le grow_component_shrinks)

definition shared_volume_components :: "volume_uses \<Rightarrow> shared_volume_component list" where
  "shared_volume_components volume_uses =
     component_loop (filter (\<lambda>(_, uses). 1 < length uses
       \<and> list_all (\<lambda>volume_use. \<not> mu_global volume_use) uses) volume_uses)"

definition volume_eligible_machine_ids ::
  "requested_service_spec \<Rightarrow> deploy_snapshot \<Rightarrow> volume_plan \<Rightarrow> plan_options \<Rightarrow> machine_id list planned" where
  "volume_eligible_machine_ids spec snapshot plan options =
     rbind (eligible_machines spec (vp_namespace plan) snapshot options) (\<lambda>machines.
     rbind (map_err Err (planned_volume_constraints spec snapshot plan machines)) (\<lambda>(_, _, machines).
     Inr (map (\<lambda>machine. m_id (mo_machine machine)) machines)))"

definition no_eligible_shared ::
  "shared_volume_component \<Rightarrow> deploy_snapshot \<Rightarrow> volume_plan \<Rightarrow> plan_error" where
  "no_eligible_shared component snapshot plan =
     no_eligible_machines (List.map_filter (\<lambda>(name, uses).
       let requested = bs_collect (concat (map (\<lambda>volume_use. rq_placement (mu_service volume_use)) uses))
       in if requested = [] then volume_anchor snapshot plan name requested
          else Some (SharedVolumeNoCommonMachine name requested)) component)"

definition component_services ::
  "shared_volume_component \<Rightarrow> (service_name, requested_service_spec) btree" where
  "component_services component =
     bt_collect (map (\<lambda>volume_use. (mu_service_name volume_use, mu_service volume_use))
       (concat (map snd component)))"

definition common_eligible ::
  "(service_name, requested_service_spec) btree \<Rightarrow> deploy_snapshot \<Rightarrow> volume_plan \<Rightarrow> plan_options
     \<Rightarrow> machine_id list planned" where
  "common_eligible services snapshot plan options =
     (let eligible_for = (\<lambda>(service_name, service).
            map_fault (service_error True service_name)
              (volume_eligible_machine_ids service snapshot plan options))
      in case services of
           [] \<Rightarrow> Inl Panic
         | first # others \<Rightarrow>
             rbind (eligible_for first) (rfold (\<lambda>service eligible.
               rbind (eligible_for service) (\<lambda>other.
               Inr (filter (\<lambda>machine_id. machine_id \<in> set other) eligible))) others))"

definition fitting_machines ::
  "deploy_snapshot \<Rightarrow> volume_plan \<Rightarrow> service_volume list \<Rightarrow> machine_id list \<Rightarrow> machine_id list planned" where
  "fitting_machines snapshot plan volumes eligible =
     rfold (\<lambda>machine_id fitting.
        rbind (expect (plan_find_machine snapshot machine_id)) (\<lambda>machine.
        Inr (if is_ok (plan_storage_budget plan machine volumes) then fitting @ [machine_id] else fitting)))
       eligible []"

text \<open>The loop over the Machines that may hold the component. A failed reservation leaves the
  reservations as they were.\<close>

fun reserve_first ::
  "ext \<Rightarrow> requested_service_spec list \<Rightarrow> service_observation list \<Rightarrow> plan_options
     \<Rightarrow> placement_reservations \<Rightarrow> plan_error option \<Rightarrow> machine_id list
     \<Rightarrow> (machine_id \<times> placement_reservations) planned" where
  "reserve_first x requested observed options placement admission_error [] =
     Inl (case admission_error of None \<Rightarrow> Panic | Some error \<Rightarrow> Err error)"
| "reserve_first x requested observed options placement admission_error (machine_id # eligible) =
     (case reserve_on x machine_id requested observed options placement of
        Inr placement' \<Rightarrow> Inr (machine_id, placement')
      | Inl Panic \<Rightarrow> Inl Panic
      | Inl (Err error) \<Rightarrow> reserve_first x requested observed options placement (Some error) eligible)"

definition shared_component_anchor ::
  "ext \<Rightarrow> shared_volume_component \<Rightarrow> deploy_snapshot \<Rightarrow> requested_service_spec list
     \<Rightarrow> service_observation list \<Rightarrow> volume_plan \<Rightarrow> plan_options \<Rightarrow> placement_reservations
     \<Rightarrow> (machine_id \<times> placement_reservations) planned" where
  "shared_component_anchor x component snapshot requested observed plan options placement =
     (let services = component_services component in
      rbind (expect (case services of [] \<Rightarrow> None | (name, _) # _ \<Rightarrow> Some name)) (\<lambda>first_service_name.
      rbind (common_eligible services snapshot plan options) (\<lambda>eligible.
      if eligible = []
      then Inl (Err (service_error True first_service_name (no_eligible_shared component snapshot plan)))
      else
        let requested = filter (\<lambda>spec. bt_contains services (rq_name spec)) requested in
        rbind (fitting_machines snapshot plan
            (concat (map (\<lambda>spec. mounted_volumes (rq_volume_graph spec)) requested)) eligible) (\<lambda>fitting.
        let eligible = (if fitting = [] then eligible else fitting) in
        map_fault (service_error True first_service_name)
          (reserve_first x requested observed options placement None eligible)))))"

definition assign_shared_component ::
  "shared_volume_component \<Rightarrow> machine_id \<Rightarrow> volume_plan \<Rightarrow> volume_plan planned" where
  "assign_shared_component component machine_id plan =
     rfold (\<lambda>(_, uses). rfold (\<lambda>volume_use. plan_assign machine_id (mu_service volume_use)) uses)
       component plan"

definition reserve_shared ::
  "ext \<Rightarrow> requested_service_spec list \<Rightarrow> service_observation list \<Rightarrow> plan_options
     \<Rightarrow> volume_plan \<times> placement_reservations \<Rightarrow> (volume_plan \<times> placement_reservations) planned" where
  "reserve_shared x requested observed options st =
     rfold (\<lambda>component (plan, placement).
        rbind (shared_component_anchor x component (vp_snapshot plan) requested observed plan options placement)
          (\<lambda>(anchor, placement).
        rbind (assign_shared_component component anchor plan) (\<lambda>plan. Inr (plan, placement))))
       (shared_volume_components (managed_volume_uses requested)) st"

section \<open>Placement and completion\<close>

definition is_replicated :: "service_mode \<Rightarrow> bool" where
  "is_replicated mode = (case mode of Replicated _ \<Rightarrow> True | Global \<Rightarrow> False)"

definition volume_place ::
  "requested_service_spec \<Rightarrow> machine_observation list \<Rightarrow> volume_plan
     \<Rightarrow> ((requested_service_spec \<times> machine_observation list) \<times> volume_plan) planned" where
  "volume_place spec machines plan =
     rbind (map_err Err (planned_volume_constraints spec (vp_snapshot plan) plan machines))
       (\<lambda>(mounted, missing, machines).
     let fits = (\<lambda>machine. is_ok (plan_storage_budget plan machine mounted));
         machines = (if is_replicated (rq_mode spec) \<and> list_ex fits machines
           then filter fits machines else machines)
     in rbind (if is_replicated (rq_mode spec) \<and> missing \<noteq> []
           then rbind (expect (case machines of [] \<Rightarrow> None | machine # _ \<Rightarrow> Some (m_id (mo_machine machine))))
             (\<lambda>machine_id. Inr (filter (\<lambda>machine. m_id (mo_machine machine) = machine_id) machines))
           else Inr machines) (\<lambda>machines.
     rbind (rfold (\<lambda>machine. plan_assign (m_id (mo_machine machine)) spec) machines plan) (\<lambda>plan.
     Inr ((spec, machines), plan))))"

definition op_mounts :: "(service_volume_graph \<Rightarrow> bool) \<Rightarrow> deploy_operation \<Rightarrow> bool" where
  "op_mounts P operation = (case op_spec operation of None \<Rightarrow> False | Some spec \<Rightarrow> P (rs_volume_graph spec))"

definition active_machines :: "deploy_operation list \<Rightarrow> machine_id list" where
  "active_machines operations =
     bs_collect (map op_machine_id (filter (op_mounts has_mounted_provisioned_volume) operations))"

definition used_volumes ::
  "volume_plan \<Rightarrow> deploy_operation list \<Rightarrow> (docker_volume_id, service_volume) btree" where
  "used_volumes plan operations =
     bt_collect (List.map_filter (\<lambda>(machine_id, volume).
       case managed_volume_name volume of
         None \<Rightarrow> None
       | Some name \<Rightarrow>
           if machine_id \<in> set (active_machines operations) \<and> is_provisioned (vs_source (sv_source volume))
             \<or> list_ex (\<lambda>operation. op_machine_id operation = machine_id
                 \<and> op_mounts (\<lambda>graph. list_ex (\<lambda>mounted. managed_volume_name mounted = Some name)
                     (mounted_volumes graph)) operation) operations
           then Some (DockerVolumeId machine_id name, volume) else None) (assigned_volumes plan))"

definition volumes_to_create ::
  "volume_plan \<Rightarrow> deploy_operation list \<Rightarrow> (machine_id \<times> service_volume) list" where
  "volumes_to_create plan operations =
     map (\<lambda>(volume_id, volume). (volume_machine_id volume_id, volume))
       (filter (\<lambda>(volume_id, volume).
          \<not> list_ex (\<lambda>observed. dv_id observed = volume_id \<and> matches_managed_volume (sv_source volume) observed)
              (vsn_observations (ds_volume_snapshot (vp_snapshot plan)))) (used_volumes plan operations))"

text \<open>The body of the loop over the active Machines: takes the Machine's assignments out of the
  ledger, budgets them, and prepares them.\<close>

definition prepare_machine ::
  "machine_id \<Rightarrow> volume_plan \<times> machine_storage_budget list \<times> deploy_operation list
     \<Rightarrow> (volume_plan \<times> machine_storage_budget list \<times> deploy_operation list) planned" where
  "prepare_machine machine_id st =
     (case st of (plan, budgets, preparations) \<Rightarrow>
      rbind (expect (bt_get (vp_assignments plan) machine_id)) (\<lambda>assigned.
      let specs = filter (\<lambda>spec. has_mounted_provisioned_volume (ss_volumes spec)) (bt_values assigned);
          requested = volume_bounds (concat (map (\<lambda>spec. mounted_volumes (ss_volumes spec)) specs))
      in rbind (expect (plan_find_machine (vp_snapshot plan) machine_id)) (\<lambda>machine.
         rbind (map_err Err (machine_budget (vp_snapshot plan) machine requested)) (\<lambda>budget.
         Inr (plan\<lparr> vp_assignments := bt_remove machine_id (vp_assignments plan) \<rparr>,
              budgets @ [\<lparr> msb_machine_id = machine_id, msb_machine_name = m_name (mo_machine machine),
                msb_budget = budget \<rparr>],
              preparations @ [PrepareVolumes machine_id specs])))))"

definition volume_finish ::
  "volume_plan \<Rightarrow> deploy_operation list \<Rightarrow> (planned_volumes \<times> deploy_operation list) planned" where
  "volume_finish plan operations =
     rbind (rfold prepare_machine (active_machines operations) (plan, [], [])) (\<lambda>(_, budgets, preparations).
     Inr (\<lparr> plv_creates = volumes_to_create plan operations, plv_budgets = budgets \<rparr>,
          preparations @ operations))"

section \<open>Preserved Volumes\<close>

definition declared_physical_names :: "requested_service_spec list \<Rightarrow> docker_volume_name list" where
  "declared_physical_names target =
     bs_collect (List.map_filter (\<lambda>volume.
       case vs_source (sv_source volume) of
         Ordinary name _ _ \<Rightarrow> Some name
       | Provisioned name _ _ \<Rightarrow> Some name
       | External _ \<Rightarrow> None | Bind _ _ _ _ \<Rightarrow> None | Tmpfs _ _ _ \<Rightarrow> None)
       (concat (map (\<lambda>spec. mounted_volumes (rq_volume_graph spec)) target)))"

definition preserved_owned_volumes ::
  "namespace \<Rightarrow> requested_service_spec list \<Rightarrow> deploy_snapshot \<Rightarrow> preserved_volume list" where
  "preserved_owned_volumes namespace target snapshot =
     sort_key (\<lambda>preserved. (volume_name (pv_id preserved), volume_machine_id (pv_id preserved)))
       (map (\<lambda>volume. \<lparr> pv_id = dv_id volume,
              pv_machine_name = map_option (\<lambda>machine. m_name (mo_machine machine))
                (plan_find_machine snapshot (volume_machine_id (dv_id volume))) \<rparr>)
         (filter (\<lambda>volume. owned_volume_namespace (dv_labels volume) = Some namespace
              \<and> volume_name (dv_id volume) \<notin> set (declared_physical_names target))
            (vsn_observations (ds_volume_snapshot snapshot))))"

end
