(* ===== verification/Service_Order.thy ===== *)
theory Service_Order
  imports Deploy_Model
begin

text \<open>
  The order in which a Deploy plans its Services: \<open>order_included\<close> of
  \<open>ployz/src/deploy/planning.rs\<close>, a depth-first search that puts every Service after the Services
  it depends on.

  The search returns exactly the included Services, each once and after its dependencies
  (claim on \<open>order_included\<close>), and it fails exactly when the target has a name twice or the
  included Services depend on each other in a cycle.
\<close>

section \<open>Operations\<close>

record visit_state =
  vt_visiting :: "service_name list"
  vt_visited :: "service_name list"
  vt_ordered :: "requested_service_spec list"

text \<open>The recursion of \<open>visit\<close> has a depth of at most the number of included Services; the fuel
  that \<open>order_included\<close> gives is one more, and running out of it counts as a panic.\<close>

fun visit ::
  "nat \<Rightarrow> deploy_intent \<Rightarrow> service_name list \<Rightarrow> (service_name, requested_service_spec) btree
     \<Rightarrow> service_name \<Rightarrow> visit_state \<Rightarrow> visit_state planned" where
  "visit 0 intent included by_name name st = Inl Panic"
| "visit (Suc fuel) intent included by_name name st =
     (if name \<in> set (vt_visited st) then Inr st
      else if name \<in> set (vt_visiting st) then Inl (Err (DependencyCycle name))
      else
        rbind (rfold (\<lambda>dependency st.
            if sd_service dependency \<in> set included
            then visit fuel intent included by_name (sd_service dependency) st
            else Inr st)
          (dependencies_of (di_dependencies intent) name)
          (st\<lparr> vt_visiting := bs_insert name (vt_visiting st) \<rparr>)) (\<lambda>st.
        Inr (st\<lparr> vt_visiting := filter (\<lambda>other. other \<noteq> name) (vt_visiting st),
                 vt_visited := bs_insert name (vt_visited st),
                 vt_ordered := vt_ordered st @
                   (case bt_get by_name name of None \<Rightarrow> [] | Some spec \<Rightarrow> [spec]) \<rparr>)))"

declare visit.simps(2) [simp del]

definition index_spec ::
  "requested_service_spec \<Rightarrow> (service_name, requested_service_spec) btree
     \<Rightarrow> (service_name, requested_service_spec) btree planned" where
  "index_spec spec by_name =
     (if bt_contains by_name (rq_name spec) then Inl (Err (DuplicateTargetService (rq_name spec)))
      else Inr (bt_insert (rq_name spec) spec by_name))"

definition index_target ::
  "requested_service_spec list \<Rightarrow> (service_name, requested_service_spec) btree planned" where
  "index_target target = rfold index_spec target []"

definition order_included ::
  "deploy_intent \<Rightarrow> service_name list \<Rightarrow> requested_service_spec list planned" where
  "order_included intent included =
     rbind (index_target (di_target intent)) (\<lambda>by_name.
     rbind (rfold (\<lambda>spec st.
         if rq_name spec \<in> set included
         then visit (Suc (length included)) intent included by_name (rq_name spec) st
         else Inr st)
       (di_target intent) \<lparr> vt_visiting = [], vt_visited = [], vt_ordered = [] \<rparr>) (\<lambda>st.
     Inr (vt_ordered st)))"

text \<open>\<open>web\<close> depends on \<open>db\<close>, and the target lists it first.\<close>

definition example_intent :: deploy_intent where
  "example_intent =
     \<lparr> di_namespace = ''prod'',
       di_target = [example_spec ''web'' (Replicated 2) [], example_spec ''db'' (Replicated 1) []],
       di_options = plan_options_default,
       di_dependencies = [(''web'', [\<lparr> sd_service = ''db'', sd_condition = ServiceHealthy \<rparr>])],
       di_registry_auth = [] \<rparr>"

section \<open>The search\<close>

definition included_edges :: "deploy_intent \<Rightarrow> service_name list \<Rightarrow> (service_name \<times> service_name) set" where
  "included_edges intent included =
     {(a, b). a \<in> set included \<and> b \<in> set included
        \<and> b \<in> sd_service ` set (dependencies_of (di_dependencies intent) a)}"

text \<open>Every name comes after the names it has an edge to.\<close>

definition topological :: "('a \<times> 'a) set \<Rightarrow> 'a list \<Rightarrow> bool" where
  "topological E names = (\<forall>i < length names. E `` {names ! i} \<subseteq> set (take i names))"

lemma topological_Nil [simp]: "topological E []"
  by (simp add: topological_def)

lemma topological_snoc [simp]:
  "topological E (names @ [name]) \<longleftrightarrow> topological E names \<and> E `` {name} \<subseteq> set names"
  by (auto simp: topological_def nth_append less_Suc_eq all_conj_distrib)

lemma topological_acyclic:
  assumes "topological E names" and "distinct names" and "fst ` E \<subseteq> set names"
  shows "acyclic E"
proof (rule acyclicI_order)
  let ?index = "\<lambda>a. THE i. i < length names \<and> names ! i = a"
  fix a b
  assume edge: "(a, b) \<in> E"
  then obtain i where i: "i < length names" "names ! i = a"
    using assms(3) by (force simp: in_set_conv_nth)
  then obtain j where j: "j < i" "names ! j = b"
    using assms(1) edge by (force simp: topological_def in_set_conv_nth)
  have "?index a = i" "?index b = j"
    using i j assms(2) by (auto intro!: the_equality simp: nth_eq_iff_index_eq)
  with j show "?index b < ?index a"
    by simp
qed

text \<open>What the search keeps: the finished Services are those of the output, in topological
  order, and none of them is on the current path.\<close>

definition visit_inv :: "deploy_intent \<Rightarrow> service_name list \<Rightarrow> visit_state \<Rightarrow> bool" where
  "visit_inv intent included st \<longleftrightarrow>
     distinct (map rq_name (vt_ordered st))
     \<and> set (vt_visited st) = set (map rq_name (vt_ordered st))
     \<and> set (vt_visited st) \<subseteq> set included
     \<and> set (vt_visiting st) \<inter> set (vt_visited st) = {}
     \<and> topological (included_edges intent included) (map rq_name (vt_ordered st))"

text \<open>The outcome of a visit from \<open>st\<close>: a proper cycle, or the names \<open>done\<close> are finished.\<close>

definition visit_outcome ::
  "deploy_intent \<Rightarrow> service_name list \<Rightarrow> visit_state \<Rightarrow> service_name set \<Rightarrow> visit_state planned \<Rightarrow> bool" where
  "visit_outcome intent included st finished r \<longleftrightarrow>
     (case r of
        Inl e \<Rightarrow> \<exists>n. e = Err (DependencyCycle n) \<and> (n, n) \<in> (included_edges intent included)\<^sup>+
      | Inr st' \<Rightarrow> visit_inv intent included st' \<and> set (vt_visiting st') = set (vt_visiting st)
          \<and> set (vt_visited st) \<union> finished \<subseteq> set (vt_visited st'))"

lemma visit_outcome_rfold:
  assumes "visit_inv intent included st"
    and "\<And>x st. x \<in> set xs \<Longrightarrow> visit_inv intent included st \<Longrightarrow> set (vt_visiting st) = V
      \<Longrightarrow> visit_outcome intent included st (done x) (f x st)"
    and "set (vt_visiting st) = V"
  shows "visit_outcome intent included st (\<Union>x \<in> set xs. done x) (rfold f xs st)"
  using assms
proof (induction xs arbitrary: st)
  case Nil
  then show ?case
    by (simp add: visit_outcome_def)
next
  case (Cons x xs)
  have step: "visit_outcome intent included st (done x) (f x st)"
    using Cons.prems by simp
  show ?case
  proof (cases "f x st")
    case (Inl e)
    then show ?thesis
      using step by (simp add: visit_outcome_def)
  next
    case (Inr st')
    then have st': "visit_inv intent included st'" "set (vt_visiting st') = set (vt_visiting st)"
      "set (vt_visited st) \<union> done x \<subseteq> set (vt_visited st')"
      using step by (simp_all add: visit_outcome_def)
    have "visit_outcome intent included st' (\<Union>x \<in> set xs. done x) (rfold f xs st')"
      using Cons.prems st' by (intro Cons.IH) auto
    then show ?thesis
      using Inr st' by (auto simp: visit_outcome_def split: sum.splits)
  qed
qed

lemma visit_correct:
  assumes "visit_inv intent included st" and "name \<in> set included"
    and "set (vt_visiting st) \<subseteq> set included"
    and "card (set included - set (vt_visiting st)) < fuel"
    and "\<And>v. v \<in> set (vt_visiting st) \<Longrightarrow> (v, name) \<in> (included_edges intent included)\<^sup>+"
    and "\<And>n. n \<in> set included \<Longrightarrow> \<exists>spec. bt_get by_name n = Some spec \<and> rq_name spec = n"
  shows "visit_outcome intent included st {name} (visit fuel intent included by_name name st)"
  using assms
proof (induction fuel arbitrary: name st)
  case (Suc fuel)
  let ?E = "included_edges intent included" and ?deps = "dependencies_of (di_dependencies intent) name"
  let ?body = "\<lambda>dependency st. if sd_service dependency \<in> set included
    then visit fuel intent included by_name (sd_service dependency) st else Inr st"
  let ?st = "st\<lparr> vt_visiting := bs_insert name (vt_visiting st) \<rparr>"
  consider "name \<in> set (vt_visited st)" | "name \<in> set (vt_visiting st)"
    | (fresh) "name \<notin> set (vt_visited st)" "name \<notin> set (vt_visiting st)"
    by blast
  then show ?case
  proof cases
    case fresh
    have "visit_inv intent included ?st"
      using Suc.prems(1) fresh by (auto simp: visit_inv_def)
    moreover have "visit_outcome intent included s
        ({sd_service dep} \<inter> set included) (?body dep s)"
      if dep: "dep \<in> set ?deps" and inv: "visit_inv intent included s"
        and path: "set (vt_visiting s) = insert name (set (vt_visiting st))" for dep s
    proof (cases "sd_service dep \<in> set included")
      case True
      have edge: "(name, sd_service dep) \<in> ?E"
        using True dep Suc.prems(2) by (auto simp: included_edges_def)
      have "set included - set (vt_visiting s) \<subset> set included - set (vt_visiting st)"
        using path fresh Suc.prems(2) by auto
      then have "card (set included - set (vt_visiting s)) < fuel"
        using Suc.prems(4) psubset_card_mono [of "set included - set (vt_visiting st)"]
        by (meson finite_Diff finite_set less_Suc_eq less_trans_Suc not_less_eq)
      moreover have "(v, sd_service dep) \<in> ?E\<^sup>+" if "v \<in> set (vt_visiting s)" for v
      proof (cases "v = name")
        case True
        with edge show ?thesis
          by blast
      next
        case False
        with that path have "(v, name) \<in> ?E\<^sup>+"
          by (intro Suc.prems(5)) auto
        with edge show ?thesis
          by (rule trancl_into_trancl [rotated -1])
      qed
      ultimately have "visit_outcome intent included s {sd_service dep}
          (visit fuel intent included by_name (sd_service dep) s)"
        using True inv path Suc.prems(2,3,6) by (intro Suc.IH) auto
      with True show ?thesis
        by simp
    next
      case False
      with inv show ?thesis
        by (simp add: visit_outcome_def)
    qed
    ultimately have loop: "visit_outcome intent included ?st
        (\<Union>dep \<in> set ?deps. {sd_service dep} \<inter> set included) (rfold ?body ?deps ?st)"
      by (intro visit_outcome_rfold [where V = "insert name (set (vt_visiting st))"]) auto
    show ?thesis
    proof (cases "rfold ?body ?deps ?st")
      case (Inl e)
      then show ?thesis
        using loop fresh by (simp add: visit_outcome_def visit.simps(2))
    next
      case (Inr s)
      obtain spec where spec: "bt_get by_name name = Some spec" "rq_name spec = name"
        using Suc.prems(2,6) by blast
      have s: "visit_inv intent included s" "set (vt_visiting s) = insert name (set (vt_visiting st))"
        "set (vt_visited st) \<subseteq> set (vt_visited s)"
        "(\<Union>dep \<in> set ?deps. {sd_service dep} \<inter> set included) \<subseteq> set (vt_visited s)"
        using loop Inr by (auto simp: visit_outcome_def)
      have "?E `` {name} \<subseteq> set (vt_visited s)"
        using s(4) by (auto simp: included_edges_def)
      then show ?thesis
        using s fresh spec Inr Suc.prems(2)
        by (auto simp: visit_outcome_def visit_inv_def visit.simps(2))
    qed
  qed (use Suc.prems in \<open>auto simp: visit_outcome_def visit_inv_def visit.simps(2)\<close>)
qed simp

section \<open>The whole order\<close>

lemma rfold_index:
  "rfold index_spec target m = Inr m'
   \<longleftrightarrow> distinct (map rq_name target) \<and> set (map rq_name target) \<inter> set (bt_keys m) = {}
       \<and> m' = bt_extend (map (\<lambda>spec. (rq_name spec, spec)) target) m"
proof (induction target arbitrary: m)
  case (Cons spec target)
  have keys: "set (bt_keys (bt_insert (rq_name spec) spec m)) = insert (rq_name spec) (set (bt_keys m))"
    by (simp only: bt_keys_insert) simp
  show ?case
  proof (cases "bt_contains m (rq_name spec)")
    case True
    then show ?thesis
      by (auto simp: index_spec_def [of spec m] bt_contains_iff)
  next
    case False
    then have step: "rfold index_spec (spec # target) m
        = rfold index_spec target (bt_insert (rq_name spec) spec m)"
      by (simp add: index_spec_def [of spec m])
    show ?thesis
      unfolding step Cons.IH keys using False by (auto simp: bt_contains_iff bt_extend_def)
  qed
qed (auto simp: bt_extend_def)

lemma index_target_Inr:
  "index_target target = Inr by_name \<longleftrightarrow>
     distinct (map rq_name target) \<and> by_name = bt_collect (map (\<lambda>spec. (rq_name spec, spec)) target)"
  by (simp add: index_target_def rfold_index)

lemma index_target_not_Panic: "index_target target \<noteq> Inl Panic"
proof -
  have "rfold index_spec target m \<noteq> Inl Panic" for m
    by (induction target arbitrary: m) (auto simp: index_spec_def result_simps)
  then show ?thesis
    by (simp add: index_target_def)
qed

lemma index_target_get:
  assumes "index_target target = Inr by_name" and "spec \<in> set target"
  shows "bt_get by_name (rq_name spec) = Some spec"
proof -
  let ?entries = "map (\<lambda>spec. (rq_name spec, spec)) target"
  have "distinct (map fst (rev ?entries))" "by_name = bt_collect ?entries"
    using assms(1) by (auto simp: index_target_Inr o_def distinct_map inj_on_def)
  moreover have "(rq_name spec, spec) \<in> set (rev ?entries)"
    using assms(2) by auto
  ultimately show ?thesis
    by (simp add: bt_get_extend map_of_is_SomeI)
qed

lemma order_included_outcome:
  assumes "index_target (di_target intent) = Inr by_name"
    and "set included \<subseteq> set (target_names intent)"
  shows "visit_outcome intent included \<lparr> vt_visiting = [], vt_visited = [], vt_ordered = [] \<rparr>
    (set included) (rfold (\<lambda>spec st.
         if rq_name spec \<in> set included
         then visit (Suc (length included)) intent included by_name (rq_name spec) st
         else Inr st)
       (di_target intent) \<lparr> vt_visiting = [], vt_visited = [], vt_ordered = [] \<rparr>)"
    (is "visit_outcome _ _ ?init _ (rfold ?body _ _)")
proof -
  have found: "\<exists>spec. bt_get by_name n = Some spec \<and> rq_name spec = n" if "n \<in> set included" for n
    using that assms index_target_get by (fastforce simp: target_names_def)
  have "visit_outcome intent included st ({rq_name spec} \<inter> set included) (?body spec st)"
    if "visit_inv intent included st" "set (vt_visiting st) = {}" for spec st
  proof (cases "rq_name spec \<in> set included")
    case True
    have "card (set included) < Suc (length included)"
      using card_length [of included] by simp
    with True show ?thesis
      using that found visit_correct [of intent included st "rq_name spec" "Suc (length included)" by_name]
      by simp
  next
    case False
    with that show ?thesis
      by (simp add: visit_outcome_def)
  qed
  then have "visit_outcome intent included ?init
      (\<Union>spec \<in> set (di_target intent). {rq_name spec} \<inter> set included) (rfold ?body (di_target intent) ?init)"
    by (intro visit_outcome_rfold [where V = "{}"]) (simp_all add: visit_inv_def [of _ _ ?init])
  moreover have "(\<Union>spec \<in> set (di_target intent). {rq_name spec} \<inter> set included) = set included"
    using assms(2) by (auto simp: target_names_def)
  ultimately show ?thesis
    by simp
qed

text \<open>The output holds Services of the target.\<close>

lemma visit_ordered_in:
  assumes "\<And>n spec. bt_get by_name n = Some spec \<Longrightarrow> spec \<in> S" and "set (vt_ordered st) \<subseteq> S"
    and "visit fuel intent included by_name name st = Inr st'"
  shows "set (vt_ordered st') \<subseteq> S"
  using assms(2,3)
proof (induction fuel arbitrary: name st st')
  case (Suc fuel)
  let ?body = "\<lambda>dependency st. if sd_service dependency \<in> set included
    then visit fuel intent included by_name (sd_service dependency) st else Inr st"
  have loop: "set (vt_ordered t) \<subseteq> S"
    if "rfold ?body deps s = Inr t" "set (vt_ordered s) \<subseteq> S" for deps s t
    using that by (rule rfold_invariant [where P = "\<lambda>s. set (vt_ordered s) \<subseteq> S"])
      (auto split: if_splits dest: Suc.IH)
  show ?case
  proof (cases "name \<in> set (vt_visited st) \<or> name \<in> set (vt_visiting st)")
    case True
    with Suc.prems show ?thesis
      by (auto simp: visit.simps(2) split: if_splits)
  next
    case False
    with Suc.prems(2) obtain s where
      s: "rfold ?body (dependencies_of (di_dependencies intent) name)
            (st\<lparr> vt_visiting := bs_insert name (vt_visiting st) \<rparr>) = Inr s"
        "vt_ordered st' = vt_ordered s @
           (case bt_get by_name name of None \<Rightarrow> [] | Some spec \<Rightarrow> [spec])"
      by (auto simp: rbind_eq_Inr visit.simps(2))
    have "set (vt_ordered s) \<subseteq> S"
      using loop [OF s(1)] Suc.prems(1) by simp
    with s(2) assms(1) show ?thesis
      by (simp split: option.splits)
  qed
qed simp

lemma order_included_in_target:
  assumes "order_included intent included = Inr specs"
  shows "set specs \<subseteq> set (di_target intent)"
proof -
  obtain by_name st where r: "index_target (di_target intent) = Inr by_name" "specs = vt_ordered st"
    "rfold (\<lambda>spec st. if rq_name spec \<in> set included
         then visit (Suc (length included)) intent included by_name (rq_name spec) st
         else Inr st) (di_target intent) \<lparr> vt_visiting = [], vt_visited = [], vt_ordered = [] \<rparr> = Inr st"
    using assms by (auto simp: order_included_def result_simps)
  have found: "spec \<in> set (di_target intent)" if "bt_get by_name n = Some spec" for n spec
  proof -
    have "map_of (rev (map (\<lambda>spec. (rq_name spec, spec)) (di_target intent))) n = Some spec"
      using that r(1) by (auto simp: index_target_Inr bt_get_extend split: option.splits)
    then show ?thesis
      by (auto dest: map_of_SomeD)
  qed
  show ?thesis
    unfolding r(2)
  proof (rule rfold_invariant [OF r(3), where P = "\<lambda>s. set (vt_ordered s) \<subseteq> set (di_target intent)"])
    fix spec s t
    assume s: "set (vt_ordered s) \<subseteq> set (di_target intent)"
      and t: "(if rq_name spec \<in> set included
         then visit (Suc (length included)) intent included by_name (rq_name spec) s
         else Inr s) = Inr t"
    show "set (vt_ordered t) \<subseteq> set (di_target intent)"
    proof (cases "rq_name spec \<in> set included")
      case True
      with t have "visit (Suc (length included)) intent included by_name (rq_name spec) s = Inr t"
        by (simp only: if_True)
      with found s show ?thesis
        by (rule visit_ordered_in)
    qed (use s t in simp)
  qed simp
qed

lemma order_included_sound:
  assumes "order_included intent included = Inr specs"
    and "set included \<subseteq> set (target_names intent)"
  shows "set specs \<subseteq> set (di_target intent) \<and> distinct (map rq_name specs)
    \<and> set (map rq_name specs) = set included
    \<and> topological (included_edges intent included) (map rq_name specs)"
proof -
  obtain by_name st where r: "index_target (di_target intent) = Inr by_name" "specs = vt_ordered st"
    "rfold (\<lambda>spec st. if rq_name spec \<in> set included
         then visit (Suc (length included)) intent included by_name (rq_name spec) st
         else Inr st) (di_target intent) \<lparr> vt_visiting = [], vt_visited = [], vt_ordered = [] \<rparr> = Inr st"
    using assms(1) by (auto simp: order_included_def result_simps)
  have "visit_inv intent included st" "set included \<subseteq> set (vt_visited st)"
    using order_included_outcome [OF r(1) assms(2)] r(3) by (simp_all add: visit_outcome_def)
  then show ?thesis
    using order_included_in_target [OF assms(1)] r(2) by (auto simp: visit_inv_def)
qed

text \<open>
  Claim C24. When the order of the included Services is computed, it holds specifications of the
  target, has every included Service exactly once, and has every Service after each included
  Service that it depends on.
\<close>

theorem order_included_topological:
  assumes "order_included intent included = Inr specs"
    and "set included \<subseteq> set (target_names intent)"
  shows "set specs \<subseteq> set (di_target intent) \<and> distinct (map rq_name specs)
    \<and> set (map rq_name specs) = set included
    \<and> topological (included_edges intent included) (map rq_name specs)"
  using order_included_sound [OF assms] .

lemma example_order:
  "order_included example_intent [''db'', ''web'']
     = Inr [example_spec ''db'' (Replicated 1) [], example_spec ''web'' (Replicated 2) []]"
  by code_simp

lemma example_target_names: "target_names example_intent = [''web'', ''db'']"
  by (simp add: target_names_def example_intent_def example_spec_def)

theorem order_included_topological_witness:
  "topological (included_edges example_intent [''db'', ''web'']) [''db'', ''web'']
     \<and> (''web'', ''db'') \<in> included_edges example_intent [''db'', ''web'']"
  using order_included_topological [OF example_order]
  by (simp add: example_target_names included_edges_def example_spec_def)
    (simp add: example_intent_def dependencies_of_def bt_get_def)

lemma order_included_decides:
  assumes "set included \<subseteq> set (target_names intent)"
  shows "order_included intent included \<noteq> Inl Panic
    \<and> (is_ok (order_included intent included) \<longleftrightarrow>
         distinct (target_names intent) \<and> acyclic (included_edges intent included))"
proof (cases "index_target (di_target intent)")
  case (Inl e)
  then have "\<not> distinct (target_names intent)" "e \<noteq> Panic"
    using index_target_Inr [of "di_target intent"] index_target_not_Panic [of "di_target intent"]
    by (auto simp: target_names_def)
  with Inl show ?thesis
    by (simp add: order_included_def)
next
  case (Inr by_name)
  have distinct: "distinct (target_names intent)"
    using Inr by (simp add: index_target_Inr target_names_def)
  show ?thesis
  proof (cases "order_included intent included")
    case err: (Inl e)
    then obtain n where "e = Err (DependencyCycle n)" "(n, n) \<in> (included_edges intent included)\<^sup>+"
      using order_included_outcome [OF Inr assms] Inr
      by (auto simp: order_included_def visit_outcome_def result_simps)
    with err show ?thesis
      by (auto simp: acyclic_def)
  next
    case ok: (Inr specs)
    note order = order_included_sound [OF ok assms]
    have "acyclic (included_edges intent included)"
      using order by (intro topological_acyclic [of _ "map rq_name specs"])
        (auto simp: included_edges_def)
    with ok distinct show ?thesis
      by simp
  qed
qed

text \<open>
  Claim C25. The order is computed exactly when the names of the target are distinct and the
  dependencies between the included Services have no cycle; it never panics.
\<close>

theorem order_included_total:
  assumes "set included \<subseteq> set (target_names intent)"
  shows "order_included intent included \<noteq> Inl Panic
    \<and> (is_ok (order_included intent included) \<longleftrightarrow>
         distinct (target_names intent) \<and> acyclic (included_edges intent included))"
  using order_included_decides [OF assms] .

theorem order_included_total_witness:
  "order_included example_intent [''db'', ''web''] \<noteq> Inl Panic
     \<and> acyclic (included_edges example_intent [''db'', ''web''])"
  using order_included_total [of "[''db'', ''web'']" example_intent] example_order
  by (simp add: example_target_names)

end
