(* ===== verification/Planning.thy ===== *)
theory Planning
  imports Volume_Placement Service_Order
begin

text \<open>
  The planner, \<open>ployz/src/deploy/planning.rs\<close>, from the intent to the sealed plan: binding the target
  to its Namespace, the hostname policy, the plan of each Service over the shared volume plan and
  placement state, the removal of obsolete Services, and the preview. The pending rows are those
  of \<open>ployz/src/deploy/progress.rs\<close>.

  Every \<open>expect\<close> of the code is a \<open>Panic\<close> branch. The random identity of a new Service is a parameter.
\<close>

section \<open>Data\<close>

datatype volume_fate = Preserve | Destroy

record bound_intent =
  bi_target :: "requested_service_spec list"
  bi_requested :: "requested_service_spec list"

record planned_deploy =
  pd_operations :: "deploy_operation list"
  pd_volumes :: planned_volumes
  pd_would_remove :: "qualified_service list"
  pd_preserved_volumes :: "preserved_volume list"
  pd_prune_refusal :: "prune_refusal_kind option"
  pd_warnings :: "deploy_warning list"

record deploy_plan =
  pl_operations :: "deploy_operation list"
  pl_preview :: deploy_preview
  pl_registry_auth :: "(service_name, registry_auth) btree"

datatype container_action = Action_Start | Action_Stop | Action_Remove

datatype data_loss = DataLoss_DockerVolume docker_volume_id

section \<open>Pending rows\<close>

definition machine_names :: "deploy_snapshot \<Rightarrow> (machine_id, machine_name) btree" where
  "machine_names snapshot =
     bt_collect (map (\<lambda>machine. (m_id (mo_machine machine), m_name (mo_machine machine))) (ds_machines snapshot))"

definition snapshot_container_labels ::
  "deploy_snapshot \<Rightarrow> (container_id, string option \<times> service_name option) btree" where
  "snapshot_container_labels snapshot =
     bt_collect (map (\<lambda>container. (co_container_id container,
       (Some (co_display_name container), Some (rs_name (co_resolved_spec container))))) (ds_containers snapshot))"

definition row_number :: "nat \<Rightarrow> u32" where
  "row_number index = (if int index < 2 ^ 32 then of_nat index else - 1)"

definition pending_row :: "deploy_snapshot \<Rightarrow> nat \<Rightarrow> deploy_operation \<Rightarrow> operation_row" where
  "pending_row snapshot index operation =
     (let unlabelled = (None, op_service_name operation);
          (display_name, service_name) =
            (case op_container_id operation of
               None \<Rightarrow> unlabelled
             | Some container_id \<Rightarrow>
                 (case bt_get (snapshot_container_labels snapshot) container_id of
                    None \<Rightarrow> unlabelled | Some labels \<Rightarrow> labels))
      in row_pending (row_number index) operation
           (bt_get (machine_names snapshot) (op_machine_id operation)) display_name service_name)"

definition pending_rows :: "deploy_operation list \<Rightarrow> deploy_snapshot \<Rightarrow> operation_row list" where
  "pending_rows operations snapshot =
     map (\<lambda>(index, operation). pending_row snapshot index operation) (enumerate 0 operations)"

definition plan_pending_rows :: "deploy_plan \<Rightarrow> operation_row list" where
  "plan_pending_rows plan =
     map (\<lambda>(index, operation, row). row_pending (row_number index) operation
         (row_machine_name row) (row_display_name row) (row_service_name row))
       (enumerate 0 (zip (pl_operations plan) (dp_operations (pl_preview plan))))"

definition prepend_warnings :: "deploy_warning list \<Rightarrow> deploy_plan \<Rightarrow> deploy_plan" where
  "prepend_warnings warnings plan =
     plan\<lparr> pl_preview := (pl_preview plan)\<lparr> dp_warnings := warnings @ dp_warnings (pl_preview plan) \<rparr> \<rparr>"

section \<open>Obsolete Services\<close>

definition containers_for :: "service_observation \<Rightarrow> container_action \<Rightarrow> container_observation list" where
  "containers_for service action =
     so_containers service @
       (case action of Action_Start \<Rightarrow> [] | Action_Stop \<Rightarrow> so_hook_containers service
        | Action_Remove \<Rightarrow> so_hook_containers service)"

definition obsolete_services :: "deploy_intent \<Rightarrow> service_observation list \<Rightarrow> qualified_service list" where
  "obsolete_services intent services =
     (if namespace_is_reserved (di_namespace intent) then []
      else
        let declared = bs_collect (map rq_name (di_target intent))
        in map so_identity (filter (\<lambda>service. qs_name (so_identity service) \<notin> set declared) services))"

definition removal_operations ::
  "service_observation list \<Rightarrow> qualified_service list \<Rightarrow> deploy_operation list" where
  "removal_operations services obsolete =
     map (\<lambda>container. RemoveContainer (co_machine_id container) (co_container_id container))
       (concat (map (\<lambda>service. containers_for service Action_Remove)
          (filter (\<lambda>service. so_identity service \<in> set (bs_collect obsolete)) services)))"

section \<open>Hostnames\<close>

definition claim_host ::
  "(ingress_host, qualified_service) btree \<Rightarrow> qualified_service \<Rightarrow> ingress_host
     \<Rightarrow> (ingress_host, qualified_service) btree
     \<Rightarrow> (plan_error, (ingress_host, qualified_service) btree) result" where
  "claim_host owners identity hostname claimed =
     (case or_else (bt_get claimed hostname) (bt_get owners hostname) of
        None \<Rightarrow> Inr (bt_or_insert hostname identity claimed)
      | Some owner \<Rightarrow>
          if owner \<noteq> identity then Inl (HostnameConflict hostname owner)
          else Inr (bt_or_insert hostname identity claimed))"

definition remaining_owners ::
  "deploy_snapshot \<Rightarrow> qualified_service list \<Rightarrow> (ingress_host, qualified_service) btree" where
  "remaining_owners snapshot retiring =
     hostname_owners (filter (\<lambda>container. co_identity container \<notin> set (bs_collect retiring))
       (ds_containers snapshot))"

definition reject_hostname_conflicts ::
  "namespace \<Rightarrow> requested_service_spec list \<Rightarrow> deploy_snapshot \<Rightarrow> qualified_service list
     \<Rightarrow> (plan_error, (ingress_host, qualified_service) btree) result" where
  "reject_hostname_conflicts namespace requested snapshot retiring =
     rfold (\<lambda>spec. rfold (claim_host (remaining_owners snapshot retiring)
          (QualifiedService namespace (rq_name spec))) (explicit_ingress_hosts (rq_ports spec)))
       requested []"

definition hostname_policy_for ::
  "namespace \<Rightarrow> requested_service_spec list \<Rightarrow> deploy_snapshot \<Rightarrow> qualified_service list
     \<Rightarrow> (plan_error, deploy_warning list) result" where
  "hostname_policy_for namespace requested snapshot retiring =
     rbind (reject_hostname_conflicts namespace requested snapshot retiring) (\<lambda>_.
     Inr (if \<not> is_observer_complete snapshot
            \<and> list_ex (\<lambda>spec. explicit_ingress_hosts (rq_ports spec) \<noteq> []) requested
          then [ObserverRelativeHostnameConflict] else []))"

section \<open>One Service\<close>

definition hook_target ::
  "machine_id option \<Rightarrow> deploy_operation \<Rightarrow> (machine_id \<times> resolved_service_spec) option" where
  "hook_target hook_machine operation =
     (case operation of
        RunContainer machine_id spec _ \<Rightarrow>
          if hook_machine = Some machine_id then Some (machine_id, spec) else None
      | ReplaceContainer replacement \<Rightarrow>
          if hook_machine = Some (rep_machine_id replacement)
          then Some (rep_machine_id replacement, rep_spec replacement) else None
      | _ \<Rightarrow> None)"

fun find_map :: "('a \<Rightarrow> 'b option) \<Rightarrow> 'a list \<Rightarrow> 'b option" where
  "find_map f [] = None"
| "find_map f (a # xs) = (case f a of None \<Rightarrow> find_map f xs | Some b \<Rightarrow> Some b)"

definition pre_deploy_operations ::
  "requested_service_spec \<Rightarrow> container_observation list \<Rightarrow> deploy_operation list \<Rightarrow> machine_id option
     \<Rightarrow> deploy_operation list" where
  "pre_deploy_operations requested hooks service_operations hook_machine =
     (if rq_pre_deploy requested = None then []
      else case find_map (hook_target hook_machine) service_operations of
          None \<Rightarrow> []
        | Some (machine_id, spec) \<Rightarrow>
            map (\<lambda>hook. StopHook (co_machine_id hook) (co_container_id hook))
              (filter (\<lambda>hook. is_active_runtime (co_runtime hook)) hooks)
            @ [RunHook machine_id spec (map (\<lambda>hook. (co_machine_id hook, co_container_id hook)) hooks)])"

definition observed_members ::
  "ext \<Rightarrow> requested_service_spec \<Rightarrow> namespace \<Rightarrow> service_observation list
     \<Rightarrow> (service_id \<times> container_observation list \<times> container_observation list) planned" where
  "observed_members x requested namespace services =
     (case List.find (\<lambda>service. so_identity service = QualifiedService namespace (rq_name requested)) services of
        None \<Rightarrow> Inr (random_service_id x (rq_name requested), [], [])
      | Some service \<Rightarrow>
          if list_ex (\<lambda>container. \<not> same_service_mode_kind (rs_mode (co_resolved_spec container)) (rq_mode requested))
              (so_members service)
          then Inl (Err ServiceModeCannotChange)
          else Inr (so_service_id service, so_containers service, so_hook_containers service))"

text \<open>The branch for a replicated Service without a reservation: the Machines that the Volumes
  admit and that have room, and the error of a later refusal.\<close>

definition unreserved_candidates ::
  "ext \<Rightarrow> requested_service_spec \<Rightarrow> nat \<Rightarrow> container_observation list \<Rightarrow> container_observation list
     \<Rightarrow> plan_options \<Rightarrow> volume_plan \<Rightarrow> placement_state \<Rightarrow> machine_observation list
     \<Rightarrow> (machine_observation list \<times> plan_error option \<times> placement_state) planned" where
  "unreserved_candidates x requested replicas current hooks options volume_plan placement machines =
     rbind (map_err Err (constrain_candidates volume_plan requested machines)) (\<lambda>machines.
     let ids = map (\<lambda>machine. m_id (mo_machine machine)) machines;
         up_to_date = length (filter (\<lambda>container. co_machine_id container \<in> set ids
           \<and> is_up_to_date x container requested options) current);
         placement = (if rq_pre_deploy requested \<noteq> None \<and> up_to_date < replicas
           then state_release_hooks placement hooks else placement);
         capacity_error = capacity_error_for placement ids;
         machines = filter (\<lambda>machine.
           list_ex (\<lambda>container. co_machine_id container = m_id (mo_machine machine)
             \<and> is_up_to_date x container requested options) current
           \<or> capacity_fits placement (m_id (mo_machine machine)) 1) machines
     in if machines = [] then Inl (Err capacity_error)
        else Inr (machines, Some capacity_error, placement))"

definition plan_one_service ::
  "ext \<Rightarrow> requested_service_spec \<Rightarrow> namespace \<Rightarrow> deploy_snapshot \<Rightarrow> service_observation list
     \<Rightarrow> plan_options \<Rightarrow> volume_plan \<times> placement_state
     \<Rightarrow> (deploy_operation list \<times> volume_plan \<times> placement_state) planned" where
  "plan_one_service x requested namespace snapshot services options st =
     (case st of (volume_plan, placement) \<Rightarrow>
      rbind (eligible_machines requested namespace snapshot options) (\<lambda>machines.
      rbind (observed_members x requested namespace services) (\<lambda>(service_id, current, hooks).
      case take_reservation placement (rq_name requested) of (reservation, placement) \<Rightarrow>
      rbind (case (rq_mode requested, reservation) of
          (Replicated replicas, None) \<Rightarrow>
            unreserved_candidates x requested replicas current hooks options volume_plan placement machines
        | _ \<Rightarrow> Inr (machines, None, placement)) (\<lambda>(machines, capacity_error, placement).
      rbind (volume_place requested machines volume_plan) (\<lambda>(volumes, volume_plan).
      rbind (case rq_mode requested of
          Replicated _ \<Rightarrow>
            rbind (case reservation of
                Some admission \<Rightarrow> Inr admission
              | None \<Rightarrow> rbind (expect capacity_error) (\<lambda>error. Inr (Admission_Pending error))) (\<lambda>admission.
            plan_replicated x service_id current volumes admission placement options)
        | Global \<Rightarrow> plan_global x service_id current hooks volumes placement options)
        (\<lambda>(service_operations, hook_machine, placement).
      Inr (pre_deploy_operations requested hooks service_operations hook_machine @ service_operations,
           volume_plan, placement)))))))"

section \<open>The plan\<close>

definition bind :: "deploy_intent \<Rightarrow> bound_intent planned" where
  "bind intent =
     rbind (order_included intent (applied_names intent)) (\<lambda>specs.
     rbind (rmap (scope_requested (di_namespace intent)) (di_target intent)) (\<lambda>target.
     rbind (rmap (\<lambda>spec. expect (List.find (\<lambda>candidate. rq_name candidate = rq_name spec) target)) specs)
       (\<lambda>requested. Inr \<lparr> bi_target = target, bi_requested = requested \<rparr>)))"

definition starting_machine :: "deploy_operation \<Rightarrow> machine_id option" where
  "starting_machine operation =
     (case operation of
        RunContainer machine_id _ _ \<Rightarrow> Some machine_id
      | ReplaceContainer replacement \<Rightarrow> Some (rep_machine_id replacement)
      | _ \<Rightarrow> None)"

record assembly =
  as_volume_plan :: volume_plan
  as_placement :: placement_state
  as_warnings :: "deploy_warning list"
  as_operations :: "deploy_operation list"

definition healthy_dependencies :: "deploy_intent \<Rightarrow> requested_service_spec \<Rightarrow> qualified_service list" where
  "healthy_dependencies intent spec =
     map (\<lambda>dependency. QualifiedService (di_namespace intent) (sd_service dependency))
       (filter (\<lambda>dependency. sd_condition dependency = ServiceHealthy)
          (dependencies_of (di_dependencies intent) (rq_name spec)))"

text \<open>The waits, or the warnings that they are skipped, for the dependencies of a Service that
  starts a container.\<close>

definition add_dependency_waits ::
  "deploy_intent \<Rightarrow> requested_service_spec \<Rightarrow> deploy_operation list \<Rightarrow> assembly \<Rightarrow> assembly" where
  "add_dependency_waits intent spec operations st =
     (case find_map starting_machine operations of
        None \<Rightarrow> st
      | Some machine_id \<Rightarrow>
          let dependent = QualifiedService (di_namespace intent) (rq_name spec) in
          if po_skip_health_monitor (di_options intent)
          then st\<lparr> as_warnings := as_warnings st
                 @ map (SkippedDependencyHealth dependent) (healthy_dependencies intent spec) \<rparr>
          else st\<lparr> as_operations := as_operations st
                 @ map (WaitHealthy machine_id dependent) (healthy_dependencies intent spec) \<rparr>)"

definition assemble_service ::
  "ext \<Rightarrow> deploy_intent \<Rightarrow> deploy_snapshot \<Rightarrow> service_observation list \<Rightarrow> bool \<Rightarrow> requested_service_spec
     \<Rightarrow> assembly \<Rightarrow> assembly planned" where
  "assemble_service x intent snapshot services name_errors_with_service spec st =
     rbind (map_fault (service_error name_errors_with_service (rq_name spec))
         (plan_one_service x spec (di_namespace intent) snapshot services (di_options intent)
            (as_volume_plan st, as_placement st))) (\<lambda>(operations, volume_plan, placement).
     let st = add_dependency_waits intent spec operations
           (st\<lparr> as_volume_plan := volume_plan, as_placement := placement \<rparr>)
     in Inr (st\<lparr> as_operations := as_operations st @ operations \<rparr>))"

definition assemble_plan :: "ext \<Rightarrow> deploy_intent \<Rightarrow> bound_intent \<Rightarrow> deploy_snapshot \<Rightarrow> planned_deploy planned" where
  "assemble_plan x intent bound snapshot =
     (let target = bi_target bound;
          requested = bi_requested bound;
          services = services_in snapshot (di_namespace intent);
          would_remove = obsolete_services intent services;
          refusal = prune_refusal intent (is_observer_complete snapshot);
          retiring = (if refusal = None then would_remove else [])
      in
      rbind (map_err Err (hostname_policy_for (di_namespace intent) requested snapshot retiring)) (\<lambda>warnings.
      rbind (rfold (\<lambda>spec _. validate_host_ports x spec) requested ()) (\<lambda>_.
      rbind (volume_plan_new snapshot (di_namespace intent) target requested) (\<lambda>volume_plan.
      rbind (reserve_shared x requested services (di_options intent) (volume_plan, reservations_new snapshot))
        (\<lambda>(volume_plan, reservations).
      rbind (rfold (assemble_service x intent snapshot services (1 < length requested)) requested
          \<lparr> as_volume_plan = volume_plan, as_placement = into_placement reservations snapshot,
            as_warnings = warnings @ storage_eligibility_warnings requested (di_namespace intent) snapshot,
            as_operations = [] \<rparr>) (\<lambda>st.
      rbind (volume_finish (as_volume_plan st) (as_operations st)) (\<lambda>(volumes, operations).
      Inr \<lparr> pd_operations = operations @
              (if refusal = None then removal_operations services retiring else []),
            pd_volumes = volumes, pd_would_remove = would_remove,
            pd_preserved_volumes = preserved_owned_volumes (di_namespace intent) target snapshot,
            pd_prune_refusal = refusal, pd_warnings = as_warnings st \<rparr>)))))))"

definition plan_operations :: "ext \<Rightarrow> deploy_intent \<Rightarrow> deploy_snapshot \<Rightarrow> planned_deploy planned" where
  "plan_operations x intent snapshot =
     rbind (bind intent) (\<lambda>bound. assemble_plan x intent bound snapshot)"

definition volume_row :: "deploy_snapshot \<Rightarrow> machine_id \<times> service_volume \<Rightarrow> volume_to_create option" where
  "volume_row snapshot create =
     (case create of (machine_id, volume) \<Rightarrow>
      let row = (\<lambda>name maximum_bytes. Some \<lparr> vc_machine_id = machine_id,
            vc_machine_name = map_option (\<lambda>machine. m_name (mo_machine machine))
              (plan_find_machine snapshot machine_id),
            vc_name = name, vc_maximum_bytes = maximum_bytes \<rparr>)
      in case vs_source (sv_source volume) of
           Ordinary name _ _ \<Rightarrow> row name None
         | Provisioned name maximum_bytes _ \<Rightarrow> row name (Some maximum_bytes)
         | External _ \<Rightarrow> None | Bind _ _ _ _ \<Rightarrow> None | Tmpfs _ _ _ \<Rightarrow> None)"

definition seal_plan :: "planned_deploy \<Rightarrow> deploy_snapshot \<Rightarrow> namespace \<Rightarrow> deploy_plan" where
  "seal_plan planned snapshot namespace =
     \<lparr> pl_operations = pd_operations planned,
       pl_preview = \<lparr> dp_storage = [], dp_namespace = namespace,
         dp_operations = pending_rows (pd_operations planned) snapshot,
         dp_warnings = pd_warnings planned,
         dp_volumes_to_create = List.map_filter (volume_row snapshot) (plv_creates (pd_volumes planned)),
         dp_would_remove = pd_would_remove planned,
         dp_preserved_volumes = pd_preserved_volumes planned,
         dp_prune_refusal = pd_prune_refusal planned \<rparr>,
       pl_registry_auth = [] \<rparr>"

definition storage_warnings :: "machine_storage_budget list \<Rightarrow> deploy_warning list" where
  "storage_warnings budgets =
     (if budgets = [] then [] else [UnbudgetedDiskUsage])
     @ List.map_filter (\<lambda>storage.
         let budget = msb_budget storage;
             remaining_bytes = saturating_sub (saturating_sub (available_bytes budget) (reserve_bytes budget))
               (required_growth_bytes budget)
         in if 0 < required_growth_bytes budget \<and> remaining_bytes < STORAGE_GIB
            then Some (StorageHeadroom (msb_machine_id storage) remaining_bytes) else None) budgets"

definition plan_deploy :: "ext \<Rightarrow> deploy_intent \<Rightarrow> deploy_snapshot \<Rightarrow> deploy_plan planned" where
  "plan_deploy x intent snapshot =
     rbind (plan_operations x intent snapshot) (\<lambda>planned.
     let budgets = plv_budgets (pd_volumes planned);
         plan = seal_plan planned snapshot (di_namespace intent)
     in Inr (plan\<lparr> pl_registry_auth := di_registry_auth intent,
          pl_preview := (pl_preview plan)
            \<lparr> dp_warnings := dp_warnings (pl_preview plan) @ storage_warnings budgets,
              dp_storage := budgets \<rparr> \<rparr>))"

definition preview_deploy :: "ext \<Rightarrow> deploy_intent \<Rightarrow> deploy_snapshot \<Rightarrow> deploy_preview planned" where
  "preview_deploy x intent snapshot =
     rbind (plan_deploy x intent snapshot) (\<lambda>plan. Inr (pl_preview plan))"

section \<open>Namespace removal\<close>

definition prepare_namespace_removal ::
  "ext \<Rightarrow> namespace \<Rightarrow> deploy_snapshot \<Rightarrow> volume_fate \<Rightarrow> deploy_plan planned" where
  "prepare_namespace_removal x namespace snapshot volumes =
     rbind (plan_operations x (apply_all namespace [] plan_options_default) snapshot) (\<lambda>planned.
     let planned = (if volumes = Destroy \<and> pd_prune_refusal planned = None
       then planned\<lparr> pd_operations := pd_operations planned
              @ map (\<lambda>volume. RemoveVolume (pv_id volume)) (pd_preserved_volumes planned),
            pd_preserved_volumes := [] \<rparr>
       else planned)
     in Inr (seal_plan planned snapshot namespace))"

definition plan_namespace_removal ::
  "ext \<Rightarrow> namespace \<Rightarrow> deploy_snapshot \<Rightarrow> volume_fate \<Rightarrow> deploy_preview planned" where
  "plan_namespace_removal x namespace snapshot volumes =
     rbind (prepare_namespace_removal x namespace snapshot volumes) (\<lambda>plan. Inr (pl_preview plan))"

definition remove_volume_loss :: "deploy_operation \<Rightarrow> data_loss option" where
  "remove_volume_loss operation =
     (case operation of RemoveVolume volume_id \<Rightarrow> Some (DataLoss_DockerVolume volume_id) | _ \<Rightarrow> None)"

definition data_loss_from_plan :: "deploy_preview \<Rightarrow> data_loss list" where
  "data_loss_from_plan preview =
     List.map_filter (\<lambda>row. remove_volume_loss (row_operation row)) (dp_operations preview)"

end
