(* ===== verification/Progress.thy ===== *)
theory Progress
  imports Planning
begin

text \<open>
  The progress of one Deploy, \<open>ployz/src/deploy/progress.rs\<close>: the rows of the plan with their status,
  and the events sent to an observer. The sending half of the channel is the list of events sent so
  far; a Deploy without an observer has none.
\<close>

section \<open>Events\<close>

datatype image_removal_outcome =
    Image_Removed
  | Image_InUse
  | Image_NotFound
  | Image_Failed string
  | Image_Unrecognized

record image_removal =
  ir_reference :: string
  ir_outcome :: image_removal_outcome

datatype machine_cleanup_result =
    Cleaned "image_removal list"
  | Cleanup_Unsupported
  | Cleanup_Unknown string

record machine_image_cleanup =
  mic_machine_id :: machine_id
  mic_result :: machine_cleanup_result

datatype deploy_event =
    Event_Progress u32 u32 "operation_row list"
  | Event_Outcome "execution_error deploy_outcome"
  | Event_ImagesPruned "machine_image_cleanup list"

section \<open>Rows\<close>

record progress =
  pg_rows :: "operation_row list"
  pg_tx :: "deploy_event list option"

definition progress_new :: "operation_row list \<Rightarrow> deploy_event list option \<Rightarrow> progress" where
  "progress_new rows tx = \<lparr> pg_rows = rows, pg_tx = tx \<rparr>"

definition send_event :: "deploy_event \<Rightarrow> progress \<Rightarrow> progress" where
  "send_event event progress = progress\<lparr> pg_tx := map_option (\<lambda>sent. sent @ [event]) (pg_tx progress) \<rparr>"

definition emit :: "progress \<Rightarrow> progress" where
  "emit progress =
     send_event (Event_Progress
       (row_number (length (filter (\<lambda>row. row_status row = Row_Completed) (pg_rows progress))))
       (row_number (length (pg_rows progress))) (pg_rows progress)) progress"

definition update_row :: "nat \<Rightarrow> (operation_row \<Rightarrow> operation_row) \<Rightarrow> progress \<Rightarrow> progress" where
  "update_row index f progress =
     (if index < length (pg_rows progress)
      then progress\<lparr> pg_rows := (pg_rows progress)[index := f (pg_rows progress ! index)] \<rparr>
      else progress)"

definition set_running :: "nat \<Rightarrow> operation_phase \<Rightarrow> progress \<Rightarrow> progress" where
  "set_running index phase progress = emit (update_row index (row_status_update (\<lambda>_. Row_Running phase)) progress)"

definition set_display_name :: "nat \<Rightarrow> string \<Rightarrow> progress \<Rightarrow> progress" where
  "set_display_name index display_name = update_row index (row_display_name_update (\<lambda>_. Some display_name))"

definition set_completed :: "nat \<Rightarrow> progress \<Rightarrow> progress" where
  "set_completed index progress = emit (update_row index (row_status_update (\<lambda>_. Row_Completed)) progress)"

definition progress_fail :: "nat \<Rightarrow> execution_error \<Rightarrow> progress \<Rightarrow> progress" where
  "progress_fail index error progress =
     (let progress = update_row index (row_status_update (\<lambda>_. Row_Failed error)) progress
      in emit (progress\<lparr> pg_rows := map (\<lambda>(candidate, row).
           if candidate \<noteq> index \<and> row_status row \<noteq> Row_Completed
           then row\<lparr> row_status := Row_Unexecuted \<rparr> else row) (enumerate 0 (pg_rows progress)) \<rparr>))"

definition progress_outcome :: "execution_error deploy_outcome \<Rightarrow> progress \<Rightarrow> progress" where
  "progress_outcome outcome = send_event (Event_Outcome outcome)"

end
