(* ===== verification/Machine_Calls.thy ===== *)
theory Machine_Calls
  imports Progress
begin

text \<open>
  What the executor runs on: the calls of the trait \<open>MachineOperations\<close>, the clock, the timers and the
  cancellation token of the asynchronous runtime, all over a world \<open>'w\<close> that every call may change.
  A computation that does not return is \<open>None\<close>. The wrapper \<open>RestartTolerant\<close>, which repeats calls
  while a daemon restarts, is \<open>restart_tolerant\<close>.

  What the code relies on (calls return, the clock does not go backwards, a timer does not fire before
  its time) is the locale \<open>machine_calls\<close> of \<open>Exec_Live\<close>; the wrapper keeps that contract. The client's
  implementation of the wait for observations is modelled in \<open>Barrier\<close>.
\<close>

section \<open>Computations over a state\<close>

type_synonym ('s, 'a) exec = "'s \<Rightarrow> ('a \<times> 's) option"

definition xret :: "'a \<Rightarrow> ('s, 'a) exec" where
  "xret a s = Some (a, s)"

definition xbind :: "('s, 'a) exec \<Rightarrow> ('a \<Rightarrow> ('s, 'b) exec) \<Rightarrow> ('s, 'b) exec" where
  "xbind m k s = (case m s of None \<Rightarrow> None | Some (a, s') \<Rightarrow> k a s')"

text \<open>The operator \<open>?\<close>: an error ends the computation.\<close>

definition xtry :: "('s, ('e, 'a) result) exec \<Rightarrow> ('a \<Rightarrow> ('s, ('e, 'b) result) exec) \<Rightarrow> ('s, ('e, 'b) result) exec" where
  "xtry m k = xbind m (\<lambda>r. case r of Inl e \<Rightarrow> xret (Inl e) | Inr a \<Rightarrow> k a)"

definition xmap :: "('a \<Rightarrow> 'b) \<Rightarrow> ('s, 'a) exec \<Rightarrow> ('s, 'b) exec" where
  "xmap f m = xbind m (\<lambda>a. xret (f a))"

text \<open>A \<open>loop\<close>: its body continues with new loop variables, or returns.\<close>

partial_function (option) xloop ::
  "('st \<Rightarrow> ('s, 'st + 'r) exec) \<Rightarrow> 'st \<Rightarrow> 's \<Rightarrow> ('r \<times> 's) option" where
  "xloop body st s = Option.bind (body st s) (\<lambda>(step, s').
     case step of Inl st' \<Rightarrow> xloop body st' s' | Inr r \<Rightarrow> Some (r, s'))"

declare xloop.simps [code]

lemma xbind_eq_Some: "xbind m k s = Some (b, t) \<longleftrightarrow> (\<exists>a s'. m s = Some (a, s') \<and> k a s' = Some (b, t))"
  by (auto simp: xbind_def split: option.splits)

lemma xret_eq_Some [simp]: "xret a s = Some (b, t) \<longleftrightarrow> b = a \<and> t = s"
  by (auto simp: xret_def)

lemma xtry_eq_Some:
  "xtry m k s = Some (b, t) \<longleftrightarrow>
     (\<exists>e. m s = Some (Inl e, t) \<and> b = Inl e) \<or> (\<exists>a s'. m s = Some (Inr a, s') \<and> k a s' = Some (b, t))"
proof (cases "m s")
  case (Some p)
  then show ?thesis
    by (cases p; cases "fst p") (auto simp: xtry_def xbind_def)
qed (simp add: xtry_def xbind_def)

lemma xmap_eq_Some: "xmap f m s = Some (b, t) \<longleftrightarrow> (\<exists>a. m s = Some (a, t) \<and> b = f a)"
  by (auto simp: xmap_def xbind_eq_Some)

lemmas exec_simps = xbind_eq_Some xtry_eq_Some xmap_eq_Some

text \<open>Partial correctness and termination of loops.\<close>

lemma xloop_invariant:
  assumes "xloop body st s = Some (r, t)" and "P st s"
    and "\<And>st s st' s'. P st s \<Longrightarrow> body st s = Some (Inl st', s') \<Longrightarrow> P st' s'"
    and "\<And>st s r t. P st s \<Longrightarrow> body st s = Some (Inr r, t) \<Longrightarrow> Q r t"
  shows "Q r t"
proof -
  have "b = body \<longrightarrow> P st s \<longrightarrow> Q (fst y) (snd y)" if run: "xloop b st s = Some y" for b st s y
  proof (rule xloop.raw_induct [OF _ run, where P = "\<lambda>b st s y. b = body \<longrightarrow> P st s \<longrightarrow> Q (fst y) (snd y)"])
    fix loop b st s y
    assume IH: "\<And>b st s y. loop b st s = Some y \<Longrightarrow> b = body \<longrightarrow> P st s \<longrightarrow> Q (fst y) (snd y)"
      and "Option.bind (b st s) (\<lambda>(step, s'). case step of Inl st' \<Rightarrow> loop b st' s' | Inr r \<Rightarrow> Some (r, s')) = Some y"
    then obtain step s' where step: "b st s = Some (step, s')"
      "(case step of Inl st' \<Rightarrow> loop b st' s' | Inr r \<Rightarrow> Some (r, s')) = Some y"
      by (auto simp: Option.bind_eq_Some_conv)
    show "b = body \<longrightarrow> P st s \<longrightarrow> Q (fst y) (snd y)"
    proof (cases step)
      case (Inl st')
      with step(2) have "loop b st' s' = Some y"
        by simp
      from IH [OF this] show ?thesis
        using assms(3) [of st s st' s'] step(1) Inl by (intro impI) simp
    next
      case (Inr r)
      with step show ?thesis
        using assms(4) [of st s r s'] by auto
    qed
  qed
  from this [OF assms(1)] assms(2) show ?thesis
    by simp
qed

lemma xloop_returns:
  fixes m :: "'st \<Rightarrow> 's \<Rightarrow> nat"
  assumes "P st s"
    and "\<And>st s. P st s \<Longrightarrow> \<exists>step s'. body st s = Some (step, s')
           \<and> (\<forall>st'. step = Inl st' \<longrightarrow> P st' s' \<and> m st' s' < m st s)"
  shows "\<exists>r t. xloop body st s = Some (r, t)"
  using assms(1)
proof (induction "m st s" arbitrary: st s rule: less_induct)
  case less
  obtain step s' where step: "body st s = Some (step, s')"
    "\<forall>st'. step = Inl st' \<longrightarrow> P st' s' \<and> m st' s' < m st s"
    using assms(2) [OF less.prems] by blast
  show ?case
  proof (cases step)
    case (Inl st')
    then show ?thesis
      using step less.hyps [of st' s'] by (simp add: xloop.simps [of body st s])
  qed (use step in \<open>simp add: xloop.simps\<close>)
qed

section \<open>The interface of the executor\<close>

record container_created =
  cc_container_id :: container_id
  cc_display_name :: string

datatype container_observation_condition = Condition_Serving | Condition_Dropped

text \<open>The token of the Deploy, or a new one that nothing cancels.\<close>

datatype cancellation_token = Deploy_Token | Fresh_Token

type_synonym ('w, 'a) rpc_call = "('w, (rpc_error, 'a) result) exec"

record 'w machine_operations =
  call_prepare_volumes :: "machine_id \<Rightarrow> service_storage_spec list \<Rightarrow> ('w, docker_volume_name list) rpc_call"
  call_wait_for_container_observations ::
    "container_id list \<Rightarrow> container_observation_condition \<Rightarrow> cancellation_token \<Rightarrow> ('w, unit) rpc_call"
  call_service_containers :: "qualified_service \<Rightarrow> ('w, container_observation list) rpc_call"
  call_create_container ::
    "machine_id \<Rightarrow> container_kind \<Rightarrow> namespace \<Rightarrow> resolved_service_spec \<Rightarrow> container_id option
       \<Rightarrow> ('w, container_created) rpc_call"
  call_start_container :: "machine_id \<Rightarrow> container_id \<Rightarrow> ('w, unit) rpc_call"
  call_inspect_container :: "machine_id \<Rightarrow> container_id \<Rightarrow> ('w, container_observation) rpc_call"
  call_stop_container :: "machine_id \<Rightarrow> container_id \<Rightarrow> int option \<Rightarrow> ('w, unit) rpc_call"
  call_remove_container :: "machine_id \<Rightarrow> container_id \<Rightarrow> ('w, unit) rpc_call"
  call_remove_volume :: "docker_volume_id \<Rightarrow> ('w, unit) rpc_call"

text \<open>Instants and durations are nanoseconds. A \<open>select!\<close> between the cancellation of the Deploy and
  timers or a call says which branch ran.\<close>

type_synonym instant = int

datatype select_branch = Branch_Cancelled | Branch_Deadline | Branch_Ready

record 'w runtime =
  rt_now :: "('w, instant) exec"
  rt_is_cancelled :: "('w, bool) exec"
  rt_sleep :: "instant \<Rightarrow> ('w, bool) exec"
  rt_sleep_before :: "instant \<Rightarrow> instant \<Rightarrow> ('w, select_branch) exec"
  rt_call_before :: "instant \<Rightarrow> ('w, select_branch) exec"

text \<open>\<open>rt_sleep wake\<close> is \<open>select! { cancelled, sleep_until(wake) }\<close>, and says whether the cancellation won.
  \<open>rt_sleep_before deadline wake\<close> is the biased \<open>select! { cancelled, sleep_until(deadline),
  sleep_until(wake) }\<close>. \<open>rt_call_before deadline\<close> is the biased \<open>select! { cancelled,
  sleep_until(deadline), call }\<close>; when the call wins, it runs after the choice.\<close>

abbreviation nanos_of_millis :: "u64 \<Rightarrow> int" where
  "nanos_of_millis millis \<equiv> uint millis * 1000000"

definition millis_u64 :: "int \<Rightarrow> u64" where
  "millis_u64 nanos = (if nanos div 1000000 < 2 ^ 64 then word_of_int (nanos div 1000000) else - 1)"

definition elapsed_ms :: "'w runtime \<Rightarrow> instant \<Rightarrow> ('w, u64) exec" where
  "elapsed_ms rt started = xmap (\<lambda>now. millis_u64 (max 0 (now - started))) (rt_now rt)"

section \<open>Daemon restarts\<close>

definition RESTART_WAIT :: int where "RESTART_WAIT = 60 * 1000000000"
definition RESTART_POLL :: int where "RESTART_POLL = 250 * 1000000"
definition POLL_INTERVAL :: int where "POLL_INTERVAL = 1000000000"

definition is_unavailable :: "rpc_error \<Rightarrow> bool" where
  "is_unavailable error = (rpc_code error = Unavailable)"

definition restart_step ::
  "'w runtime \<Rightarrow> instant \<Rightarrow> ('w, 'a) rpc_call \<Rightarrow> unit \<Rightarrow> ('w, unit + (rpc_error, 'a) result) exec" where
  "restart_step rt deadline op _ =
     xbind op (\<lambda>r. case r of
         Inr v \<Rightarrow> xret (Inr (Inr v))
       | Inl error \<Rightarrow>
           if \<not> is_unavailable error then xret (Inr (Inl error))
           else xbind (rt_now rt) (\<lambda>now.
             if \<not> now < deadline then xret (Inr (Inl error))
             else xbind (rt_is_cancelled rt) (\<lambda>cancelled.
               if cancelled then xret (Inr (Inl error))
               else xbind (rt_now rt) (\<lambda>now. xbind (rt_sleep rt (now + RESTART_POLL)) (\<lambda>cancelled.
                 xret (if cancelled then Inr (Inl error) else Inl ()))))))"

definition wait_out_restart :: "'w runtime \<Rightarrow> ('w, 'a) rpc_call \<Rightarrow> ('w, 'a) rpc_call" where
  "wait_out_restart rt op =
     xbind (rt_now rt) (\<lambda>now. xloop (restart_step rt (now + RESTART_WAIT) op) ())"

definition restart_tolerant :: "'w runtime \<Rightarrow> 'w machine_operations \<Rightarrow> 'w machine_operations" where
  "restart_tolerant rt ops = ops
     \<lparr> call_service_containers := \<lambda>service. wait_out_restart rt (call_service_containers ops service),
       call_start_container := \<lambda>machine_id container_id.
         wait_out_restart rt (call_start_container ops machine_id container_id),
       call_inspect_container := \<lambda>machine_id container_id.
         wait_out_restart rt (call_inspect_container ops machine_id container_id),
       call_stop_container := \<lambda>machine_id container_id grace.
         wait_out_restart rt (call_stop_container ops machine_id container_id grace),
       call_remove_container := \<lambda>machine_id container_id.
         wait_out_restart rt (call_remove_container ops machine_id container_id),
       call_remove_volume := \<lambda>vid. wait_out_restart rt (call_remove_volume ops vid) \<rparr>"

end
