(* ===== verification/Health.thy ===== *)
theory Health
  imports Machine_Calls
begin

text \<open>
  The waits for a started container and for the health of a dependency,
  \<open>ployz/src/deploy/exec/health.rs\<close>. The polling loops are \<open>xloop\<close>; the bounds that make them end are
  proved with the executor.
\<close>

section \<open>State of an execution\<close>

record 'w execution =
  xc_world :: 'w
  xc_progress :: progress

definition xworld :: "('w, 'a) exec \<Rightarrow> ('w execution, 'a) exec" where
  "xworld m s = (case m (xc_world s) of None \<Rightarrow> None | Some (a, w) \<Rightarrow> Some (a, s\<lparr> xc_world := w \<rparr>))"

definition xprogress :: "(progress \<Rightarrow> progress) \<Rightarrow> ('w execution, unit) exec" where
  "xprogress f s = Some ((), s\<lparr> xc_progress := f (xc_progress s) \<rparr>)"

lemma xworld_eq_Some:
  "xworld m s = Some (a, t) \<longleftrightarrow> (\<exists>w. m (xc_world s) = Some (a, w) \<and> t = s\<lparr> xc_world := w \<rparr>)"
  by (auto simp: xworld_def split: option.splits)

lemma xprogress_eq_Some: "xprogress f s = Some (a, t) \<longleftrightarrow> t = s\<lparr> xc_progress := f (xc_progress s) \<rparr>"
  by (auto simp: xprogress_def)

section \<open>Classification\<close>

definition DEFAULT_HEALTH_MONITOR :: int where "DEFAULT_HEALTH_MONITOR = 5 * 1000000000"

datatype health_poll = Poll_Complete | PendingUntil instant | Poll_Failed health_failure

datatype health_expectation = ContainerReady | Expect_Healthy

definition pending_or_failed :: "instant \<Rightarrow> instant \<Rightarrow> health_failure \<Rightarrow> health_poll" where
  "pending_or_failed now deadline failure = (if deadline \<le> now then Poll_Failed failure else PendingUntil deadline)"

definition classify_health ::
  "container_runtime_observation \<Rightarrow> instant \<Rightarrow> instant \<Rightarrow> instant option \<Rightarrow> health_expectation \<Rightarrow> health_poll" where
  "classify_health observed now monitor_deadline health_deadline expectation =
     (let starting = (case health_deadline of
            None \<Rightarrow> Poll_Failed (Health_Runtime observed)
          | Some deadline \<Rightarrow> pending_or_failed now deadline Health_TimedOut);
          other = pending_or_failed now monitor_deadline (Health_Runtime observed)
      in case observed of
           Running health \<Rightarrow>
             (case health of
                Healthy \<Rightarrow> Poll_Complete
              | NotConfigured \<Rightarrow>
                  if expectation = ContainerReady \<and> health_deadline = None then Poll_Complete else starting
              | Starting \<Rightarrow> starting
              | Unrecognized_Health _ \<Rightarrow> starting
              | Unhealthy \<Rightarrow> other)
         | Restarting \<Rightarrow> if expectation = ContainerReady then Poll_Failed (Health_Runtime observed) else other
         | Exited _ \<Rightarrow> if expectation = ContainerReady then Poll_Failed (Health_Runtime observed) else other
         | Created \<Rightarrow> other
         | Paused \<Rightarrow> other
         | Removing \<Rightarrow> other
         | Dead \<Rightarrow> other
         | Unknown_Runtime _ \<Rightarrow> other)"

definition observed_health :: "container_runtime_observation \<Rightarrow> health_observation option" where
  "observed_health observed = (case observed of Running health \<Rightarrow> Some health | _ \<Rightarrow> None)"

definition health_error :: "container_id \<Rightarrow> health_failure \<Rightarrow> execution_error" where
  "health_error container_id failure = Health_Error container_id failure"

definition dependency_health_error :: "qualified_service \<Rightarrow> dependency_health_failure \<Rightarrow> execution_error" where
  "dependency_health_error dependency failure = DependencyHealth dependency failure"

section \<open>Deadlines\<close>

definition saturating_mul :: "u64 \<Rightarrow> u64 \<Rightarrow> u64" where
  "saturating_mul a b = (if uint a * uint b < 2 ^ 64 then a * b else - 1)"

definition unwrap_or :: "'a \<Rightarrow> 'a option \<Rightarrow> 'a" where
  "unwrap_or fallback a = (case a of None \<Rightarrow> fallback | Some v \<Rightarrow> v)"

definition healthcheck_timeout_millis :: "configured_healthcheck option \<Rightarrow> u64" where
  "healthcheck_timeout_millis check =
     (let interval = unwrap_or 30000 (Option.bind check hc_interval_millis);
          timeout = unwrap_or 30000 (Option.bind check hc_timeout_millis);
          retries = (ucast (unwrap_or 3 (Option.bind check hc_retries)) :: u64)
      in saturating_add
           (saturating_add (unwrap_or 0 (Option.bind check hc_start_period_millis))
              (saturating_mul (saturating_add interval timeout) retries))
           5000)"

definition healthcheck_timeout :: "configured_healthcheck option \<Rightarrow> int" where
  "healthcheck_timeout check = nanos_of_millis (healthcheck_timeout_millis check)"

definition is_starting :: "container_runtime_observation \<Rightarrow> bool" where
  "is_starting observed =
     (case observed of Running health \<Rightarrow> (case health of Starting \<Rightarrow> True | Unrecognized_Health _ \<Rightarrow> True | _ \<Rightarrow> False)
      | _ \<Rightarrow> False)"

definition health_deadline_for :: "healthcheck_spec option \<Rightarrow> container_observation \<Rightarrow> instant \<Rightarrow> instant option" where
  "health_deadline_for spec observed started =
     (case spec of
        Some (Healthcheck_Configured configured) \<Rightarrow> Some (started + healthcheck_timeout (Some configured))
      | Some (Healthcheck_Http check) \<Rightarrow> Some (started + uint (hh_timeout_seconds check) * 1000000000)
      | Some Healthcheck_Disabled \<Rightarrow> None
      | None \<Rightarrow>
          (case Option.bind (co_effective_healthcheck observed) as_configured of
             Some check \<Rightarrow> Some (started + healthcheck_timeout (Some check))
           | None \<Rightarrow>
               if is_starting (co_runtime observed) then Some (started + healthcheck_timeout None) else None))"

section \<open>A dependency\<close>

definition is_http :: "healthcheck_spec option \<Rightarrow> bool" where
  "is_http check = (case check of Some (Healthcheck_Http _) \<Rightarrow> True | _ \<Rightarrow> False)"

definition is_of_service :: "qualified_service \<Rightarrow> container_observation \<Rightarrow> bool" where
  "is_of_service service container =
     (co_kind container = ServiceContainer \<and> co_namespace container = qs_namespace service
      \<and> rs_name (co_resolved_spec container) = qs_name service)"

text \<open>The deadline of one container of a dependency: a running container without a health report is
  given the default time.\<close>

definition dependency_deadline :: "container_observation \<Rightarrow> instant \<Rightarrow> instant option" where
  "dependency_deadline observed started =
     (case health_deadline_for (healthcheck (rs_container (co_resolved_spec observed))) observed started of
        Some deadline \<Rightarrow> Some deadline
      | None \<Rightarrow>
          if is_starting (co_runtime observed) \<or> co_runtime observed = Running NotConfigured
          then Some (started + healthcheck_timeout None) else None)"

definition classify_dependency :: "instant \<Rightarrow> instant \<Rightarrow> instant \<Rightarrow> container_observation \<Rightarrow> health_poll" where
  "classify_dependency started monitor_deadline now observed =
     (let health_deadline = dependency_deadline observed started
      in classify_health (co_runtime observed) now
           (if is_http (healthcheck (rs_container (co_resolved_spec observed)))
            then unwrap_or monitor_deadline health_deadline else monitor_deadline)
           health_deadline Expect_Healthy)"

text \<open>The loop over the containers: the first failure, or the earliest pending deadline.\<close>

fun poll_dependency ::
  "qualified_service \<Rightarrow> instant \<Rightarrow> instant \<Rightarrow> instant \<Rightarrow> container_observation list
     \<Rightarrow> (container_id \<times> health_observation option \<times> instant) option
     \<Rightarrow> (execution_error, (container_id \<times> health_observation option \<times> instant) option) result" where
  "poll_dependency dependency started monitor_deadline now [] pending = Inr pending"
| "poll_dependency dependency started monitor_deadline now (observed # containers) pending =
     (case classify_dependency started monitor_deadline now observed of
        Poll_Complete \<Rightarrow> poll_dependency dependency started monitor_deadline now containers pending
      | Poll_Failed failure \<Rightarrow>
          Inl (dependency_health_error dependency (Dependency_Container (co_container_id observed) failure))
      | PendingUntil deadline \<Rightarrow>
          poll_dependency dependency started monitor_deadline now containers
            (if (case pending of None \<Rightarrow> True | Some (_, _, pending_deadline) \<Rightarrow> deadline < pending_deadline)
             then Some (co_container_id observed, observed_health (co_runtime observed), deadline)
             else pending))"

definition wait_healthy_step ::
  "'w runtime \<Rightarrow> 'w machine_operations \<Rightarrow> nat \<Rightarrow> qualified_service \<Rightarrow> instant \<Rightarrow> unit
     \<Rightarrow> ('w execution, unit + (execution_error, unit) result) exec" where
  "wait_healthy_step rt ops index dependency started _ =
     (let monitor_deadline = started + DEFAULT_HEALTH_MONITOR;
          cancelled = Inr (Inl (dependency_health_error dependency Dependency_Cancelled))
      in
      xbind (xworld (rt_is_cancelled rt)) (\<lambda>is_cancelled. if is_cancelled then xret cancelled else
      xbind (xworld (call_service_containers ops dependency)) (\<lambda>r. case r of
        Inl error \<Rightarrow> xret (Inr (Inl (dependency_health_error dependency (Dependency_Observation error))))
      | Inr listed \<Rightarrow>
          let containers = filter (is_of_service dependency) listed in
          if containers = [] then xret (Inr (Inl (dependency_health_error dependency NoContainers))) else
          xbind (xworld (rt_now rt)) (\<lambda>now.
          case poll_dependency dependency started monitor_deadline now containers None of
            Inl error \<Rightarrow> xret (Inr (Inl error))
          | Inr None \<Rightarrow> xret (Inr (Inr ()))
          | Inr (Some (container_id, health, deadline)) \<Rightarrow>
              xbind (xworld (elapsed_ms rt started)) (\<lambda>elapsed.
              xbind (xprogress (set_running index (WaitingForHealth container_id health elapsed
                  (millis_u64 (max 0 (deadline - started)))))) (\<lambda>_.
              xbind (xworld (rt_sleep rt (min (now + POLL_INTERVAL) deadline))) (\<lambda>is_cancelled.
              xret (if is_cancelled then cancelled else Inl ()))))))))"

definition wait_healthy ::
  "'w runtime \<Rightarrow> 'w machine_operations \<Rightarrow> nat \<Rightarrow> qualified_service
     \<Rightarrow> ('w execution, (execution_error, unit) result) exec" where
  "wait_healthy rt ops index dependency =
     xbind (xworld (rt_now rt)) (\<lambda>started. xloop (wait_healthy_step rt ops index dependency started) ())"

section \<open>A started container\<close>

definition machine_error :: "machine_action \<Rightarrow> rpc_error \<Rightarrow> execution_error" where
  "machine_error action error = Machine_Error action error"

definition inspect ::
  "'w machine_operations \<Rightarrow> machine_id \<Rightarrow> container_id
     \<Rightarrow> ('w execution, (execution_error, container_observation) result) exec" where
  "inspect ops machine_id container_id =
     xmap (map_err (machine_error Action_InspectContainer))
       (xworld (call_inspect_container ops machine_id container_id))"

text \<open>The window in which a container without a health check only has to stay up.\<close>

definition window_step ::
  "'w runtime \<Rightarrow> nat \<Rightarrow> container_id \<Rightarrow> instant \<Rightarrow> instant \<Rightarrow> u64 \<Rightarrow> unit
     \<Rightarrow> ('w execution, unit + (execution_error, unit) result) exec" where
  "window_step rt index container_id started deadline deadline_ms _ =
     xbind (xworld (rt_now rt)) (\<lambda>now.
     xbind (xworld (rt_sleep rt (min (now + POLL_INTERVAL) deadline))) (\<lambda>is_cancelled.
     if is_cancelled then xret (Inr (Inl (health_error container_id Health_Cancelled))) else
     xbind (xworld (elapsed_ms rt started)) (\<lambda>elapsed.
     xbind (xprogress (set_running index (WaitingForHealth container_id None elapsed deadline_ms))) (\<lambda>_.
     xbind (xworld (rt_now rt)) (\<lambda>now.
     xret (if deadline \<le> now then Inr (Inr ()) else Inl ()))))))"

definition monitor_step ::
  "'w runtime \<Rightarrow> 'w machine_operations \<Rightarrow> nat \<Rightarrow> machine_id \<Rightarrow> container_id \<Rightarrow> healthcheck_spec option
     \<Rightarrow> instant \<Rightarrow> instant \<Rightarrow> unit \<Rightarrow> ('w execution, unit + (execution_error, unit) result) exec" where
  "monitor_step rt ops index machine_id container_id check started monitor_deadline _ =
     (let cancelled = Inr (Inl (health_error container_id Health_Cancelled)) in
      xbind (xworld (rt_is_cancelled rt)) (\<lambda>is_cancelled. if is_cancelled then xret cancelled else
      xbind (inspect ops machine_id container_id) (\<lambda>r. case r of
        Inl error \<Rightarrow> xret (Inr (Inl error))
      | Inr observed \<Rightarrow>
          xbind (xworld (rt_now rt)) (\<lambda>now.
          let health_deadline = health_deadline_for check observed started in
          xbind (xworld (elapsed_ms rt started)) (\<lambda>elapsed.
          xbind (xprogress (set_running index (WaitingForHealth container_id (observed_health (co_runtime observed))
              elapsed (millis_u64 (max 0 (unwrap_or monitor_deadline health_deadline - started)))))) (\<lambda>_.
          case classify_health (co_runtime observed) now
              (if is_http check then unwrap_or monitor_deadline health_deadline else monitor_deadline)
              health_deadline ContainerReady of
            Poll_Complete \<Rightarrow> xret (Inr (Inr ()))
          | Poll_Failed failure \<Rightarrow> xret (Inr (Inl (health_error container_id failure)))
          | PendingUntil wake_deadline \<Rightarrow>
              xbind (xworld (rt_sleep rt (min (now + POLL_INTERVAL) wake_deadline))) (\<lambda>is_cancelled.
              xret (if is_cancelled then cancelled else Inl ())))))))) "

definition monitor_container ::
  "'w runtime \<Rightarrow> 'w machine_operations \<Rightarrow> nat \<Rightarrow> machine_id \<Rightarrow> container_id \<Rightarrow> resolved_service_spec
     \<Rightarrow> ('w execution, (execution_error, unit) result) exec" where
  "monitor_container rt ops index machine_id container_id spec =
     (let check = healthcheck (rs_container spec);
          monitor = (case ru_monitor_millis (rs_update spec) of
            None \<Rightarrow> DEFAULT_HEALTH_MONITOR | Some millis \<Rightarrow> nanos_of_millis millis);
          deadline_ms = (case check of
            Some (Healthcheck_Http http) \<Rightarrow> ucast (hh_timeout_seconds http) * 1000
          | other \<Rightarrow> healthcheck_timeout_millis (Option.bind other as_configured));
          unmonitored = (case check of
            Some (Healthcheck_Configured _) \<Rightarrow> False | Some (Healthcheck_Http _) \<Rightarrow> False | _ \<Rightarrow> True)
      in
      xbind (xworld (rt_now rt)) (\<lambda>started.
      xbind (xprogress (set_running index (WaitingForHealth container_id None 0 deadline_ms))) (\<lambda>_.
      xtry (if unmonitored \<and> monitor \<noteq> 0
            then xloop (window_step rt index container_id started (started + monitor) deadline_ms) ()
            else xret (Inr ())) (\<lambda>_.
      xloop (monitor_step rt ops index machine_id container_id check started (started + monitor)) ()))))"

end
