(* ===== verification/Execution.thy ===== *)
theory Execution
  imports Health
begin

text \<open>
  The executor of a Deploy plan, \<open>ployz/src/deploy/exec/mod.rs\<close>: it runs the operations of a plan in
  order, reports progress, and on a failure compensates a replacement and ends with an outcome that
  divides the plan. A failing \<open>expect\<close> is the value \<open>Panic\<close>.
\<close>

section \<open>Outcomes\<close>

definition get_to :: "'a list \<Rightarrow> nat \<Rightarrow> 'a list option" where
  "get_to xs n = (if n \<le> length xs then Some (take n xs) else None)"

definition get_from :: "'a list \<Rightarrow> nat \<Rightarrow> 'a list option" where
  "get_from xs n = (if n \<le> length xs then Some (drop n xs) else None)"

definition split_first :: "'a list \<Rightarrow> ('a \<times> 'a list) option" where
  "split_first xs = (case xs of [] \<Rightarrow> None | y # ys \<Rightarrow> Some (y, ys))"

definition failure_outcome_from :: "deploy_operation list \<Rightarrow> nat \<Rightarrow> 'e \<Rightarrow> 'e deploy_outcome option" where
  "failure_outcome_from operations completed_count error =
     Option.bind (get_to operations completed_count) (\<lambda>completed.
     Option.bind (Option.bind (get_from operations completed_count) split_first) (\<lambda>(failed, unexecuted).
     Some (Deploy_Failed completed (Failed_Operation failed error) unexecuted)))"

definition replacement_failure_outcome_from ::
  "deploy_operation list \<Rightarrow> nat \<Rightarrow> 'e \<Rightarrow> 'e replacement_compensation \<Rightarrow> 'e deploy_outcome option" where
  "replacement_failure_outcome_from operations completed_count error compensation =
     Option.bind (get_to operations completed_count) (\<lambda>completed.
     Option.bind (Option.bind (get_from operations completed_count) split_first) (\<lambda>(failed, unexecuted).
     case failed of
       ReplaceContainer operation \<Rightarrow>
         Some (Deploy_Failed completed (Failed_Replacement operation error compensation) unexecuted)
     | _ \<Rightarrow> None))"

datatype operation_failure =
    Ordinary execution_error
  | Replacement_Failure execution_error "execution_error replacement_compensation"

section \<open>Steps shared by the operations\<close>

type_synonym ('w, 'a) execute = "('w execution, (execution_error, 'a) result) exec"

definition ignore_not_found :: "(rpc_error, unit) result \<Rightarrow> (rpc_error, unit) result" where
  "ignore_not_found r =
     (case r of Inl error \<Rightarrow> (if rpc_code error = NotFound then Inr () else Inl error) | Inr _ \<Rightarrow> r)"

definition stop_grace_period :: "resolved_service_spec \<Rightarrow> int option" where
  "stop_grace_period spec =
     map_option (\<lambda>secs. if - (2 ^ 31) \<le> secs \<and> secs < 2 ^ 31 then secs else 2 ^ 31 - 1)
       (stop_timeout_secs (rs_container spec))"

text \<open>A call whose error names the action.\<close>

definition acting :: "machine_action \<Rightarrow> ('w, 'a) rpc_call \<Rightarrow> ('w, 'a) execute" where
  "acting action call = xmap (map_err (machine_error action)) (xworld call)"

definition acting_if_found :: "machine_action \<Rightarrow> ('w, unit) rpc_call \<Rightarrow> ('w, unit) execute" where
  "acting_if_found action call = xmap (\<lambda>r. map_err (machine_error action) (ignore_not_found r)) (xworld call)"

definition running :: "nat \<Rightarrow> operation_phase \<Rightarrow> ('w execution, unit) exec" where
  "running index phase = xprogress (set_running index phase)"

definition wait_dropped :: "'w machine_operations \<Rightarrow> container_id \<Rightarrow> ('w, unit) execute" where
  "wait_dropped ops container_id =
     acting Action_InspectContainer
       (call_wait_for_container_observations ops [container_id] Condition_Dropped Deploy_Token)"

definition wait_serving :: "'w machine_operations \<Rightarrow> container_id \<Rightarrow> cancellation_token \<Rightarrow> ('w, unit) execute" where
  "wait_serving ops container_id token =
     acting Action_InspectContainer
       (call_wait_for_container_observations ops [container_id] Condition_Serving token)"

text \<open>A container that a keyed creation may have returned from an earlier attempt is not removed.\<close>

definition discard_created ::
  "'w machine_operations \<Rightarrow> machine_id \<Rightarrow> container_kind \<Rightarrow> resolved_service_spec \<Rightarrow> container_id
     \<Rightarrow> ('w execution, unit) exec" where
  "discard_created ops machine_id kind spec container_id =
     (if kind \<noteq> ServiceContainer \<or> rs_mode spec \<noteq> Global
      then xmap (\<lambda>_. ()) (xworld (call_remove_container ops machine_id container_id))
      else xret ())"

definition create_and_start ::
  "'w runtime \<Rightarrow> 'w machine_operations \<Rightarrow> nat \<Rightarrow> machine_id \<Rightarrow> container_kind \<Rightarrow> namespace
     \<Rightarrow> resolved_service_spec \<Rightarrow> container_id option \<Rightarrow> ('w, container_created) execute" where
  "create_and_start rt ops index machine_id kind namespace spec replacing =
     xbind (running index CreatingContainer) (\<lambda>_.
     xbind (xworld (call_create_container ops machine_id kind namespace spec replacing)) (\<lambda>r.
     case r of
       Inl error \<Rightarrow>
         xbind (xworld (rt_is_cancelled rt)) (\<lambda>cancelled.
         xret (Inl (if cancelled then Cancelled else machine_error Action_CreateContainer error)))
     | Inr created \<Rightarrow>
         xbind (xworld (rt_is_cancelled rt)) (\<lambda>cancelled.
         if cancelled then
           xbind (discard_created ops machine_id kind spec (cc_container_id created)) (\<lambda>_.
           xret (Inl Cancelled))
         else
           xbind (xprogress (set_display_name index (cc_display_name created))) (\<lambda>_.
           xbind (running index StartingContainer) (\<lambda>_.
           xbind (xworld (call_start_container ops machine_id (cc_container_id created))) (\<lambda>r.
           case r of
             Inl error \<Rightarrow>
               xbind (discard_created ops machine_id kind spec (cc_container_id created)) (\<lambda>_.
               xret (Inl (machine_error Action_StartContainer error)))
           | Inr _ \<Rightarrow> xret (Inr created)))))))"

definition serve ::
  "'w runtime \<Rightarrow> 'w machine_operations \<Rightarrow> nat \<Rightarrow> machine_id \<Rightarrow> container_id \<Rightarrow> resolved_service_spec \<Rightarrow> bool
     \<Rightarrow> ('w, unit) execute" where
  "serve rt ops index machine_id container_id spec skip_health_monitor =
     xtry (if \<not> skip_health_monitor then monitor_container rt ops index machine_id container_id spec
           else xret (Inr ())) (\<lambda>_.
     wait_serving ops container_id Deploy_Token)"

definition run_container ::
  "'w runtime \<Rightarrow> 'w machine_operations \<Rightarrow> nat \<Rightarrow> machine_id \<Rightarrow> namespace \<Rightarrow> resolved_service_spec \<Rightarrow> bool
     \<Rightarrow> ('w, container_id) execute" where
  "run_container rt ops index machine_id namespace spec skip_health_monitor =
     xtry (create_and_start rt ops index machine_id ServiceContainer namespace spec None) (\<lambda>created.
     xtry (serve rt ops index machine_id (cc_container_id created) spec skip_health_monitor) (\<lambda>_.
     xret (Inr (cc_container_id created))))"

section \<open>Replacement\<close>

definition restore_old_container ::
  "'w machine_operations \<Rightarrow> replacement_operation \<Rightarrow> ('w execution, execution_error restart_attempt) exec" where
  "restore_old_container ops operation =
     xmap restart_attempt_from
       (xtry (acting Action_StartContainer
           (call_start_container ops (rep_machine_id operation) (rep_old_container_id operation))) (\<lambda>_.
        wait_serving ops (rep_old_container_id operation) Fresh_Token))"

definition stop_new_container ::
  "'w machine_operations \<Rightarrow> replacement_operation \<Rightarrow> container_id option
     \<Rightarrow> ('w execution, execution_error stop_attempt option) exec" where
  "stop_new_container ops operation new_container =
     (case new_container of
        None \<Rightarrow> xret None
      | Some container_id \<Rightarrow>
          xmap (\<lambda>r. Some (stop_attempt_from r))
            (acting_if_found Action_StopContainer
               (call_stop_container ops (rep_machine_id operation) container_id
                  (Some (unwrap_or 0 (stop_grace_period (rep_spec operation)))))))"

definition is_health_failure :: "execution_error \<Rightarrow> bool" where
  "is_health_failure error = (case error of Health_Error _ _ \<Rightarrow> True | _ \<Rightarrow> False)"

definition compensate ::
  "'w machine_operations \<Rightarrow> nat \<Rightarrow> replacement_operation \<Rightarrow> bool \<Rightarrow> container_id option \<Rightarrow> execution_error
     \<Rightarrow> ('w execution, operation_failure) exec" where
  "compensate ops index operation old_stopped new_container error =
     (if \<not> old_stopped \<and> \<not> is_health_failure error then xret (Ordinary error)
      else
        xbind (running index Compensating) (\<lambda>_.
        xbind (stop_new_container ops operation new_container) (\<lambda>stopped.
        if old_stopped then
          xbind (restore_old_container ops operation) (\<lambda>restarted.
          xret (Replacement_Failure error (OldStopped stopped restarted)))
        else case stopped of
            Some attempt \<Rightarrow> xret (Replacement_Failure error (OldUntouched attempt))
          | None \<Rightarrow> xret (Ordinary error))))"

definition stop_old_first ::
  "'w machine_operations \<Rightarrow> nat \<Rightarrow> replacement_operation \<Rightarrow> ('w, bool) execute" where
  "stop_old_first ops index operation =
     xbind (xworld (call_inspect_container ops (rep_machine_id operation) (rep_old_container_id operation))) (\<lambda>r.
     let continue_with = (\<lambda>active.
       if active then
         xbind (running index StoppingContainer) (\<lambda>_.
         xmap (\<lambda>r. case r of
             Inr _ \<Rightarrow> Inr True
           | Inl error \<Rightarrow>
               if rpc_code error = NotFound then Inr False else Inl (machine_error Action_StopContainer error))
           (xworld (call_stop_container ops (rep_machine_id operation) (rep_old_container_id operation) None)))
       else xret (Inr False))
     in case r of
          Inr old \<Rightarrow> continue_with (is_active_runtime (co_runtime old))
        | Inl error \<Rightarrow>
            if rpc_code error = NotFound then continue_with False
            else xret (Inl (machine_error Action_InspectContainer error)))"

text \<open>The part that starts the new container; a container that started travels with the failure.\<close>

definition start_new ::
  "'w runtime \<Rightarrow> 'w machine_operations \<Rightarrow> nat \<Rightarrow> replacement_operation \<Rightarrow> namespace
     \<Rightarrow> ('w execution, (container_id option \<times> execution_error, unit) result) exec" where
  "start_new rt ops index operation namespace =
     xbind (create_and_start rt ops index (rep_machine_id operation) ServiceContainer namespace
         (rep_spec operation) (Some (rep_old_container_id operation))) (\<lambda>r.
     case r of
       Inl error \<Rightarrow> xret (Inl (None, error))
     | Inr created \<Rightarrow>
         xmap (map_err (Pair (Some (cc_container_id created))))
           (serve rt ops index (rep_machine_id operation) (cc_container_id created) (rep_spec operation)
              (rep_skip_health_monitor operation)))"

text \<open>The part after the new container serves.\<close>

definition remove_old ::
  "'w machine_operations \<Rightarrow> nat \<Rightarrow> replacement_operation \<Rightarrow> bool \<Rightarrow> ('w, unit) execute" where
  "remove_old ops index operation stop_first =
     xtry (if \<not> stop_first
           then xbind (running index StoppingContainer) (\<lambda>_. acting_if_found Action_StopContainer
             (call_stop_container ops (rep_machine_id operation) (rep_old_container_id operation) None))
           else xret (Inr ())) (\<lambda>_.
     xbind (running index RemovingContainer) (\<lambda>_.
     xtry (acting_if_found Action_RemoveContainer
       (call_remove_container ops (rep_machine_id operation) (rep_old_container_id operation))) (\<lambda>_.
     wait_dropped ops (rep_old_container_id operation))))"

definition replace_container ::
  "'w runtime \<Rightarrow> 'w machine_operations \<Rightarrow> nat \<Rightarrow> replacement_operation \<Rightarrow> namespace
     \<Rightarrow> ('w execution, (operation_failure, unit) result) exec" where
  "replace_container rt ops index operation namespace =
     (let stop_first = (ru_order (rs_update (rep_spec operation)) = StopFirst) in
      xbind (if stop_first then stop_old_first ops index operation else xret (Inr False)) (\<lambda>r.
      case r of
        Inl error \<Rightarrow> xret (Inl (Ordinary error))
      | Inr old_stopped \<Rightarrow>
          xbind (start_new rt ops index operation namespace) (\<lambda>started.
          case started of
            Inl (new_container, error) \<Rightarrow>
              xmap Inl (compensate ops index operation old_stopped new_container error)
          | Inr _ \<Rightarrow> xmap (map_err Ordinary) (remove_old ops index operation stop_first))))"

section \<open>Hooks\<close>

definition DEFAULT_HOOK_TIMEOUT :: int where "DEFAULT_HOOK_TIMEOUT = 5 * 60 * 1000000000"

datatype hook_interruption = Interrupt_Cancelled | Interrupt_TimedOut

definition interrupt_hook ::
  "'w machine_operations \<Rightarrow> machine_id \<Rightarrow> container_id \<Rightarrow> hook_interruption
     \<Rightarrow> ('w execution, execution_error) exec" where
  "interrupt_hook ops machine_id container_id interruption =
     xbind (xworld (call_stop_container ops machine_id container_id (Some 0))) (\<lambda>r.
     let stop_error = (case r of Inl error \<Rightarrow> Some error | Inr _ \<Rightarrow> None)
     in xret (Hook_Error container_id
          (case interruption of
             Interrupt_Cancelled \<Rightarrow> Hook_Cancelled stop_error
           | Interrupt_TimedOut \<Rightarrow> Hook_TimedOut stop_error)))"

definition hook_step ::
  "'w runtime \<Rightarrow> 'w machine_operations \<Rightarrow> nat \<Rightarrow> machine_id \<Rightarrow> container_id \<Rightarrow> instant \<Rightarrow> int \<Rightarrow> unit
     \<Rightarrow> ('w execution, unit + (execution_error, unit) result) exec" where
  "hook_step rt ops index machine_id container_id started timeout _ =
     (let deadline = started + timeout;
          interrupted = (\<lambda>interruption.
            xmap (\<lambda>error. Inr (Inl error)) (interrupt_hook ops machine_id container_id interruption))
      in
      xbind (xworld (elapsed_ms rt started)) (\<lambda>elapsed.
      xbind (running index (WaitingForHook container_id elapsed (millis_u64 timeout))) (\<lambda>_.
      xbind (xworld (rt_call_before rt deadline)) (\<lambda>branch. case branch of
        Branch_Cancelled \<Rightarrow> interrupted Interrupt_Cancelled
      | Branch_Deadline \<Rightarrow> interrupted Interrupt_TimedOut
      | Branch_Ready \<Rightarrow>
          xbind (inspect ops machine_id container_id) (\<lambda>r. case r of
            Inl error \<Rightarrow> xret (Inr (Inl error))
          | Inr observed \<Rightarrow>
              (case co_runtime observed of
                 Exited code \<Rightarrow>
                   xret (Inr (if code = 0 then Inr () else Inl (Hook_Error container_id (Hook_Exit code))))
               | _ \<Rightarrow>
                   xbind (xworld (rt_now rt)) (\<lambda>now.
                   xbind (xworld (rt_sleep_before rt deadline (min (now + POLL_INTERVAL) deadline))) (\<lambda>branch.
                   case branch of
                     Branch_Cancelled \<Rightarrow> interrupted Interrupt_Cancelled
                   | Branch_Deadline \<Rightarrow> interrupted Interrupt_TimedOut
                   | Branch_Ready \<Rightarrow> xret (Inl ())))))))))"

fun remove_old_hooks :: "'w machine_operations \<Rightarrow> (machine_id \<times> container_id) list \<Rightarrow> ('w, unit) execute" where
  "remove_old_hooks ops [] = xret (Inr ())"
| "remove_old_hooks ops ((old_machine_id, old_container_id) # old_hook_containers) =
     xtry (acting_if_found Action_RemoveContainer (call_remove_container ops old_machine_id old_container_id)) (\<lambda>_.
     remove_old_hooks ops old_hook_containers)"

definition run_hook ::
  "'w runtime \<Rightarrow> 'w machine_operations \<Rightarrow> nat \<Rightarrow> machine_id \<Rightarrow> namespace \<Rightarrow> resolved_service_spec
     \<Rightarrow> (machine_id \<times> container_id) list \<Rightarrow> ('w, unit) execute" where
  "run_hook rt ops index machine_id namespace spec old_hook_containers =
     xbind (running index RemovingContainer) (\<lambda>_.
     xtry (remove_old_hooks ops old_hook_containers) (\<lambda>_.
     xtry (create_and_start rt ops index machine_id PreDeployHook namespace spec None) (\<lambda>created.
     let timeout = (case Option.bind (rs_pre_deploy spec) hook_timeout_millis of
           None \<Rightarrow> DEFAULT_HOOK_TIMEOUT | Some millis \<Rightarrow> nanos_of_millis millis)
     in
     xbind (xworld (rt_now rt)) (\<lambda>started.
     xloop (hook_step rt ops index machine_id (cc_container_id created) started timeout) ()))))"

section \<open>One operation\<close>

text \<open>The error of a preparation is tagged with its Machine.\<close>

definition tag_machine :: "machine_id \<Rightarrow> rpc_error \<Rightarrow> rpc_error" where
  "tag_machine machine_id error =
     (let details = (case rpc_details error of JObject entries \<Rightarrow> entries | _ \<Rightarrow> [])
      in error\<lparr> rpc_details := JObject (bt_insert ''machine_id'' (JString machine_id) details) \<rparr>)"

definition execute_operation ::
  "'w runtime \<Rightarrow> 'w machine_operations \<Rightarrow> nat \<Rightarrow> namespace \<Rightarrow> deploy_operation
     \<Rightarrow> ('w execution, (operation_failure, unit) result) exec" where
  "execute_operation rt ops index namespace operation =
     (let ordinary = xmap (map_err Ordinary) in
      xbind (running index Phase_Starting) (\<lambda>_.
      case operation of
        PrepareVolumes machine_id specs \<Rightarrow>
          ordinary (xmap (\<lambda>r. case r of
              Inl error \<Rightarrow> Inl (machine_error Action_PrepareVolumes (tag_machine machine_id error))
            | Inr _ \<Rightarrow> Inr ()) (xworld (call_prepare_volumes ops machine_id specs)))
      | WaitHealthy _ _ dependency \<Rightarrow> ordinary (wait_healthy rt ops index dependency)
      | RunContainer machine_id spec skip_health_monitor \<Rightarrow>
          ordinary (xmap (map_sum id (\<lambda>_. ()))
            (run_container rt ops index machine_id namespace spec skip_health_monitor))
      | StopContainer machine_id container_id purpose \<Rightarrow>
          ordinary (xbind (running index StoppingContainer) (\<lambda>_.
            xtry (acting_if_found Action_StopContainer (call_stop_container ops machine_id container_id None)) (\<lambda>_.
            if purpose = Lifecycle then wait_dropped ops container_id else xret (Inr ()))))
      | RemoveContainer machine_id container_id \<Rightarrow>
          ordinary (xbind (running index StoppingContainer) (\<lambda>_.
            xtry (acting_if_found Action_StopContainer (call_stop_container ops machine_id container_id None)) (\<lambda>_.
            xbind (running index RemovingContainer) (\<lambda>_.
            xtry (acting_if_found Action_RemoveContainer (call_remove_container ops machine_id container_id)) (\<lambda>_.
            wait_dropped ops container_id)))))
      | ReplaceContainer replacement \<Rightarrow> replace_container rt ops index replacement namespace
      | StopHook machine_id container_id \<Rightarrow>
          ordinary (xbind (running index StoppingContainer) (\<lambda>_.
            acting_if_found Action_StopContainer (call_stop_container ops machine_id container_id None)))
      | RunHook machine_id spec old_hook_containers \<Rightarrow>
          ordinary (run_hook rt ops index machine_id namespace spec old_hook_containers)
      | RemoveVolume vid \<Rightarrow>
          ordinary (xbind (running index RemovingVolume) (\<lambda>_.
            acting_if_found Action_RemoveVolume (call_remove_volume ops vid)))))"

section \<open>The sequence\<close>

type_synonym 'w outcome_exec = "('w execution, (unit fault, execution_error deploy_outcome) result) exec"

text \<open>The end of a sequence: the failed row, the outcome event, and the outcome.\<close>

definition finish_failed ::
  "nat \<Rightarrow> execution_error \<Rightarrow> execution_error deploy_outcome option \<Rightarrow> 'w outcome_exec" where
  "finish_failed index error outcome =
     xbind (xprogress (progress_fail index error)) (\<lambda>_.
     case outcome of
       None \<Rightarrow> xret (Inl Panic)
     | Some outcome \<Rightarrow> xbind (xprogress (progress_outcome outcome)) (\<lambda>_. xret (Inr outcome)))"

fun execute_from ::
  "'w runtime \<Rightarrow> 'w machine_operations \<Rightarrow> namespace \<Rightarrow> deploy_operation list \<Rightarrow> nat \<Rightarrow> deploy_operation list
     \<Rightarrow> 'w outcome_exec" where
  "execute_from rt ops namespace operations index [] =
     (let outcome = Deploy_Success operations
      in xbind (xprogress (progress_outcome outcome)) (\<lambda>_. xret (Inr outcome)))"
| "execute_from rt ops namespace operations index (operation # rest) =
     xbind (xworld (rt_is_cancelled rt)) (\<lambda>cancelled.
     if cancelled then finish_failed index Cancelled (failure_outcome_from operations index Cancelled)
     else
       xbind (execute_operation rt ops index namespace operation) (\<lambda>r. case r of
         Inr _ \<Rightarrow>
           xbind (xprogress (set_completed index)) (\<lambda>_.
           execute_from rt ops namespace operations (Suc index) rest)
       | Inl (Ordinary error) \<Rightarrow>
           finish_failed index error (failure_outcome_from operations index error)
       | Inl (Replacement_Failure error compensation) \<Rightarrow>
           finish_failed index error (replacement_failure_outcome_from operations index error compensation)))"

definition execute_operation_sequence ::
  "'w runtime \<Rightarrow> 'w machine_operations \<Rightarrow> deploy_plan \<Rightarrow> deploy_event list option \<Rightarrow> 'w
     \<Rightarrow> ((unit fault, execution_error deploy_outcome) result \<times> 'w execution) option" where
  "execute_operation_sequence rt ops plan tx w =
     (let progress = emit (progress_new (plan_pending_rows plan) tx)
      in execute_from rt (restart_tolerant rt ops) (dp_namespace (pl_preview plan)) (pl_operations plan) 0
           (pl_operations plan) \<lparr> xc_world = w, xc_progress = progress \<rparr>)"

end
