(* ===== verification/Exec_Logic.thy ===== *)
theory Exec_Logic
  imports Execution
begin

text \<open>
  Reasoning about the executor. The locale \<open>exec_relation\<close> carries a reflexive and transitive relation
  between the states before and after through every computation of the executor; it is interpreted for
  the rows that a computation may change. The result of a sequence follows by induction on the operations.
\<close>

section \<open>Relations that every step keeps\<close>

definition keeps :: "('s \<Rightarrow> 's \<Rightarrow> bool) \<Rightarrow> ('s, 'a) exec \<Rightarrow> bool" where
  "keeps R m \<longleftrightarrow> (\<forall>s a t. m s = Some (a, t) \<longrightarrow> R s t)"

lemma keepsD: "keeps R m \<Longrightarrow> m s = Some (a, t) \<Longrightarrow> R s t"
  by (auto simp: keeps_def)

text \<open>Together with a fact on the result.\<close>

definition gives :: "('s \<Rightarrow> 's \<Rightarrow> bool) \<Rightarrow> ('s, 'a) exec \<Rightarrow> ('a \<Rightarrow> bool) \<Rightarrow> bool" where
  "gives R m Q \<longleftrightarrow> (\<forall>s a t. m s = Some (a, t) \<longrightarrow> R s t \<and> Q a)"

lemma givesD: "gives R m Q \<Longrightarrow> m s = Some (a, t) \<Longrightarrow> R s t \<and> Q a"
  by (auto simp: gives_def)

locale exec_relation =
  fixes R :: "'s \<Rightarrow> 's \<Rightarrow> bool"
  assumes refl: "R s s"
    and trans: "R s t \<Longrightarrow> R t u \<Longrightarrow> R s u"
begin

lemma keeps_xret [intro!]: "keeps R (xret a)"
  by (simp add: keeps_def refl)

lemma gives_xbind:
  assumes "gives R m P" and "\<And>a. P a \<Longrightarrow> gives R (k a) Q"
  shows "gives R (xbind m k) Q"
  unfolding gives_def
proof (intro allI impI)
  fix s b u
  assume "xbind m k s = Some (b, u)"
  then obtain a t where "m s = Some (a, t)" "k a t = Some (b, u)"
    by (auto simp: xbind_eq_Some)
  then have "R s t" "R t u" "Q b"
    using givesD [OF assms(1)] givesD [OF assms(2)] by blast+
  then show "R s u \<and> Q b"
    using trans by blast
qed

lemma gives_xret [intro]: "Q a \<Longrightarrow> gives R (xret a) Q"
  by (simp add: gives_def refl)

lemma gives_after [intro]: "keeps R m \<Longrightarrow> (\<And>a. gives R (k a) Q) \<Longrightarrow> gives R (xbind m k) Q"
  by (rule gives_xbind [where P = "\<lambda>_. True"]) (simp_all add: gives_def keeps_def)

lemma keeps_xbind [intro!]: "keeps R m \<Longrightarrow> (\<And>a. keeps R (k a)) \<Longrightarrow> keeps R (xbind m k)"
  using gives_after [of m k "\<lambda>_. True"] by (simp add: gives_def keeps_def)

lemma keeps_xtry [intro!]: "keeps R m \<Longrightarrow> (\<And>a. keeps R (k a)) \<Longrightarrow> keeps R (xtry m k)"
  unfolding xtry_def by (rule keeps_xbind) (auto split: sum.split)

lemma keeps_xmap [intro!]: "keeps R m \<Longrightarrow> keeps R (xmap f m)"
  unfolding xmap_def by auto

lemma keeps_xloop [intro!]:
  assumes "\<And>st. keeps R (body st)"
  shows "keeps R (xloop body st)"
  unfolding keeps_def
proof (intro allI impI)
  fix s r t
  assume "xloop body st s = Some (r, t)"
  then show "R s t"
  proof (rule xloop_invariant [where P = "\<lambda>_ u. R s u" and Q = "\<lambda>_ u. R s u"])
    show "R s s"
      by (rule refl)
  next
    show "R s v" if "R s u" "body st u = Some (Inl st', v)" for st u st' v
      using that(1) keepsD [OF assms that(2)] by (rule trans)
  next
    show "R s v" if "R s u" "body st u = Some (Inr r, v)" for st u r v
      using that(1) keepsD [OF assms that(2)] by (rule trans)
  qed
qed

end

text \<open>A relation that the clock, the timers, the progress of a row and the calls that only observe keep;
  then the waits keep it.\<close>

locale exec_reads = exec_relation R
  for R :: "'w execution \<Rightarrow> 'w execution \<Rightarrow> bool" +
  fixes rt :: "'w runtime" and ops :: "'w machine_operations" and index :: nat
  assumes keeps_now [intro!]: "keeps R (xworld (rt_now rt))"
    and keeps_is_cancelled [intro!]: "keeps R (xworld (rt_is_cancelled rt))"
    and keeps_sleep [intro!]: "keeps R (xworld (rt_sleep rt wake))"
    and keeps_elapsed [intro!]: "keeps R (xworld (elapsed_ms rt started))"
    and keeps_running [intro!]: "keeps R (running index phase)"
    and keeps_inspect_call [intro!]: "keeps R (xworld (call_inspect_container ops machine_id container_id))"
    and keeps_list_call [intro!]: "keeps R (xworld (call_service_containers ops service))"
    and keeps_wait_call [intro!]: "keeps R (xworld (call_wait_for_container_observations ops ids condition token))"
begin

lemma keeps_set_running [intro!]: "keeps R (xprogress (set_running index phase))"
  using keeps_running by (simp add: running_def)

lemma keeps_inspect [intro!]: "keeps R (inspect ops machine_id container_id)"
  unfolding inspect_def by auto

lemma keeps_wait_healthy [intro!]: "keeps R (wait_healthy rt ops index dependency)"
  unfolding wait_healthy_def wait_healthy_step_def Let_def by (auto split: sum.split option.split)

lemma keeps_monitor [intro!]: "keeps R (monitor_container rt ops index machine_id container_id spec)"
  unfolding monitor_container_def monitor_step_def window_step_def Let_def
  by (auto split: sum.split health_poll.split)

lemma keeps_wait_serving [intro!]: "keeps R (wait_serving ops container_id token)"
  unfolding wait_serving_def acting_def by auto

lemma keeps_wait_dropped [intro!]: "keeps R (wait_dropped ops container_id)"
  unfolding wait_dropped_def acting_def by auto

lemma keeps_serve [intro!]: "keeps R (serve rt ops index machine_id container_id spec skip)"
  unfolding serve_def by auto

end

text \<open>A relation that all calls but the creation of a container keep.\<close>

locale exec_writes = exec_reads R rt ops index
  for R :: "'w execution \<Rightarrow> 'w execution \<Rightarrow> bool" and rt ops index +
  assumes keeps_display_name [intro!]: "keeps R (xprogress (set_display_name index display_name))"
    and keeps_sleep_before [intro!]: "keeps R (xworld (rt_sleep_before rt deadline wake))"
    and keeps_call_before [intro!]: "keeps R (xworld (rt_call_before rt deadline))"
    and keeps_prepare_call [intro!]: "keeps R (xworld (call_prepare_volumes ops machine_id specs))"
    and keeps_start_call [intro!]: "keeps R (xworld (call_start_container ops machine_id container_id))"
    and keeps_stop_call [intro!]: "keeps R (xworld (call_stop_container ops machine_id container_id grace))"
    and keeps_remove_call [intro!]: "keeps R (xworld (call_remove_container ops machine_id container_id))"
    and keeps_remove_volume_call [intro!]: "keeps R (xworld (call_remove_volume ops volume_id))"
begin

lemma keeps_discard_created [intro!]: "keeps R (discard_created ops machine_id kind spec container_id)"
  unfolding discard_created_def by auto

lemma keeps_acting_if_found [intro!]:
  "keeps R (xworld call) \<Longrightarrow> keeps R (acting_if_found action call)"
  unfolding acting_if_found_def by auto

lemma keeps_compensate [intro!]:
  "keeps R (compensate ops index operation old_stopped new_container error)"
  unfolding compensate_def stop_new_container_def restore_old_container_def acting_def
  by (auto split: option.split)

lemma keeps_stop_old_first [intro!]: "keeps R (stop_old_first ops index operation)"
  unfolding stop_old_first_def Let_def by (auto split: sum.split)

lemma keeps_remove_old [intro!]: "keeps R (remove_old ops index operation stop_first)"
  unfolding remove_old_def by auto

lemma keeps_remove_old_hooks [intro!]: "keeps R (remove_old_hooks ops hooks)"
  by (induction hooks) (auto simp: remove_old_hooks.simps split_paired_all)

lemma keeps_hook_step [intro!]:
  "keeps R (hook_step rt ops index machine_id container_id started timeout st)"
  unfolding hook_step_def interrupt_hook_def Let_def
  by (auto split: sum.split select_branch.split container_runtime_observation.split)

end

text \<open>A relation that all calls keep; then the whole executor keeps it.\<close>

locale exec_steps = exec_writes R rt ops index
  for R :: "'w execution \<Rightarrow> 'w execution \<Rightarrow> bool" and rt ops index +
  assumes keeps_create_call [intro!]:
    "keeps R (xworld (call_create_container ops machine_id kind namespace spec replacing))"
begin

lemma keeps_create_and_start [intro!]:
  "keeps R (create_and_start rt ops index machine_id kind namespace spec replacing)"
  unfolding create_and_start_def by (auto split: sum.split)

lemma keeps_replace_container [intro!]:
  "keeps R (replace_container rt ops index operation namespace)"
  unfolding replace_container_def start_new_def Let_def by (auto split: sum.split)

lemma keeps_run_hook [intro!]:
  "keeps R (run_hook rt ops index machine_id namespace spec old_hook_containers)"
  unfolding run_hook_def Let_def by auto

lemma keeps_execute_operation [intro!]: "keeps R (execute_operation rt ops index namespace operation)"
  unfolding execute_operation_def run_container_def Let_def by (auto split: deploy_operation.split)

end

section \<open>Rows and events\<close>

text \<open>A computation for the operation \<open>index\<close> changes no other row, and sends events only.\<close>

definition touches :: "nat \<Rightarrow> 'w execution \<Rightarrow> 'w execution \<Rightarrow> bool" where
  "touches index s t \<longleftrightarrow>
     length (pg_rows (xc_progress t)) = length (pg_rows (xc_progress s))
     \<and> map row_operation (pg_rows (xc_progress t)) = map row_operation (pg_rows (xc_progress s))
     \<and> (\<forall>j. j \<noteq> index \<longrightarrow> pg_rows (xc_progress t) ! j = pg_rows (xc_progress s) ! j)
     \<and> (\<exists>sent. pg_tx (xc_progress t) = map_option (\<lambda>events. events @ sent) (pg_tx (xc_progress s)))"

interpretation touches: exec_relation "touches index" for index
proof
  show "touches index s s" for s :: "'w execution"
    by (auto simp: touches_def intro!: exI [of _ "[]"] simp: option.map_ident)
next
  show "touches index s u" if st: "touches index s t" "touches index t u" for s t u :: "'w execution"
  proof -
    obtain sent sent' where "pg_tx (xc_progress t) = map_option (\<lambda>events. events @ sent) (pg_tx (xc_progress s))"
      "pg_tx (xc_progress u) = map_option (\<lambda>events. events @ sent') (pg_tx (xc_progress t))"
      using st unfolding touches_def by blast
    then have "pg_tx (xc_progress u) = map_option (\<lambda>events. events @ (sent @ sent')) (pg_tx (xc_progress s))"
      by (simp add: option.map_comp o_def)
    then show ?thesis
      using st unfolding touches_def by (intro conjI exI [of _ "sent @ sent'"]) simp_all
  qed
qed

lemma pg_rows_simps [simp]:
  "pg_rows (send_event e p) = pg_rows p" "pg_rows (emit p) = pg_rows p"
  "pg_rows (progress_outcome o' p) = pg_rows p"
  "pg_rows (update_row i f p) = (if i < length (pg_rows p) then (pg_rows p)[i := f (pg_rows p ! i)] else pg_rows p)"
  by (simp_all add: send_event_def emit_def progress_outcome_def update_row_def)

lemma pg_tx_update_row [simp]: "pg_tx (update_row i f p) = pg_tx p"
  by (simp add: update_row_def)

lemma keeps_touches_xworld [intro!]: "keeps (touches index) (xworld m)"
proof -
  have "touches index s (s\<lparr> xc_world := w \<rparr>)" for s :: "'w execution" and w
    by (auto simp: touches_def intro!: exI [of _ "[]"] simp: option.map_ident)
  then show ?thesis
    by (auto simp: keeps_def xworld_eq_Some)
qed

lemma keeps_touches_running [intro!]: "keeps (touches index) (running index phase)"
proof -
  have "touches index s (s\<lparr> xc_progress := set_running index phase (xc_progress s) \<rparr>)" for s :: "'w execution"
    by (auto simp: touches_def set_running_def emit_def send_event_def map_update list_update_same_conv)
  then show ?thesis
    by (auto simp: keeps_def running_def xprogress_eq_Some)
qed

lemma keeps_touches_display_name [intro!]:
  "keeps (touches index) (xprogress (set_display_name index display_name))"
proof -
  have "touches index s (s\<lparr> xc_progress := set_display_name index display_name (xc_progress s) \<rparr>)" for s :: "'w execution"
    by (auto simp: touches_def set_display_name_def map_update list_update_same_conv option.map_ident
        intro!: exI [of _ "[]"])
  then show ?thesis
    by (auto simp: keeps_def xprogress_eq_Some)
qed

interpretation rows: exec_steps "touches index" rt ops index for rt ops index
  by unfold_locales auto

section \<open>The outcome of a sequence\<close>

fun failed_operation_of :: "'e failed_operation \<Rightarrow> deploy_operation" where
  "failed_operation_of (Failed_Operation operation _) = operation"
| "failed_operation_of (Failed_Replacement replacement _ _) = ReplaceContainer replacement"

fun failed_error :: "'e failed_operation \<Rightarrow> 'e" where
  "failed_error (Failed_Operation _ error) = error"
| "failed_error (Failed_Replacement _ error _) = error"

text \<open>The operations of an outcome in order, and the statuses of the rows that agree with it.\<close>

fun outcome_operations :: "'e deploy_outcome \<Rightarrow> deploy_operation list" where
  "outcome_operations (Deploy_Success completed) = completed"
| "outcome_operations (Deploy_Failed completed failed unexecuted) =
     completed @ failed_operation_of failed # unexecuted"

fun outcome_statuses :: "execution_error deploy_outcome \<Rightarrow> operation_status list" where
  "outcome_statuses (Deploy_Success completed) = map (\<lambda>_. Row_Completed) completed"
| "outcome_statuses (Deploy_Failed completed failed unexecuted) =
     map (\<lambda>_. Row_Completed) completed @ Row_Failed (failed_error failed) # map (\<lambda>_. Row_Unexecuted) unexecuted"

lemma failure_outcome_from_at:
  "failure_outcome_from (prior @ operation # rest) (length prior) error
     = Some (Deploy_Failed prior (Failed_Operation operation error) rest)"
  by (simp add: failure_outcome_from_def get_to_def get_from_def split_first_def)

lemma replacement_failure_outcome_from_at:
  "replacement_failure_outcome_from (prior @ ReplaceContainer replacement # rest) (length prior) error compensation
     = Some (Deploy_Failed prior (Failed_Replacement replacement error compensation) rest)"
  by (simp add: replacement_failure_outcome_from_def get_to_def get_from_def split_first_def)

text \<open>Only a replacement fails with a compensation.\<close>

lemma execute_operation_replacement:
  assumes "execute_operation rt ops index namespace operation s = Some (Inl (Replacement_Failure error compensation), t)"
  shows "\<exists>replacement. operation = ReplaceContainer replacement"
proof -
  have "map_err Ordinary a \<noteq> Inl (Replacement_Failure error compensation)" for a :: "(execution_error, unit) result"
    by (cases a) auto
  from this [symmetric] assms show ?thesis
    by (cases operation) (auto simp: execute_operation_def exec_simps)
qed

text \<open>The rows while the operation after \<open>prior\<close> is next or runs.\<close>

definition rows_at :: "deploy_operation list \<Rightarrow> deploy_operation list \<Rightarrow> progress \<Rightarrow> bool" where
  "rows_at prior rest progress \<longleftrightarrow>
     map row_operation (pg_rows progress) = prior @ rest
     \<and> (\<forall>j < length prior. row_status (pg_rows progress ! j) = Row_Completed)
     \<and> (\<forall>j. length prior < j \<and> j < length (pg_rows progress) \<longrightarrow> row_status (pg_rows progress ! j) \<noteq> Row_Completed)"

lemma rows_at_length: "rows_at prior rest progress \<Longrightarrow> length (pg_rows progress) = length prior + length rest"
  by (metis rows_at_def length_append length_map)

lemma rows_at_touches:
  assumes "rows_at prior rest (xc_progress s)" and "touches (length prior) s t"
  shows "rows_at prior rest (xc_progress t)"
  using assms unfolding rows_at_def touches_def by auto

lemma rows_at_completed:
  assumes "rows_at prior (operation # rest) progress"
  shows "rows_at (prior @ [operation]) rest (set_completed (length prior) progress)"
proof -
  have "map row_operation (pg_rows progress) ! length prior = operation"
    using assms by (simp add: rows_at_def)
  then have "row_operation (pg_rows progress ! length prior) = operation"
    using rows_at_length [OF assms] by simp
  then show ?thesis
    using assms rows_at_length [OF assms]
    by (auto simp: rows_at_def set_completed_def map_update list_update_same_conv nth_list_update nth_append less_Suc_eq)
qed

lemma progress_fail_rows:
  "pg_rows (progress_fail index error progress) = map (\<lambda>(candidate, row).
     if candidate = index then row\<lparr> row_status := Row_Failed error \<rparr>
     else if row_status row \<noteq> Row_Completed then row\<lparr> row_status := Row_Unexecuted \<rparr> else row)
     (enumerate 0 (pg_rows progress))"
proof (rule nth_equalityI)
  show "length (pg_rows (progress_fail index error progress)) = length (map (\<lambda>(candidate, row).
     if candidate = index then row\<lparr> row_status := Row_Failed error \<rparr>
     else if row_status row \<noteq> Row_Completed then row\<lparr> row_status := Row_Unexecuted \<rparr> else row)
     (enumerate 0 (pg_rows progress)))"
    by (simp add: progress_fail_def)
qed (auto simp: progress_fail_def nth_enumerate_eq nth_list_update split: if_splits)

lemma rows_at_failed:
  assumes "rows_at prior (operation # rest) progress"
  shows "map row_status (pg_rows (progress_fail (length prior) error progress)) =
      map (\<lambda>_. Row_Completed) prior @ Row_Failed error # map (\<lambda>_. Row_Unexecuted) rest"
    and "map row_operation (pg_rows (progress_fail (length prior) error progress)) = prior @ operation # rest"
proof -
  note len = rows_at_length [OF assms]
  show "map row_status (pg_rows (progress_fail (length prior) error progress)) =
      map (\<lambda>_. Row_Completed) prior @ Row_Failed error # map (\<lambda>_. Row_Unexecuted) rest"
  proof (rule nth_equalityI)
    fix j
    assume "j < length (map row_status (pg_rows (progress_fail (length prior) error progress)))"
    then have j: "j < length prior + Suc (length rest)"
      using len by (simp add: progress_fail_rows)
    consider "j < length prior" | "j = length prior" | "length prior < j"
      by linarith
    then show "map row_status (pg_rows (progress_fail (length prior) error progress)) ! j =
        (map (\<lambda>_. Row_Completed) prior @ Row_Failed error # map (\<lambda>_. Row_Unexecuted) rest) ! j"
      using j len assms
      by cases (auto simp: progress_fail_rows nth_enumerate_eq rows_at_def nth_append nth_Cons')
  qed (use len in \<open>simp add: progress_fail_rows\<close>)
  have "map row_operation (pg_rows (progress_fail (length prior) error progress)) = map row_operation (pg_rows progress)"
    by (rule nth_equalityI) (auto simp: progress_fail_rows nth_enumerate_eq)
  then show "map row_operation (pg_rows (progress_fail (length prior) error progress)) = prior @ operation # rest"
    using assms by (simp add: rows_at_def)
qed

text \<open>What the end of a sequence guarantees.\<close>

definition sequence_result ::
  "deploy_operation list \<Rightarrow> 'w execution \<Rightarrow> (unit fault, execution_error deploy_outcome) result \<Rightarrow> 'w execution \<Rightarrow> bool" where
  "sequence_result operations s r t \<longleftrightarrow>
     (\<exists>outcome sent. r = Inr outcome \<and> outcome_operations outcome = operations
        \<and> map row_operation (pg_rows (xc_progress t)) = operations
        \<and> map row_status (pg_rows (xc_progress t)) = outcome_statuses outcome
        \<and> pg_tx (xc_progress t) = map_option (\<lambda>events. events @ sent @ [Event_Outcome outcome]) (pg_tx (xc_progress s)))"

lemma sequence_result_touches:
  assumes "touches index s s'" and "sequence_result operations s' r t"
  shows "sequence_result operations s r t"
proof -
  obtain sent where "pg_tx (xc_progress s') = map_option (\<lambda>events. events @ sent) (pg_tx (xc_progress s))"
    using assms(1) unfolding touches_def by blast
  moreover obtain outcome sent' where "r = Inr outcome" "outcome_operations outcome = operations"
    "map row_operation (pg_rows (xc_progress t)) = operations"
    "map row_status (pg_rows (xc_progress t)) = outcome_statuses outcome"
    "pg_tx (xc_progress t) = map_option (\<lambda>events. events @ sent' @ [Event_Outcome outcome]) (pg_tx (xc_progress s'))"
    using assms(2) unfolding sequence_result_def by blast
  ultimately show ?thesis
    unfolding sequence_result_def
    by (intro exI [of _ outcome] exI [of _ "sent @ sent'"]) (simp add: option.map_comp o_def)
qed

lemma finish_failed_result:
  assumes "finish_failed (length prior) error (Some (Deploy_Failed prior failed rest)) s = Some (r, t)"
    and "rows_at prior (operation # rest) (xc_progress s)"
    and "failed_operation_of failed = operation" and "failed_error failed = error"
  shows "sequence_result (prior @ operation # rest) s r t"
proof -
  let ?outcome = "Deploy_Failed prior failed rest"
  let ?p = "progress_fail (length prior) error (xc_progress s)"
  have t: "r = Inr ?outcome" "xc_progress t = progress_outcome ?outcome ?p"
    using assms(1) by (auto simp: finish_failed_def exec_simps xprogress_eq_Some)
  obtain event where "pg_tx ?p = map_option (\<lambda>events. events @ [event]) (pg_tx (xc_progress s))"
    by (simp add: progress_fail_def emit_def send_event_def Let_def)
  then have "pg_tx (xc_progress t) = map_option (\<lambda>events. events @ [event] @ [Event_Outcome ?outcome]) (pg_tx (xc_progress s))"
    by (simp add: t(2) progress_outcome_def send_event_def option.map_comp o_def)
  then show ?thesis
    using t rows_at_failed [OF assms(2), of error] assms(3,4) unfolding sequence_result_def
    by (intro exI [of _ ?outcome] exI [of _ "[event]"]) simp
qed

lemma execute_from_result:
  assumes "execute_from rt ops namespace (prior @ rest) (length prior) rest s = Some (r, t)"
    and "rows_at prior rest (xc_progress s)"
  shows "sequence_result (prior @ rest) s r t"
  using assms
proof (induction rest arbitrary: prior s)
  case Nil
  have "map row_status (pg_rows (xc_progress s)) = map (\<lambda>_. Row_Completed) prior"
    using Nil.prems(2) rows_at_length [OF Nil.prems(2)] by (auto simp: rows_at_def intro!: nth_equalityI)
  with Nil show ?case
    by (auto simp: exec_simps xprogress_eq_Some sequence_result_def rows_at_def progress_outcome_def send_event_def Let_def
        intro!: exI [of _ "[]"])
next
  case (Cons operation rest)
  let ?operations = "prior @ operation # rest"
  obtain cancelled s1 where s1: "xworld (rt_is_cancelled rt) s = Some (cancelled, s1)"
    and rest: "(if cancelled then finish_failed (length prior) Cancelled (failure_outcome_from ?operations (length prior) Cancelled)
     else
       xbind (execute_operation rt ops (length prior) namespace operation) (\<lambda>r. case r of
         Inr _ \<Rightarrow>
           xbind (xprogress (set_completed (length prior))) (\<lambda>_.
           execute_from rt ops namespace ?operations (Suc (length prior)) rest)
       | Inl (Ordinary error) \<Rightarrow>
           finish_failed (length prior) error (failure_outcome_from ?operations (length prior) error)
       | Inl (Replacement_Failure error compensation) \<Rightarrow>
           finish_failed (length prior) error
             (replacement_failure_outcome_from ?operations (length prior) error compensation))) s1 = Some (r, t)"
    using Cons.prems(1) by (auto simp: xbind_eq_Some)
  have t1: "touches (length prior) s s1"
    using s1 by (rule keepsD [OF keeps_touches_xworld])
  have rows1: "rows_at prior (operation # rest) (xc_progress s1)"
    using Cons.prems(2) t1 by (rule rows_at_touches)
  show ?case
  proof (cases cancelled)
    case True
    then have "finish_failed (length prior) Cancelled (Some (Deploy_Failed prior (Failed_Operation operation Cancelled) rest)) s1
        = Some (r, t)"
      using rest by (simp add: failure_outcome_from_at)
    from finish_failed_result [OF this rows1] show ?thesis
      by (intro sequence_result_touches [OF t1]) simp
  next
    case False
    then obtain q s2 where q: "execute_operation rt ops (length prior) namespace operation s1 = Some (q, s2)"
      and rest: "(case q of
         Inr _ \<Rightarrow>
           xbind (xprogress (set_completed (length prior))) (\<lambda>_.
           execute_from rt ops namespace ?operations (Suc (length prior)) rest)
       | Inl (Ordinary error) \<Rightarrow>
           finish_failed (length prior) error (failure_outcome_from ?operations (length prior) error)
       | Inl (Replacement_Failure error compensation) \<Rightarrow>
           finish_failed (length prior) error
             (replacement_failure_outcome_from ?operations (length prior) error compensation)) s2 = Some (r, t)"
      using rest by (auto simp: xbind_eq_Some)
    have "touches (length prior) s1 s2"
      using q by (rule keepsD [OF rows.keeps_execute_operation])
    then have t2: "touches (length prior) s s2" and rows2: "rows_at prior (operation # rest) (xc_progress s2)"
      using t1 rows1 touches.trans rows_at_touches by blast+
    show ?thesis
    proof (cases q)
      case (Inr u)
      define s3 where "s3 = s2\<lparr> xc_progress := set_completed (length prior) (xc_progress s2) \<rparr>"
      have run: "execute_from rt ops namespace ((prior @ [operation]) @ rest) (length (prior @ [operation])) rest s3 = Some (r, t)"
        using rest Inr by (auto simp: xbind_eq_Some xprogress_eq_Some s3_def)
      have "rows_at (prior @ [operation]) rest (xc_progress s3)"
        using rows_at_completed [OF rows2] by (simp add: s3_def)
      from Cons.IH [OF run this] have result: "sequence_result ?operations s3 r t"
        by simp
      have "touches (length prior) s2 s3"
        by (auto simp: s3_def touches_def set_completed_def emit_def send_event_def map_update list_update_same_conv)
      with t2 have "touches (length prior) s s3"
        by (rule touches.trans)
      then show ?thesis
        using result by (rule sequence_result_touches)
    next
      case (Inl failure)
      show ?thesis
      proof (cases failure)
        case (Ordinary error)
        then have "finish_failed (length prior) error (Some (Deploy_Failed prior (Failed_Operation operation error) rest)) s2
            = Some (r, t)"
          using rest Inl by (simp add: failure_outcome_from_at)
        from finish_failed_result [OF this rows2] show ?thesis
          by (intro sequence_result_touches [OF t2]) simp
      next
        case (Replacement_Failure error compensation)
        then obtain replacement where replacement: "operation = ReplaceContainer replacement"
          using execute_operation_replacement q Inl by blast
        then have "finish_failed (length prior) error
            (Some (Deploy_Failed prior (Failed_Replacement replacement error compensation) rest)) s2 = Some (r, t)"
          using rest Inl Replacement_Failure by (simp add: replacement_failure_outcome_from_at)
        from finish_failed_result [OF this rows2] replacement show ?thesis
          by (intro sequence_result_touches [OF t2]) simp
      qed
    qed
  qed
qed

end
