(* ===== verification/Exec_Trace.thy ===== *)
theory Exec_Trace
  imports Exec_Logic
begin

text \<open>
  The calls that an execution makes, in order. \<open>traced_operations\<close> adds to any client a log of the calls
  and of their results; the executor runs on it unchanged. The lemmas say which calls the parts of the
  executor make.
\<close>

section \<open>The log\<close>

datatype machine_call =
    Called_Prepare machine_id "service_storage_spec list" bool
  | Called_Wait "container_id list" container_observation_condition cancellation_token bool
  | Called_List qualified_service "container_observation list option"
  | Called_Create machine_id container_kind namespace resolved_service_spec "container_id option" "container_id option"
  | Called_Start machine_id container_id bool
  | Called_Inspect machine_id container_id "container_observation option"
  | Called_Stop machine_id container_id bool
  | Called_Remove machine_id container_id bool
  | Called_RemoveVolume docker_volume_id bool

type_synonym 'w traced = "'w \<times> machine_call list"

definition ok_value :: "('e, 'a) result \<Rightarrow> 'a option" where
  "ok_value r = (case r of Inl _ \<Rightarrow> None | Inr a \<Rightarrow> Some a)"

definition traced_call ::
  "((rpc_error, 'a) result \<Rightarrow> machine_call) \<Rightarrow> ('w, 'a) rpc_call \<Rightarrow> ('w traced, 'a) rpc_call" where
  "traced_call entry call w =
     (case call (fst w) of None \<Rightarrow> None | Some (r, w') \<Rightarrow> Some (r, (w', snd w @ [entry r])))"

definition untraced :: "('w, 'a) exec \<Rightarrow> ('w traced, 'a) exec" where
  "untraced m w = (case m (fst w) of None \<Rightarrow> None | Some (a, w') \<Rightarrow> Some (a, (w', snd w)))"

definition traced_operations :: "'w machine_operations \<Rightarrow> 'w traced machine_operations" where
  "traced_operations ops =
     \<lparr> call_prepare_volumes = (\<lambda>machine_id specs.
         traced_call (\<lambda>r. Called_Prepare machine_id specs (is_ok r)) (call_prepare_volumes ops machine_id specs)),
       call_wait_for_container_observations = (\<lambda>ids condition token.
         traced_call (\<lambda>r. Called_Wait ids condition token (is_ok r))
           (call_wait_for_container_observations ops ids condition token)),
       call_service_containers = (\<lambda>service.
         traced_call (\<lambda>r. Called_List service (ok_value r)) (call_service_containers ops service)),
       call_create_container = (\<lambda>machine_id kind namespace spec replacing.
         traced_call (\<lambda>r. Called_Create machine_id kind namespace spec replacing (map_option cc_container_id (ok_value r)))
           (call_create_container ops machine_id kind namespace spec replacing)),
       call_start_container = (\<lambda>machine_id container_id.
         traced_call (\<lambda>r. Called_Start machine_id container_id (is_ok r)) (call_start_container ops machine_id container_id)),
       call_inspect_container = (\<lambda>machine_id container_id.
         traced_call (\<lambda>r. Called_Inspect machine_id container_id (ok_value r))
           (call_inspect_container ops machine_id container_id)),
       call_stop_container = (\<lambda>machine_id container_id grace.
         traced_call (\<lambda>r. Called_Stop machine_id container_id (is_ok r))
           (call_stop_container ops machine_id container_id grace)),
       call_remove_container = (\<lambda>machine_id container_id.
         traced_call (\<lambda>r. Called_Remove machine_id container_id (is_ok r))
           (call_remove_container ops machine_id container_id)),
       call_remove_volume = (\<lambda>volume_id.
         traced_call (\<lambda>r. Called_RemoveVolume volume_id (is_ok r)) (call_remove_volume ops volume_id)) \<rparr>"

definition traced_runtime :: "'w runtime \<Rightarrow> 'w traced runtime" where
  "traced_runtime rt =
     \<lparr> rt_now = untraced (rt_now rt),
       rt_is_cancelled = untraced (rt_is_cancelled rt),
       rt_sleep = (\<lambda>wake. untraced (rt_sleep rt wake)),
       rt_sleep_before = (\<lambda>deadline wake. untraced (rt_sleep_before rt deadline wake)),
       rt_call_before = (\<lambda>deadline. untraced (rt_call_before rt deadline)) \<rparr>"

text \<open>The client that the executor uses, with a log of the calls that reach the Machines.\<close>

abbreviation traced_client :: "'w runtime \<Rightarrow> 'w machine_operations \<Rightarrow> 'w traced machine_operations" where
  "traced_client rt ops \<equiv> restart_tolerant (traced_runtime rt) (traced_operations ops)"

abbreviation calls :: "'w traced execution \<Rightarrow> machine_call list" where
  "calls s \<equiv> snd (xc_world s)"

section \<open>Computations that only make certain calls\<close>

text \<open>\<open>logs P\<close>: the calls between the two states all satisfy \<open>P\<close>.\<close>

definition world_logs :: "(machine_call \<Rightarrow> bool) \<Rightarrow> 'w traced \<Rightarrow> 'w traced \<Rightarrow> bool" where
  "world_logs P w w' \<longleftrightarrow> (\<exists>made. snd w' = snd w @ made \<and> (\<forall>call \<in> set made. P call))"

abbreviation logs :: "(machine_call \<Rightarrow> bool) \<Rightarrow> 'w traced execution \<Rightarrow> 'w traced execution \<Rightarrow> bool" where
  "logs P s t \<equiv> world_logs P (xc_world s) (xc_world t)"

lemma world_logs_refl: "world_logs P w w"
  by (simp add: world_logs_def)

lemma world_logs_trans: "world_logs P w w' \<Longrightarrow> world_logs P w' w'' \<Longrightarrow> world_logs P w w''"
  unfolding world_logs_def by (metis Un_iff append_assoc set_append)

interpretation world_logs: exec_relation "world_logs P" for P
  by unfold_locales (rule world_logs_refl, erule (1) world_logs_trans)

interpretation logs: exec_relation "logs P" for P
  by unfold_locales (rule world_logs_refl, erule (1) world_logs_trans)

lemma world_logs_mono: "world_logs P w w' \<Longrightarrow> (\<And>call. P call \<Longrightarrow> Q call) \<Longrightarrow> world_logs Q w w'"
  unfolding world_logs_def by blast

lemma keeps_logs_xworld: "keeps (world_logs P) m \<Longrightarrow> keeps (logs P) (xworld m)"
  by (auto simp: keeps_def xworld_eq_Some simp del: split_paired_All)

lemma keeps_traced_call: "(\<And>r. P (entry r)) \<Longrightarrow> keeps (world_logs P) (traced_call entry call)"
  by (auto simp: keeps_def traced_call_def world_logs_def split: option.splits)

lemma keeps_untraced [intro!]: "keeps (world_logs P) (untraced m)"
  by (auto simp: keeps_def untraced_def world_logs_def split: option.splits)

lemma keeps_traced_runtime [intro!]:
  "keeps (world_logs P) (rt_now (traced_runtime rt))"
  "keeps (world_logs P) (rt_is_cancelled (traced_runtime rt))"
  "keeps (world_logs P) (rt_sleep (traced_runtime rt) wake)"
  "keeps (world_logs P) (rt_sleep_before (traced_runtime rt) deadline wake)"
  "keeps (world_logs P) (rt_call_before (traced_runtime rt) deadline)"
  by (simp_all add: traced_runtime_def keeps_untraced)

lemma keeps_traced_elapsed [intro!]: "keeps (world_logs P) (elapsed_ms (traced_runtime rt) started)"
  unfolding elapsed_ms_def by auto

lemma keeps_logs_xprogress [intro!]: "keeps (logs P) (xprogress f)"
  by (auto simp: keeps_def xprogress_eq_Some world_logs_refl)

lemma keeps_logs_running [intro!]: "keeps (logs P) (running index phase)"
  unfolding running_def by auto

text \<open>A repeated call makes the calls of its attempts.\<close>

lemma keeps_wait_out_restart:
  "keeps (world_logs P) op \<Longrightarrow> keeps (world_logs P) (wait_out_restart (traced_runtime rt) op)"
  unfolding wait_out_restart_def restart_step_def by (auto split: sum.split)

section \<open>The calls of the client\<close>

text \<open>Which calls each operation of the client makes.\<close>

lemma client_call_logs:
  "(\<And>ok. P (Called_Prepare machine_id specs ok)) \<Longrightarrow>
     keeps (world_logs P) (call_prepare_volumes (traced_client rt ops) machine_id specs)"
  "(\<And>ok. P (Called_Wait ids condition token ok)) \<Longrightarrow>
     keeps (world_logs P) (call_wait_for_container_observations (traced_client rt ops) ids condition token)"
  "(\<And>listed. P (Called_List service listed)) \<Longrightarrow>
     keeps (world_logs P) (call_service_containers (traced_client rt ops) service)"
  "(\<And>created. P (Called_Create machine_id kind namespace spec replacing created)) \<Longrightarrow>
     keeps (world_logs P) (call_create_container (traced_client rt ops) machine_id kind namespace spec replacing)"
  "(\<And>ok. P (Called_Start machine_id container_id ok)) \<Longrightarrow>
     keeps (world_logs P) (call_start_container (traced_client rt ops) machine_id container_id)"
  "(\<And>observed. P (Called_Inspect machine_id container_id observed)) \<Longrightarrow>
     keeps (world_logs P) (call_inspect_container (traced_client rt ops) machine_id container_id)"
  "(\<And>ok. P (Called_Stop machine_id container_id ok)) \<Longrightarrow>
     keeps (world_logs P) (call_stop_container (traced_client rt ops) machine_id container_id grace)"
  "(\<And>ok. P (Called_Remove machine_id container_id ok)) \<Longrightarrow>
     keeps (world_logs P) (call_remove_container (traced_client rt ops) machine_id container_id)"
  "(\<And>ok. P (Called_RemoveVolume volume_id ok)) \<Longrightarrow>
     keeps (world_logs P) (call_remove_volume (traced_client rt ops) volume_id)"
  by (auto simp: restart_tolerant_def traced_operations_def intro!: keeps_wait_out_restart keeps_traced_call)

fun observing :: "machine_call \<Rightarrow> bool" where
  "observing (Called_Inspect _ _ _) \<longleftrightarrow> True"
| "observing (Called_List _ _) \<longleftrightarrow> True"
| "observing (Called_Wait _ _ _ _) \<longleftrightarrow> True"
| "observing _ \<longleftrightarrow> False"

text \<open>The waits only observe.\<close>

interpretation reads: exec_reads "logs observing" "traced_runtime rt" "traced_client rt ops" index for rt ops index
  by unfold_locales (auto intro!: keeps_logs_xworld client_call_logs)

section \<open>Creations\<close>

fun is_creation :: "machine_call \<Rightarrow> bool" where
  "is_creation (Called_Create _ _ _ _ _ _) \<longleftrightarrow> True"
| "is_creation _ \<longleftrightarrow> False"

interpretation uncreating: exec_writes "logs (\<lambda>call. \<not> is_creation call)" "traced_runtime rt" "traced_client rt ops" index
  for rt ops index
  by unfold_locales (auto intro!: keeps_logs_xworld client_call_logs)

definition creations :: "'w traced execution \<Rightarrow> nat" where
  "creations s = length (filter is_creation (calls s))"

definition creates_at_most :: "nat \<Rightarrow> ('w traced execution, 'a) exec \<Rightarrow> bool" where
  "creates_at_most n m \<longleftrightarrow> (\<forall>s a t. m s = Some (a, t) \<longrightarrow> creations t \<le> creations s + n)"

lemma creates_none: "keeps (logs (\<lambda>call. \<not> is_creation call)) m \<Longrightarrow> creates_at_most n m"
  unfolding creates_at_most_def creations_def keeps_def world_logs_def
  by (fastforce simp: filter_empty_conv)

lemma creates_xbind:
  assumes "creates_at_most n m" and "\<And>a. creates_at_most k (f a)"
  shows "creates_at_most (n + k) (xbind m f)"
  unfolding creates_at_most_def
proof (intro allI impI)
  fix s b u
  assume "xbind m f s = Some (b, u)"
  then obtain a t where "m s = Some (a, t)" "f a t = Some (b, u)"
    by (auto simp: xbind_eq_Some)
  then have "creations t \<le> creations s + n" "creations u \<le> creations t + k"
    using assms unfolding creates_at_most_def by blast+
  then show "creations u \<le> creations s + (n + k)"
    by simp
qed

lemma creates_first:
  "creates_at_most 1 m \<Longrightarrow> (\<And>a. keeps (logs (\<lambda>call. \<not> is_creation call)) (f a)) \<Longrightarrow> creates_at_most 1 (xbind m f)"
  using creates_xbind [of 1 m 0 f] by (simp add: creates_none)

lemma creates_later:
  "keeps (logs (\<lambda>call. \<not> is_creation call)) m \<Longrightarrow> (\<And>a. creates_at_most 1 (f a)) \<Longrightarrow> creates_at_most 1 (xbind m f)"
  using creates_xbind [of 0 m 1 f] by (simp add: creates_none)

lemma creates_first_try:
  "creates_at_most 1 m \<Longrightarrow> (\<And>a. keeps (logs (\<lambda>call. \<not> is_creation call)) (f a)) \<Longrightarrow> creates_at_most 1 (xtry m f)"
  unfolding xtry_def by (rule creates_first) (auto split: sum.split)

lemma creates_later_try:
  "keeps (logs (\<lambda>call. \<not> is_creation call)) m \<Longrightarrow> (\<And>a. creates_at_most 1 (f a)) \<Longrightarrow> creates_at_most 1 (xtry m f)"
  unfolding xtry_def by (rule creates_later) (auto split: sum.split intro: creates_none)

lemma creates_xmap: "creates_at_most 1 m \<Longrightarrow> creates_at_most 1 (xmap f m)"
  unfolding xmap_def by (rule creates_first) auto

lemma creates_call:
  "creates_at_most 1 (xworld (call_create_container (traced_client rt ops) machine_id kind namespace spec replacing))"
  by (auto simp: creates_at_most_def creations_def restart_tolerant_def traced_operations_def xworld_eq_Some traced_call_def
      split: option.splits)

lemma creates_create_and_start:
  "creates_at_most 1 (create_and_start (traced_runtime rt) (traced_client rt ops) index machine_id kind namespace spec replacing)"
  unfolding create_and_start_def
  by (intro creates_later creates_first creates_call) (auto split: sum.split)

lemma creates_execute_operation:
  "creates_at_most 1 (execute_operation (traced_runtime rt) (traced_client rt ops) index namespace operation)"
proof -
  have replacement: "creates_at_most 1 (replace_container (traced_runtime rt) (traced_client rt ops) index replacement namespace)"
    for replacement
  proof -
    have "creates_at_most 1 (start_new (traced_runtime rt) (traced_client rt ops) index replacement namespace)"
      unfolding start_new_def by (rule creates_first [OF creates_create_and_start]) (auto split: sum.split)
    then have "creates_at_most 1 (xbind (start_new (traced_runtime rt) (traced_client rt ops) index replacement namespace) (\<lambda>started.
          case started of
            Inl (new_container, error) \<Rightarrow>
              xmap Inl (compensate (traced_client rt ops) index replacement old_stopped new_container error)
          | Inr _ \<Rightarrow> xmap (map_err Ordinary) (remove_old (traced_client rt ops) index replacement stop_first)))" for old_stopped stop_first
      by (rule creates_first) (auto split: sum.split)
    then show ?thesis
      unfolding replace_container_def Let_def
      by (intro creates_later) (auto split: sum.split intro: creates_none)
  qed
  have hook: "creates_at_most 1 (run_hook (traced_runtime rt) (traced_client rt ops) index m namespace spec hooks)" for m spec hooks
    unfolding run_hook_def Let_def
    by (intro creates_later creates_later_try creates_first_try creates_create_and_start) auto
  have run: "creates_at_most 1 (run_container (traced_runtime rt) (traced_client rt ops) index m namespace spec skip)" for m spec skip
    unfolding run_container_def by (intro creates_first_try creates_create_and_start) auto
  show ?thesis
    unfolding execute_operation_def Let_def
    by (rule creates_later)
      (auto split: deploy_operation.split intro: creates_none run hook replacement creates_xmap simp del: One_nat_def)
qed

section \<open>What the parts of a replacement log\<close>

text \<open>Every attempt of a repeated call but the last one failed.\<close>

lemma snd_untraced: "untraced m u = Some (a, v) \<Longrightarrow> snd v = snd u"
  by (auto simp: untraced_def split: option.splits)

lemma restart_step_log:
  assumes "restart_step (traced_runtime rt) deadline (traced_call entry call) st u = Some (step, v)"
  shows "\<exists>q. snd v = snd u @ [entry q] \<and> (step = Inr q \<or> (step = Inl () \<and> (\<exists>e. q = Inl e)))"
proof -
  obtain q u1 where q: "traced_call entry call u = Some (q, u1)" and rest: "(case q of
         Inr v \<Rightarrow> xret (Inr (Inr v))
       | Inl error \<Rightarrow>
           if \<not> is_unavailable error then xret (Inr (Inl error))
           else xbind (rt_now (traced_runtime rt)) (\<lambda>now.
             if \<not> now < deadline then xret (Inr (Inl error))
             else xbind (rt_is_cancelled (traced_runtime rt)) (\<lambda>cancelled.
               if cancelled then xret (Inr (Inl error))
               else xbind (rt_now (traced_runtime rt)) (\<lambda>now.
                 xbind (rt_sleep (traced_runtime rt) (now + RESTART_POLL)) (\<lambda>cancelled.
                 xret (if cancelled then Inr (Inl error) else Inl ())))))) u1 = Some (step, v)"
    using assms unfolding restart_step_def xbind_eq_Some by blast
  have u1: "snd u1 = snd u @ [entry q]"
    using q by (auto simp: traced_call_def split: option.splits)
  have "snd v = snd u1 \<and> (step = Inr q \<or> (step = Inl () \<and> (\<exists>e. q = Inl e)))"
  proof (cases q)
    case (Inl error)
    then show ?thesis
      using rest
      by (auto simp: xbind_eq_Some traced_runtime_def simp del: split_paired_Ex split: if_splits dest!: snd_untraced)
  qed (use rest in simp)
  with u1 show ?thesis
    by auto
qed

lemma wait_out_restart_log:
  assumes "wait_out_restart (traced_runtime rt) (traced_call entry call) w = Some (r, w')"
  shows "\<exists>failed. snd w' = snd w @ failed @ [entry r] \<and> (\<forall>c \<in> set failed. \<exists>e. c = entry (Inl e))"
proof -
  obtain now w0 where w0: "rt_now (traced_runtime rt) w = Some (now, w0)"
    and loop: "xloop (restart_step (traced_runtime rt) (now + RESTART_WAIT) (traced_call entry call)) () w0 = Some (r, w')"
    using assms by (auto simp: wait_out_restart_def xbind_eq_Some)
  from loop show ?thesis
  proof (rule xloop_invariant [where P = "\<lambda>_ u. \<exists>failed. snd u = snd w @ failed \<and> (\<forall>c \<in> set failed. \<exists>e. c = entry (Inl e))"
      and Q = "\<lambda>r w'. \<exists>failed. snd w' = snd w @ failed @ [entry r] \<and> (\<forall>c \<in> set failed. \<exists>e. c = entry (Inl e))"])
    show "\<exists>failed. snd w0 = snd w @ failed \<and> (\<forall>c \<in> set failed. \<exists>e. c = entry (Inl e))"
      using w0 snd_untraced [of "rt_now rt" w now w0] by (simp add: traced_runtime_def)
  next
    fix st u st' v
    assume "\<exists>failed. snd u = snd w @ failed \<and> (\<forall>c \<in> set failed. \<exists>e. c = entry (Inl e))"
      and "restart_step (traced_runtime rt) (now + RESTART_WAIT) (traced_call entry call) st u = Some (Inl st', v)"
    then obtain failed e where "snd u = snd w @ failed" "\<forall>c \<in> set failed. \<exists>e. c = entry (Inl e)" "snd v = snd u @ [entry (Inl e)]"
      using restart_step_log [of rt "now + RESTART_WAIT" entry call st u "Inl st'" v] by auto
    then show "\<exists>failed. snd v = snd w @ failed \<and> (\<forall>c \<in> set failed. \<exists>e. c = entry (Inl e))"
      by (intro exI [of _ "failed @ [entry (Inl e)]"]) auto
  next
    fix st u r v
    assume "\<exists>failed. snd u = snd w @ failed \<and> (\<forall>c \<in> set failed. \<exists>e. c = entry (Inl e))"
      and "restart_step (traced_runtime rt) (now + RESTART_WAIT) (traced_call entry call) st u = Some (Inr r, v)"
    then show "\<exists>failed. snd v = snd w @ failed @ [entry r] \<and> (\<forall>c \<in> set failed. \<exists>e. c = entry (Inl e))"
      using restart_step_log [of rt "now + RESTART_WAIT" entry call st u "Inr r" v] by auto
  qed
qed

end
