(* ===== verification/Exec_Live.thy ===== *)
theory Exec_Live
  imports Exec_Logic
begin

text \<open>
  The executor always ends. The locale \<open>machine_calls\<close> is the contract that the calls and the runtime
  promise; the bound on every polling loop is the time that is left until its deadline.
\<close>

section \<open>Contract of the calls and of the runtime\<close>

text \<open>\<open>clk\<close> is the time of a world. A clock reading lies between the times before and after it.\<close>

definition returns :: "('s \<Rightarrow> int) \<Rightarrow> ('s, 'a) exec \<Rightarrow> bool" where
  "returns clk m \<longleftrightarrow> (\<forall>s. \<exists>a t. m s = Some (a, t) \<and> clk s \<le> clk t)"

lemma returnsE:
  assumes "returns clk m"
  obtains a t where "m s = Some (a, t)" "clk s \<le> clk t"
  using assms unfolding returns_def by blast

lemma returns_xret [intro!]: "returns clk (xret a)"
  by (simp add: returns_def xret_def)

lemma returns_xbind [intro!]:
  assumes "returns clk m" and "\<And>a. returns clk (k a)"
  shows "returns clk (xbind m k)"
  unfolding returns_def
proof
  fix s
  obtain a t where m: "m s = Some (a, t)" "clk s \<le> clk t"
    using assms(1) by (rule returnsE)
  obtain b u where k: "k a t = Some (b, u)" "clk t \<le> clk u"
    using assms(2) by (rule returnsE)
  have "xbind m k s = Some (b, u)" "clk s \<le> clk u"
    using m k by (simp_all add: xbind_def)
  then show "\<exists>b u. xbind m k s = Some (b, u) \<and> clk s \<le> clk u"
    by blast
qed

lemma returns_xtry [intro!]:
  "returns clk m \<Longrightarrow> (\<And>a. returns clk (k a)) \<Longrightarrow> returns clk (xtry m k)"
  unfolding xtry_def by (rule returns_xbind) (auto split: sum.split)

lemma returns_xmap [intro!]: "returns clk m \<Longrightarrow> returns clk (xmap f m)"
  unfolding xmap_def by auto

text \<open>A loop whose body, when it continues, has advanced the clock, and only before a deadline.\<close>

lemma returns_xloop:
  assumes "\<And>st s. \<exists>step t. body st s = Some (step, t) \<and> clk s \<le> clk t
      \<and> (\<forall>st'. step = Inl st' \<longrightarrow> clk s < clk t \<and> clk s < deadline)"
  shows "returns clk (xloop body st)"
  unfolding returns_def
proof
  fix s
  have "\<exists>r t. xloop body st s = Some (r, t)"
  proof (rule xloop_returns [where P = "\<lambda>_ _. True" and m = "\<lambda>_ s. nat (deadline - clk s)"])
    fix st s
    obtain step t where step: "body st s = Some (step, t)" "\<forall>st'. step = Inl st' \<longrightarrow> clk s < clk t \<and> clk s < deadline"
      using assms by blast
    then have "\<forall>st'. step = Inl st' \<longrightarrow> True \<and> nat (deadline - clk t) < nat (deadline - clk s)"
      by (simp add: nat_less_eq_zless)
    with step(1) show "\<exists>step t. body st s = Some (step, t)
        \<and> (\<forall>st'. step = Inl st' \<longrightarrow> True \<and> nat (deadline - clk t) < nat (deadline - clk s))"
      by blast
  qed simp
  then obtain r t where run: "xloop body st s = Some (r, t)"
    by blast
  then have "clk s \<le> clk t"
  proof (rule xloop_invariant [where P = "\<lambda>_ u. clk s \<le> clk u" and Q = "\<lambda>_ u. clk s \<le> clk u"])
    show "clk s \<le> clk v" if "clk s \<le> clk u" "body st u = Some (Inl st', v)" for st u st' v
      using assms [of st u] that by auto
    show "clk s \<le> clk v" if "clk s \<le> clk u" "body st u = Some (Inr r, v)" for st u r v
      using assms [of st u] that by auto
  qed simp
  with run show "\<exists>r t. xloop body st s = Some (r, t) \<and> clk s \<le> clk t"
    by blast
qed

text \<open>A computation from one state, with what holds after it; the rules walk through the code.\<close>

definition runs :: "('s, 'a) exec \<Rightarrow> 's \<Rightarrow> ('a \<Rightarrow> 's \<Rightarrow> bool) \<Rightarrow> bool" where
  "runs m s Q \<longleftrightarrow> (\<exists>a t. m s = Some (a, t) \<and> Q a t)"

lemma runs_xret: "Q a s \<Longrightarrow> runs (xret a) s Q"
  by (simp add: runs_def)

lemma runs_xbind: "runs m s (\<lambda>a t. runs (k a) t Q) \<Longrightarrow> runs (xbind m k) s Q"
  by (auto simp: runs_def xbind_def)

lemma runs_xmap: "runs m s (\<lambda>a t. Q (f a) t) \<Longrightarrow> runs (xmap f m) s Q"
  unfolding xmap_def by (intro runs_xbind) (auto simp: runs_def)

lemma runs_if: "(b \<Longrightarrow> runs m s Q) \<Longrightarrow> (\<not> b \<Longrightarrow> runs n s Q) \<Longrightarrow> runs (if b then m else n) s Q"
  by simp

lemma runs_sum:
  "(\<And>e. r = Inl e \<Longrightarrow> runs (f e) s Q) \<Longrightarrow> (\<And>a. r = Inr a \<Longrightarrow> runs (g a) s Q)
     \<Longrightarrow> runs (case r of Inl e \<Rightarrow> f e | Inr a \<Rightarrow> g a) s Q"
  by (cases r) auto

lemma runs_poll:
  "(p = Poll_Complete \<Longrightarrow> runs m s Q) \<Longrightarrow> (\<And>d. p = PendingUntil d \<Longrightarrow> runs (f d) s Q)
     \<Longrightarrow> (\<And>e. p = Poll_Failed e \<Longrightarrow> runs (g e) s Q)
     \<Longrightarrow> runs (case p of Poll_Complete \<Rightarrow> m | PendingUntil d \<Rightarrow> f d | Poll_Failed e \<Rightarrow> g e) s Q"
  by (cases p) auto

lemma runs_branch:
  "(b = Branch_Cancelled \<Longrightarrow> runs m s Q) \<Longrightarrow> (b = Branch_Deadline \<Longrightarrow> runs n s Q) \<Longrightarrow> (b = Branch_Ready \<Longrightarrow> runs k s Q)
     \<Longrightarrow> runs (case b of Branch_Cancelled \<Rightarrow> m | Branch_Deadline \<Rightarrow> n | Branch_Ready \<Rightarrow> k) s Q"
  by (cases b) auto

lemma runs_option:
  "(r = None \<Longrightarrow> runs m s Q) \<Longrightarrow> (\<And>a. r = Some a \<Longrightarrow> runs (f a) s Q)
     \<Longrightarrow> runs (case r of None \<Rightarrow> m | Some a \<Rightarrow> f a) s Q"
  by (cases r) auto

lemma runs_pending:
  "(\<And>a b c. p = (a, b, c) \<Longrightarrow> runs (f a b c) s Q) \<Longrightarrow> runs (case p of (a, b, c) \<Rightarrow> f a b c) s Q"
  by (cases p) auto

lemma runs_runtime:
  "(\<And>code. r = Exited code \<Longrightarrow> runs (f code) s Q) \<Longrightarrow> (\<forall>code. r \<noteq> Exited code \<Longrightarrow> runs m s Q)
     \<Longrightarrow> runs (case r of Exited code \<Rightarrow> f code | _ \<Rightarrow> m) s Q"
  by (cases r) auto

lemma runs_returns:
  assumes "returns clk m" and "\<And>a t. clk s \<le> clk t \<Longrightarrow> Q a t"
  shows "runs m s Q"
  using assms unfolding returns_def runs_def by blast

definition continues :: "('s \<Rightarrow> int) \<Rightarrow> int \<Rightarrow> 's \<Rightarrow> 'st + 'r \<Rightarrow> 's \<Rightarrow> bool" where
  "continues clk deadline s step t \<longleftrightarrow> clk s \<le> clk t \<and> (\<forall>st'. step = Inl st' \<longrightarrow> clk s < clk t \<and> clk s < deadline)"

lemma returns_loop:
  "(\<And>st s. runs (body st) s (continues clk deadline s)) \<Longrightarrow> returns clk (xloop body st)"
  by (rule returns_xloop [where deadline = deadline]) (simp add: runs_def continues_def)

locale runtime_laws =
  fixes rt :: "'w runtime" and clk :: "'w \<Rightarrow> int"
  assumes now_law: "\<exists>now w'. rt_now rt w = Some (now, w') \<and> clk w \<le> now \<and> now \<le> clk w'"
    and is_cancelled_law: "returns clk (rt_is_cancelled rt)"
    and sleep_law: "\<exists>cancelled w'. rt_sleep rt wake w = Some (cancelled, w') \<and> clk w \<le> clk w'
          \<and> (\<not> cancelled \<longrightarrow> wake \<le> clk w')"
    and sleep_before_law: "\<exists>branch w'. rt_sleep_before rt deadline wake w = Some (branch, w') \<and> clk w \<le> clk w'
          \<and> (branch = Branch_Ready \<longrightarrow> wake \<le> clk w' \<and> wake < deadline)"
    and call_before_law: "returns clk (rt_call_before rt deadline)"
begin

lemma returns_now [intro!]: "returns clk (rt_now rt)"
  unfolding returns_def using now_law by (metis order_trans)

lemma returns_elapsed [intro!]: "returns clk (elapsed_ms rt started)"
  unfolding elapsed_ms_def by auto

lemma returns_wait_out_restart [intro!]:
  assumes "returns clk op"
  shows "returns clk (wait_out_restart rt op)"
proof -
  have "returns clk (xloop (restart_step rt deadline op) ())" for deadline
  proof (rule returns_xloop [where deadline = deadline])
    fix st :: unit and w
    obtain r w1 where r: "op w = Some (r, w1)" "clk w \<le> clk w1"
      using assms by (rule returnsE)
    obtain now w2 where now: "rt_now rt w1 = Some (now, w2)" "clk w1 \<le> now" "now \<le> clk w2"
      using now_law by blast
    obtain c w3 where c: "rt_is_cancelled rt w2 = Some (c, w3)" "clk w2 \<le> clk w3"
      using is_cancelled_law by (rule returnsE)
    obtain now' w4 where now': "rt_now rt w3 = Some (now', w4)" "clk w3 \<le> now'" "now' \<le> clk w4"
      using now_law by blast
    obtain c' w5 where c': "rt_sleep rt (now' + RESTART_POLL) w4 = Some (c', w5)" "clk w4 \<le> clk w5"
      "\<not> c' \<longrightarrow> now' + RESTART_POLL \<le> clk w5"
      using sleep_law by blast
    show "\<exists>step t. restart_step rt deadline op st w = Some (step, t) \<and> clk w \<le> clk t
        \<and> (\<forall>st'. step = Inl st' \<longrightarrow> clk w < clk t \<and> clk w < deadline)"
      using r now c now' c'
      by (auto simp: restart_step_def xbind_def xret_def RESTART_POLL_def split: sum.split)
  qed
  then show ?thesis
    unfolding wait_out_restart_def by auto
qed

end

section \<open>Deadlines of the health waits\<close>

lemma classify_health_pending:
  "classify_health observed now monitor_deadline health_deadline expectation = PendingUntil deadline \<Longrightarrow>
     now < deadline \<and> (deadline = monitor_deadline \<or> health_deadline = Some deadline)"
  by (auto simp: classify_health_def pending_or_failed_def Let_def
      split: container_runtime_observation.splits health_observation.splits option.splits if_splits)

text \<open>No deadline is further away than the longest duration that fits 64 bits of milliseconds.\<close>

definition MAX_WAIT :: int where "MAX_WAIT = 2 ^ 64 * 1000000"

lemma nanos_of_millis_bound: "nanos_of_millis millis \<le> MAX_WAIT"
  using uint_lt2p [of millis] by (simp add: MAX_WAIT_def)

lemma default_monitor_bound: "DEFAULT_HEALTH_MONITOR \<le> MAX_WAIT"
  by (simp add: DEFAULT_HEALTH_MONITOR_def MAX_WAIT_def)

lemma health_deadline_for_bound: "health_deadline_for check observed started = Some deadline \<Longrightarrow> deadline \<le> started + MAX_WAIT"
proof -
  have "uint seconds * 1000000000 \<le> MAX_WAIT" for seconds :: u16
    using uint_lt2p [of seconds] by (simp add: MAX_WAIT_def)
  then show "health_deadline_for check observed started = Some deadline \<Longrightarrow> deadline \<le> started + MAX_WAIT"
    by (auto simp: health_deadline_for_def healthcheck_timeout_def nanos_of_millis_bound
        split: option.splits healthcheck_spec.splits if_splits)
qed

lemma monitor_deadlines_bound:
  assumes "classify_health observed now (if b then unwrap_or monitor_deadline health_deadline else monitor_deadline)
      health_deadline expectation = PendingUntil deadline"
    and "monitor_deadline \<le> started + MAX_WAIT"
    and "\<And>d. health_deadline = Some d \<Longrightarrow> d \<le> started + MAX_WAIT"
  shows "now < deadline" and "deadline \<le> started + MAX_WAIT"
  using classify_health_pending [OF assms(1)] assms(2,3)
  by (auto simp: unwrap_or_def split: if_splits option.splits)

lemma dependency_deadline_bound: "dependency_deadline observed started = Some d \<Longrightarrow> d \<le> started + MAX_WAIT"
  by (auto simp: dependency_deadline_def healthcheck_timeout_def nanos_of_millis_bound dest: health_deadline_for_bound
      split: option.splits if_splits)

lemma poll_dependency_pending:
  assumes "poll_dependency dependency started (started + DEFAULT_HEALTH_MONITOR) now containers pending
      = Inr (Some (container_id, health, deadline))"
    and "\<And>c h d. pending = Some (c, h, d) \<Longrightarrow> now < d \<and> d \<le> started + MAX_WAIT"
  shows "now < deadline \<and> deadline \<le> started + MAX_WAIT"
  using assms
proof (induction containers arbitrary: pending)
  case (Cons observed containers)
  show ?case
  proof (cases "classify_dependency started (started + DEFAULT_HEALTH_MONITOR) now observed")
    case (PendingUntil d)
    have "now < d" "d \<le> started + MAX_WAIT"
      using monitor_deadlines_bound [OF PendingUntil [unfolded classify_dependency_def Let_def], of started]
        dependency_deadline_bound by (auto simp: DEFAULT_HEALTH_MONITOR_def MAX_WAIT_def)
    then show ?thesis
      using Cons.prems PendingUntil
      by (intro Cons.IH [of "if (case pending of None \<Rightarrow> True | Some (_, _, pending_deadline) \<Rightarrow> d < pending_deadline)
             then Some (co_container_id observed, observed_health (co_runtime observed), d) else pending"])
        (auto split: if_splits)
  qed (use Cons in auto)
qed simp

section \<open>Every computation of the executor returns\<close>

abbreviation exec_clock :: "('w \<Rightarrow> int) \<Rightarrow> 'w execution \<Rightarrow> int" where
  "exec_clock clk s \<equiv> clk (xc_world s)"

lemma returns_xworld [intro!]: "returns clk m \<Longrightarrow> returns (exec_clock clk) (xworld m)"
  unfolding returns_def xworld_def by (metis (mono_tags, lifting) execution.select_convs(1) execution.surjective
      execution.update_convs(1) option.case(2) prod.case)

lemma returns_xprogress [intro!]: "returns (exec_clock clk) (xprogress f)"
  by (simp add: returns_def xprogress_def)

lemma returns_running [intro!]: "returns (exec_clock clk) (running index phase)"
  unfolding running_def by auto

locale machine_calls = runtime_laws rt clk
  for rt :: "'w runtime" and clk :: "'w \<Rightarrow> int" +
  fixes ops :: "'w machine_operations"
  assumes prepare_returns [intro!]: "returns clk (call_prepare_volumes ops machine_id specs)"
    and wait_returns [intro!]: "returns clk (call_wait_for_container_observations ops ids condition token)"
    and list_returns [intro!]: "returns clk (call_service_containers ops service)"
    and create_returns [intro!]: "returns clk (call_create_container ops machine_id kind namespace spec replacing)"
    and start_returns [intro!]: "returns clk (call_start_container ops machine_id container_id)"
    and inspect_returns [intro!]: "returns clk (call_inspect_container ops machine_id container_id)"
    and stop_returns [intro!]: "returns clk (call_stop_container ops machine_id container_id grace)"
    and remove_returns [intro!]: "returns clk (call_remove_container ops machine_id container_id)"
    and remove_volume_returns [intro!]: "returns clk (call_remove_volume ops volume_id)"
begin

lemma returns_is_cancelled [intro!]: "returns clk (rt_is_cancelled rt)"
  by (rule is_cancelled_law)

lemma returns_call_before [intro!]: "returns clk (rt_call_before rt deadline)"
  by (rule call_before_law)

lemma restart_tolerant_calls: "machine_calls rt clk (restart_tolerant rt ops)"
  by unfold_locales (auto simp: restart_tolerant_def)

lemma runs_now: "(\<And>now t. exec_clock clk s \<le> now \<Longrightarrow> now \<le> exec_clock clk t \<Longrightarrow> Q now t) \<Longrightarrow> runs (xworld (rt_now rt)) s Q"
  unfolding runs_def xworld_def using now_law [of "xc_world s"] by auto

lemma runs_sleep:
  "(\<And>cancelled t. exec_clock clk s \<le> exec_clock clk t \<Longrightarrow> \<not> cancelled \<longrightarrow> wake \<le> exec_clock clk t \<Longrightarrow> Q cancelled t)
     \<Longrightarrow> runs (xworld (rt_sleep rt wake)) s Q"
  unfolding runs_def xworld_def using sleep_law [of wake "xc_world s"] by auto

lemma runs_sleep_before:
  "(\<And>branch t. exec_clock clk s \<le> exec_clock clk t \<Longrightarrow> branch = Branch_Ready \<longrightarrow> wake \<le> exec_clock clk t \<and> wake < deadline
      \<Longrightarrow> Q branch t) \<Longrightarrow> runs (xworld (rt_sleep_before rt deadline wake)) s Q"
  unfolding runs_def xworld_def using sleep_before_law [of deadline wake "xc_world s"] by auto

lemma runs_exec:
  "returns (exec_clock clk) m \<Longrightarrow> (\<And>a t. exec_clock clk s \<le> exec_clock clk t \<Longrightarrow> Q a t) \<Longrightarrow> runs m s Q"
  by (rule runs_returns)

lemma returns_inspect [intro!]: "returns (exec_clock clk) (inspect ops machine_id container_id)"
  unfolding inspect_def by auto

lemma returns_interrupt_hook [intro!]: "returns (exec_clock clk) (interrupt_hook ops machine_id container_id interruption)"
  unfolding interrupt_hook_def Let_def by auto

lemmas runs_rules = runs_xbind runs_xret runs_if runs_sum runs_poll runs_branch runs_option runs_now runs_sleep runs_sleep_before
  runs_exec [OF returns_xworld [OF returns_elapsed]] runs_exec [OF returns_xprogress] runs_exec [OF returns_running]
  runs_exec [OF returns_inspect] runs_exec [OF returns_xworld [OF returns_is_cancelled]]
  runs_exec [OF returns_xworld [OF returns_call_before]] runs_exec [OF returns_xworld [OF list_returns]]

lemma window_returns [intro!]:
  "returns (exec_clock clk) (xloop (window_step rt index container_id started deadline deadline_ms) ())"
proof (rule returns_loop [where deadline = deadline])
  show "runs (window_step rt index container_id started deadline deadline_ms st) s (continues (exec_clock clk) deadline s)"
    for st s
    unfolding window_step_def
    by (intro runs_rules) (auto simp: continues_def POLL_INTERVAL_def min_def split: if_splits)
qed

lemma monitor_loop_returns [intro!]:
  assumes "monitor_deadline \<le> started + MAX_WAIT"
  shows "returns (exec_clock clk)
    (xloop (monitor_step rt ops index machine_id container_id check started monitor_deadline) ())"
proof (rule returns_loop [where deadline = "started + MAX_WAIT"])
  have bound: "now < d \<and> d \<le> started + MAX_WAIT"
    if "classify_health (co_runtime observed) now
        (if is_http check then unwrap_or monitor_deadline (health_deadline_for check observed started) else monitor_deadline)
        (health_deadline_for check observed started) ContainerReady = PendingUntil d" for observed now d
    using monitor_deadlines_bound [OF that assms health_deadline_for_bound] by simp
  show "runs (monitor_step rt ops index machine_id container_id check started monitor_deadline st) s
      (continues (exec_clock clk) (started + MAX_WAIT) s)" for st s
    unfolding monitor_step_def Let_def
    by (intro runs_rules; (drule bound)?) (auto simp: continues_def POLL_INTERVAL_def min_def split: if_splits)
qed

lemma monitor_returns [intro!]:
  "returns (exec_clock clk) (monitor_container rt ops index machine_id container_id spec)"
  unfolding monitor_container_def Let_def
  by (intro returns_xbind returns_xworld returns_now returns_xprogress returns_xtry monitor_loop_returns)
    (auto simp: nanos_of_millis_bound default_monitor_bound split: option.split)

lemma wait_healthy_returns [intro!]: "returns (exec_clock clk) (wait_healthy rt ops index dependency)"
proof -
  have "returns (exec_clock clk) (xloop (wait_healthy_step rt ops index dependency started) ())" for started
  proof (rule returns_loop [where deadline = "started + MAX_WAIT"])
    have bound: "now < d \<and> d \<le> started + MAX_WAIT"
      if "poll_dependency dependency started (started + DEFAULT_HEALTH_MONITOR) now containers None = Inr (Some (c, h, d))"
      for now containers c h d
      using poll_dependency_pending [OF that] by simp
    show "runs (wait_healthy_step rt ops index dependency started st) s
        (continues (exec_clock clk) (started + MAX_WAIT) s)" for st s
      unfolding wait_healthy_step_def Let_def
      by (intro runs_rules runs_pending; (simp only: bound)?; (drule bound)?)
        (auto simp: continues_def POLL_INTERVAL_def min_def split: if_splits)
  qed
  then show ?thesis
    unfolding wait_healthy_def by auto
qed

lemma wait_serving_returns [intro!]: "returns (exec_clock clk) (wait_serving ops container_id token)"
  unfolding wait_serving_def acting_def by auto

lemma wait_dropped_returns [intro!]: "returns (exec_clock clk) (wait_dropped ops container_id)"
  unfolding wait_dropped_def acting_def by auto

lemma serve_returns [intro!]: "returns (exec_clock clk) (serve rt ops index machine_id container_id spec skip)"
  unfolding serve_def by auto

lemma create_and_start_returns [intro!]:
  "returns (exec_clock clk) (create_and_start rt ops index machine_id kind namespace spec replacing)"
  unfolding create_and_start_def discard_created_def by (auto split: sum.split)

lemma acting_if_found_returns [intro!]:
  "returns clk call \<Longrightarrow> returns (exec_clock clk) (acting_if_found action call)"
  unfolding acting_if_found_def by auto

lemma replace_container_returns [intro!]:
  "returns (exec_clock clk) (replace_container rt ops index operation namespace)"
  unfolding replace_container_def stop_old_first_def start_new_def remove_old_def compensate_def
    stop_new_container_def restore_old_container_def acting_def Let_def
  by (auto split: sum.split option.split)

lemma remove_old_hooks_returns [intro!]: "returns (exec_clock clk) (remove_old_hooks ops hooks)"
  by (induction hooks) (auto simp: remove_old_hooks.simps split_paired_all)

lemma run_hook_returns [intro!]:
  "returns (exec_clock clk) (run_hook rt ops index machine_id namespace spec old_hook_containers)"
proof -
  have "returns (exec_clock clk) (xloop (hook_step rt ops index machine_id container_id started timeout) ())"
    for container_id started timeout
  proof (rule returns_loop [where deadline = "started + timeout"])
    show "runs (hook_step rt ops index machine_id container_id started timeout st) s
        (continues (exec_clock clk) (started + timeout) s)" for st s
      unfolding hook_step_def Let_def
      by (intro runs_rules runs_runtime runs_xmap runs_exec [OF returns_interrupt_hook])
        (auto simp: continues_def POLL_INTERVAL_def min_def split: if_splits)
  qed
  then show ?thesis
    unfolding run_hook_def Let_def by auto
qed

lemma execute_operation_returns [intro!]:
  "returns (exec_clock clk) (execute_operation rt ops index namespace operation)"
  unfolding execute_operation_def run_container_def Let_def by (auto split: deploy_operation.split)

lemma execute_from_returns: "returns (exec_clock clk) (execute_from rt ops namespace operations index rest)"
  by (induction rest arbitrary: index)
    (auto simp: execute_from.simps finish_failed_def Let_def split: sum.split operation_failure.split option.split)

end

end
