(* ===== verification/Placement_Correct.thy ===== *)
theory Placement_Correct
  imports Placement
begin

text \<open>
  What the placement of one Service guarantees. A selection has exactly the wanted number of
  replicas on candidate Machines, touches no observed container twice, charges the endpoint budget
  exactly for what it creates, and keeps the socket claims exclusive. The plan of a Service
  accounts for every container that was observed: it is kept, replaced or removed.
\<close>

section \<open>Grouping\<close>

lemma machine_containers_group_fold:
  "machine_containers (fold (\<lambda>container. bt_update_default (co_machine_id container) []
     (\<lambda>containers. containers @ [container])) current []) m = on_machine current m"
proof (induction current rule: rev_induct)
  case Nil
  then show ?case
    by (simp add: machine_containers_def on_machine_def)
next
  case (snoc c cs)
  then show ?case
    by (auto simp: machine_containers_def on_machine_def bt_get_update_default split: option.splits)
qed

lemma machine_containers_group:
  "machine_containers (group_by_machine x requested options current) m
     = sort_key (\<lambda>container. is_up_to_date x container requested options) (on_machine current m)"
  using machine_containers_group_fold [of current m]
  by (auto simp: group_by_machine_def machine_containers_def bt_get_map_values split: option.splits)

lemma machine_containers_insert [simp]:
  "machine_containers (bt_insert m containers by_machine) k
     = (if k = m then containers else machine_containers by_machine k)"
  by (simp add: machine_containers_def bt_get_insert)

lemma distinct_on_machine:
  "distinct (map co_container_id current) \<Longrightarrow> distinct (map co_container_id (on_machine current m))"
  by (simp add: on_machine_def distinct_map_filter)

section \<open>One replica\<close>

lemma try_machines_Suc:
  assumes "machines \<noteq> []"
  shows "try_machines x requested options machines st (Suc n) cursor capacity blocked =
    (let m = machines ! (cursor mod length machines);
         remaining = machine_containers (sel_by_machine st) m;
         existing = last_option remaining;
         operation = replicated_operation x existing requested options;
         pre_stops = conflicting_siblings x requested existing operation remaining
     in if \<not> sockets_fit x (sel_sockets st) m requested existing operation pre_stops
        then try_machines x requested options machines st n (Suc cursor) capacity True
        else
          let demand = demand_for_operation operation (sel_hook_pending st) in
          rbind (budget_reserve capacity m demand) (\<lambda>(granted, capacity).
            if granted
            then Inr (Some (m, operation, pre_stops, demand), Suc cursor, capacity, blocked)
            else try_machines x requested options machines st n (Suc cursor) capacity blocked))"
  using assms by (simp add: Let_def)

declare try_machines.simps(2) [simp del]

lemma try_machines_selected:
  assumes "try_machines x requested options machines st n cursor capacity blocked
    = Inr (Some (m, operation, pre_stops, demand), cursor', capacity', blocked')"
    and "machines \<noteq> []"
  shows "m \<in> set machines
    \<and> operation = replicated_operation x (last_option (machine_containers (sel_by_machine st) m)) requested options
    \<and> pre_stops = conflicting_siblings x requested (last_option (machine_containers (sel_by_machine st) m))
        operation (machine_containers (sel_by_machine st) m)
    \<and> demand = demand_for_operation operation (sel_hook_pending st)
    \<and> budget_reserve capacity m demand = Inr (True, capacity')"
  using assms(1)
proof (induction n arbitrary: cursor blocked capacity)
  case (Suc n)
  let ?m = "machines ! (cursor mod length machines)"
  let ?remaining = "machine_containers (sel_by_machine st) ?m"
  let ?op = "replicated_operation x (last_option ?remaining) requested options"
  let ?stops = "conflicting_siblings x requested (last_option ?remaining) ?op ?remaining"
  let ?demand = "demand_for_operation ?op (sel_hook_pending st)"
  have in_machines: "?m \<in> set machines"
    using assms(2) by simp
  obtain granted capacity1 where r: "budget_reserve capacity ?m ?demand = Inr (granted, capacity1)"
    using capacity.reserve_total [OF demand_wf_for_operation] by blast
  note step = Suc.prems [unfolded try_machines_Suc [OF assms(2)] Let_def r, simplified]
  show ?case
  proof (cases "sockets_fit x (sel_sockets st) ?m requested (last_option ?remaining) ?op ?stops")
    case False
    with step show ?thesis
      by (intro Suc.IH) simp
  next
    case fit: True
    show ?thesis
    proof (cases granted)
      case True
      with step fit r in_machines show ?thesis
        by auto
    next
      case False
      then have "capacity1 = capacity"
        using r capacity.reserve_refused [of capacity] by simp
      with step fit False show ?thesis
        by (intro Suc.IH) simp
    qed
  qed
qed simp

lemma try_machines_total:
  assumes "n = 0 \<or> machines \<noteq> []"
  shows "\<exists>r. try_machines x requested options machines st n cursor capacity blocked = Inr r"
  using assms
proof (induction n arbitrary: cursor blocked capacity)
  case (Suc n)
  let ?m = "machines ! (cursor mod length machines)"
  let ?op = "replicated_operation x (last_option (machine_containers (sel_by_machine st) ?m)) requested options"
  obtain granted capacity1 where
    r: "budget_reserve capacity ?m (demand_for_operation ?op (sel_hook_pending st)) = Inr (granted, capacity1)"
    using capacity.reserve_total [OF demand_wf_for_operation] by blast
  have "machines \<noteq> []"
    using Suc.prems by simp
  then show ?case
    using Suc.IH by (simp add: try_machines_Suc Let_def r)
qed simp

section \<open>Selected containers\<close>

text \<open>The observed containers that a choice keeps, replaces or stops.\<close>

definition choice_ids :: "replica_choice \<Rightarrow> container_id list" where
  "choice_ids choice =
     (case ch_action choice of Keep c \<Rightarrow> [c] | Exchange c pre_stops \<Rightarrow> c # pre_stops | Start_New \<Rightarrow> [])"

text \<open>What a selection keeps of the endpoint budget: one endpoint per new container and one for
  the hook.\<close>

definition selection_charges :: "replica_choice list \<Rightarrow> machine_id option \<Rightarrow> (machine_id \<times> nat) list" where
  "selection_charges choices hook_machine =
     (case hook_machine of None \<Rightarrow> [] | Some m \<Rightarrow> [(m, 1)])
     @ map (\<lambda>choice. (ch_machine_id choice, if ch_action choice = Start_New then 1 else 0)) choices"

lemma last_option_simps [simp]:
  "last_option [] = None" "last_option (xs @ [a]) = Some a"
  by (simp_all add: last_option_def)

lemma last_option_Some: "last_option xs = Some a \<longleftrightarrow> (\<exists>ys. xs = ys @ [a])"
  by (cases xs rule: rev_cases) (auto simp: last_option_def)

lemma last_option_None [simp]: "last_option xs = None \<longleftrightarrow> xs = []"
  by (simp add: last_option_def)

lemma set_conflicting_siblings:
  "set (conflicting_siblings x requested existing operation remaining) \<subseteq> co_container_id ` set remaining"
  by (auto simp: conflicting_siblings_def split: option.splits endpoint_operation.splits)

lemma new_choice_ids:
  fixes R requested x options m
  defines "existing \<equiv> last_option R"
  defines "operation \<equiv> replicated_operation x existing requested options"
  defines "pre_stops \<equiv> conflicting_siblings x requested existing operation R"
  defines "ids \<equiv> choice_ids \<lparr> ch_machine_id = m, ch_action = choice_action existing operation pre_stops \<rparr>"
  assumes "distinct (map co_container_id R)"
  shows "distinct ids \<and> set ids \<subseteq> co_container_id ` set R
    \<and> set ids \<inter> co_container_id ` set (filter (\<lambda>c. co_container_id c \<notin> set pre_stops) (butlast R)) = {}"
proof (cases R rule: rev_cases)
  case Nil
  then show ?thesis
    by (simp add: assms(1-4) choice_ids_def choice_action_def)
next
  case (snoc R' c)
  then have existing: "existing = Some c" and c: "co_container_id c \<notin> co_container_id ` set R'"
    and R': "distinct (map co_container_id R')"
    using assms(5) by (auto simp: existing_def)
  show ?thesis
  proof (cases "operation = Unchanged")
    case True
    then show ?thesis
      using existing snoc c by (auto simp: ids_def choice_ids_def choice_action_def)
  next
    case False
    then have "operation = Replace"
      using existing by (auto simp: operation_def replicated_operation_def split: if_splits)
    then have stops: "pre_stops = map co_container_id (filter (\<lambda>container.
        co_container_id container \<noteq> co_container_id c \<and> is_active_runtime (co_runtime container)
        \<and> ports_conflict x (rs_ports (co_resolved_spec container)) (rq_ports requested)) R)"
      by (simp add: pre_stops_def conflicting_siblings_def existing)
    have "distinct pre_stops"
      unfolding stops using assms(5) by (simp add: distinct_map_filter)
    moreover have "co_container_id c \<notin> set pre_stops" "set pre_stops \<subseteq> co_container_id ` set R"
      unfolding stops by auto
    ultimately show ?thesis
      using existing snoc c False by (auto simp: ids_def choice_ids_def choice_action_def)
  qed
qed

lemma same_machine:
  assumes "distinct (map co_container_id current)"
    and "a \<in> set (on_machine current m)" and "b \<in> set (on_machine current k)"
    and "co_container_id a = co_container_id b"
  shows "m = k"
  using assms by (auto simp: on_machine_def distinct_map dest: inj_onD)

lemma ledger_cong:
  assumes "ledger free b0 b entries" and "\<And>m. charged entries' m = charged entries m"
  shows "ledger free b0 b entries'"
proof -
  have same: "charged entries' = charged entries"
    using assms(2) by auto
  show ?thesis
    using assms(1) unfolding ledger_def same .
qed

section \<open>The loop invariant\<close>

definition select_inv ::
  "container_observation list \<Rightarrow> machine_id list \<Rightarrow> capacity_budget \<Rightarrow> nat \<Rightarrow> select_state \<Rightarrow> bool" where
  "select_inv current machines capacity k st \<longleftrightarrow>
     length (sel_choices st) = k
     \<and> (\<forall>m. set (machine_containers (sel_by_machine st) m) \<subseteq> set (on_machine current m)
          \<and> distinct (map co_container_id (machine_containers (sel_by_machine st) m)))
     \<and> distinct (concat (map choice_ids (sel_choices st)))
     \<and> (\<forall>choice \<in> set (sel_choices st). ch_machine_id choice \<in> set machines
          \<and> set (choice_ids choice) \<subseteq> co_container_id ` set (on_machine current (ch_machine_id choice))
          \<and> (\<forall>m. set (choice_ids choice)
               \<inter> co_container_id ` set (machine_containers (sel_by_machine st) m) = {}))
     \<and> (sel_hook_pending st \<longrightarrow> sel_hook_machine st = None)
     \<and> ledger budget_free capacity (sel_capacity st)
          (selection_charges (sel_choices st) (sel_hook_machine st))"

lemma select_replica_steps:
  assumes "select_replica x requested options machines error st = Inr st'"
  obtains m operation pre_stops demand cursor capacity blocked sockets where
    "m \<in> set machines"
    "operation = replicated_operation x (last_option (machine_containers (sel_by_machine st) m)) requested options"
    "pre_stops = conflicting_siblings x requested (last_option (machine_containers (sel_by_machine st) m))
        operation (machine_containers (sel_by_machine st) m)"
    "demand = demand_for_operation operation (sel_hook_pending st)"
    "budget_reserve (sel_capacity st) m demand = Inr (True, capacity)"
    "sockets_admit x (fold (\<lambda>c s. sockets_release s m c) pre_stops (sel_sockets st)) m requested
       (last_option (machine_containers (sel_by_machine st) m)) operation = Inr sockets"
    "st' = \<lparr> sel_by_machine = bt_insert m (filter (\<lambda>c. co_container_id c \<notin> set pre_stops)
               (butlast (machine_containers (sel_by_machine st) m))) (sel_by_machine st),
        sel_cursor = cursor,
        sel_hook_pending = (if ed_uses_hook demand then False else sel_hook_pending st),
        sel_hook_machine = (if ed_uses_hook demand then Some m else sel_hook_machine st),
        sel_choices = sel_choices st @ [\<lparr> ch_machine_id = m, ch_action = choice_action
          (last_option (machine_containers (sel_by_machine st) m)) operation pre_stops \<rparr>],
        sel_capacity = capacity, sel_sockets = sockets \<rparr>"
proof -
  obtain selected cursor capacity blocked where
    tried: "try_machines x requested options machines st (length machines) (sel_cursor st)
      (sel_capacity st) False = Inr (selected, cursor, capacity, blocked)"
    using assms by (auto simp: select_replica_def rbind_eq_Inr)
  then obtain m operation pre_stops demand where
    sel: "selected = Some (m, operation, pre_stops, demand)"
    using assms by (cases selected) (auto simp: select_replica_def)
  have "machines \<noteq> []"
    using tried sel by auto
  note found = try_machines_selected [OF tried [unfolded sel] this]
  obtain sockets where
    "sockets_admit x (fold (\<lambda>c s. sockets_release s m c) pre_stops (sel_sockets st)) m requested
       (last_option (machine_containers (sel_by_machine st) m)) operation = Inr sockets"
    "st' = \<lparr> sel_by_machine = bt_insert m (filter (\<lambda>c. co_container_id c \<notin> set pre_stops)
               (butlast (machine_containers (sel_by_machine st) m))) (sel_by_machine st),
        sel_cursor = cursor,
        sel_hook_pending = (if ed_uses_hook demand then False else sel_hook_pending st),
        sel_hook_machine = (if ed_uses_hook demand then Some m else sel_hook_machine st),
        sel_choices = sel_choices st @ [\<lparr> ch_machine_id = m, ch_action = choice_action
          (last_option (machine_containers (sel_by_machine st) m)) operation pre_stops \<rparr>],
        sel_capacity = capacity, sel_sockets = sockets \<rparr>"
    using assms tried sel by (auto simp: select_replica_def Let_def rbind_eq_Inr)
  with found that show ?thesis
    by blast
qed

lemma select_replica_inv:
  assumes "distinct (map co_container_id current)"
    and inv: "select_inv current machines capacity0 k st"
    and step: "select_replica x requested options machines error st = Inr st'"
  shows "select_inv current machines capacity0 (Suc k) st'"
  using step
proof (rule select_replica_steps)
  fix m operation pre_stops demand cursor capacity blocked sockets
  let ?R = "machine_containers (sel_by_machine st) m"
  let ?kept = "filter (\<lambda>c. co_container_id c \<notin> set pre_stops) (butlast ?R)"
  let ?choice = "\<lparr> ch_machine_id = m, ch_action = choice_action (last_option ?R) operation pre_stops \<rparr>"
  assume m: "m \<in> set machines"
    and op: "operation = replicated_operation x (last_option ?R) requested options"
    and stops: "pre_stops = conflicting_siblings x requested (last_option ?R) operation ?R"
    and demand: "demand = demand_for_operation operation (sel_hook_pending st)"
    and reserved: "budget_reserve (sel_capacity st) m demand = Inr (True, capacity)"
    and st': "st' = \<lparr> sel_by_machine = bt_insert m ?kept (sel_by_machine st), sel_cursor = cursor,
        sel_hook_pending = (if ed_uses_hook demand then False else sel_hook_pending st),
        sel_hook_machine = (if ed_uses_hook demand then Some m else sel_hook_machine st),
        sel_choices = sel_choices st @ [?choice], sel_capacity = capacity, sel_sockets = sockets \<rparr>"
  have R: "set ?R \<subseteq> set (on_machine current m)" "distinct (map co_container_id ?R)"
    using inv by (auto simp: select_inv_def)
  have new: "distinct (choice_ids ?choice)" "set (choice_ids ?choice) \<subseteq> co_container_id ` set ?R"
    "set (choice_ids ?choice) \<inter> co_container_id ` set ?kept = {}"
    using new_choice_ids [OF R(2), where m = m and x = x and requested = requested and options = options]
    by (simp_all only: op stops)
  have kept: "set ?kept \<subseteq> set ?R" "distinct (map co_container_id ?kept)"
    using R(2) by (auto simp: distinct_map_filter map_butlast distinct_butlast dest: in_set_butlastD)
  have elsewhere: "set (choice_ids ?choice) \<inter> co_container_id ` set (machine_containers (sel_by_machine st) k) = {}"
    if "k \<noteq> m" for k
    using that new(2) R(1) inv same_machine [OF assms(1)] unfolding select_inv_def by blast
  have old: "set (choice_ids choice) \<inter> co_container_id ` set ?R = {}" if "choice \<in> set (sel_choices st)" for choice
    using that inv by (simp add: select_inv_def)
  have distinct: "distinct (concat (map choice_ids (sel_choices st @ [?choice])))"
    using inv new old by (fastforce simp: select_inv_def)
  have hook: "sel_hook_pending st \<longrightarrow> sel_hook_machine st = None"
    using inv by (simp add: select_inv_def)
  have "ledger budget_free capacity0 capacity
      ((m, unat (ed_persistent demand)) # selection_charges (sel_choices st) (sel_hook_machine st))"
    using inv reserved by (intro capacity.ledger_granted) (simp_all add: select_inv_def demand)
  moreover have "unat (ed_persistent demand)
      = of_bool (last_option ?R = None) + of_bool (operation \<noteq> Unchanged \<and> sel_hook_pending st)"
    by (auto simp: demand op demand_for_operation_def replicated_operation_def Let_def split: option.splits)
  ultimately have "ledger budget_free capacity0 capacity
      (selection_charges (sel_choices st @ [?choice]) (if ed_uses_hook demand then Some m else sel_hook_machine st))"
    using hook by (elim ledger_cong)
      (auto simp: selection_charges_def charged_append demand choice_action_def
        simp del: last_option_None split: option.splits)
  moreover have "ch_machine_id choice \<in> set machines
      \<and> set (choice_ids choice) \<subseteq> co_container_id ` set (on_machine current (ch_machine_id choice))
      \<and> (\<forall>k. set (choice_ids choice)
           \<inter> co_container_id ` set (machine_containers (bt_insert m ?kept (sel_by_machine st)) k) = {})"
    if "choice \<in> set (sel_choices st @ [?choice])" for choice
  proof (cases "choice = ?choice")
    case True
    have "set (choice_ids ?choice) \<subseteq> co_container_id ` set (on_machine current m)"
      using new(2) R(1) by blast
    with True m new(3) elsewhere show ?thesis
      by simp
  next
    case False
    then have "choice \<in> set (sel_choices st)"
      using that by auto
    moreover from this have "set (choice_ids choice) \<inter> co_container_id ` set ?kept = {}"
      using old kept(1) by blast
    ultimately show ?thesis
      using inv by (simp add: select_inv_def)
  qed
  moreover have "set ?kept \<subseteq> set (on_machine current m)"
    using kept(1) R(1) by blast
  ultimately show ?thesis
    using inv distinct kept(2) hook unfolding st' select_inv_def
    by (intro conjI allI ballI impI) (simp_all split: if_splits)
qed

section \<open>A whole selection\<close>

text \<open>A reservation that fits the observed containers: one choice per replica, on candidate
  Machines, each container touched at most once and on the Machine where it is.\<close>

definition reservation_ok ::
  "requested_service_spec \<Rightarrow> container_observation list \<Rightarrow> machine_id list \<Rightarrow> replicated_reservation \<Rightarrow> bool" where
  "reservation_ok requested current machines reservation \<longleftrightarrow>
     rq_mode requested = Replicated (length (rr_choices reservation))
     \<and> distinct (concat (map choice_ids (rr_choices reservation)))
     \<and> (\<forall>choice \<in> set (rr_choices reservation). ch_machine_id choice \<in> set machines
          \<and> set (choice_ids choice) \<subseteq> co_container_id ` set (on_machine current (ch_machine_id choice)))"

lemma select_replicated_cases:
  assumes "select_replicated x requested current machines occupancy (capacity, sockets) error options
    = Inr (reservation, capacity', sockets')"
  obtains replicas order st where "rq_mode requested = Replicated replicas" "set order = set machines"
    "rfold (\<lambda>_. select_replica x requested options order error) [0..<replicas]
       \<lparr> sel_by_machine = group_by_machine x requested options current, sel_cursor = 0,
         sel_hook_pending = rq_pre_deploy requested \<noteq> None, sel_hook_machine = None,
         sel_choices = [], sel_capacity = capacity, sel_sockets = sockets \<rparr> = Inr st"
    "reservation = \<lparr> rr_choices = sel_choices st, rr_hook_machine = sel_hook_machine st \<rparr>"
    "capacity' = sel_capacity st" "sockets' = sel_sockets st"
proof -
  obtain replicas where mode: "rq_mode requested = Replicated replicas"
    using assms by (cases "rq_mode requested") (auto simp: select_replicated_def)
  let ?order = "sort_key (machine_order x requested options (group_by_machine x requested options current)
    occupancy) machines"
  have order: "set ?order = set machines"
    by simp
  from assms mode obtain st where
    "rfold (\<lambda>_. select_replica x requested options ?order error) [0..<replicas]
       \<lparr> sel_by_machine = group_by_machine x requested options current, sel_cursor = 0,
         sel_hook_pending = rq_pre_deploy requested \<noteq> None, sel_hook_machine = None,
         sel_choices = [], sel_capacity = capacity, sel_sockets = sockets \<rparr> = Inr st"
    "reservation = \<lparr> rr_choices = sel_choices st, rr_hook_machine = sel_hook_machine st \<rparr>"
    "capacity' = sel_capacity st" "sockets' = sel_sockets st"
    by (auto simp: select_replicated_def Let_def rbind_eq_Inr if_Inl_eq_Inr simp del: set_sort)
  from that [OF mode order this] show ?thesis .
qed

lemma select_replicated_sound:
  assumes "select_replicated x requested current machines occupancy (capacity, sockets) error options
      = Inr (reservation, capacity', sockets')"
    and "distinct (map co_container_id current)"
  shows "reservation_ok requested current machines reservation
    \<and> ledger budget_free capacity capacity'
        (selection_charges (rr_choices reservation) (rr_hook_machine reservation))"
  using assms(1)
proof (rule select_replicated_cases)
  fix replicas order st
  let ?init = "\<lparr> sel_by_machine = group_by_machine x requested options current, sel_cursor = 0,
    sel_hook_pending = rq_pre_deploy requested \<noteq> None, sel_hook_machine = None,
    sel_choices = [], sel_capacity = capacity, sel_sockets = sockets \<rparr>"
  assume mode: "rq_mode requested = Replicated replicas" and order: "set order = set machines"
    and loop: "rfold (\<lambda>_. select_replica x requested options order error) [0..<replicas] ?init = Inr st"
    and r: "reservation = \<lparr> rr_choices = sel_choices st, rr_hook_machine = sel_hook_machine st \<rparr>"
      "capacity' = sel_capacity st"
  have "select_inv current order capacity (length []) ?init"
    using distinct_on_machine [OF assms(2)] capacity.ledger_start
    by (simp add: select_inv_def machine_containers_group distinct_map selection_charges_def)
  then have "select_inv current order capacity (length [0..<replicas]) st"
    by (rule rfold_invariant_prefix [OF loop,
          where P = "\<lambda>pre. select_inv current order capacity (length pre)"])
      (auto intro: select_replica_inv [OF assms(2)])
  then show ?thesis
    using mode order r by (simp add: select_inv_def reservation_ok_def)
qed

lemma select_replicated_sockets:
  assumes "select_replicated x requested current machines occupancy (capacity, sockets) error options
      = Inr (reservation, capacity', sockets')"
    and "sockets_ok x sockets"
  shows "sockets_ok x sockets'"
  using assms(1)
proof (rule select_replicated_cases)
  fix replicas order st
  assume loop: "rfold (\<lambda>_. select_replica x requested options order error) [0..<replicas]
      \<lparr> sel_by_machine = group_by_machine x requested options current, sel_cursor = 0,
        sel_hook_pending = rq_pre_deploy requested \<noteq> None, sel_hook_machine = None,
        sel_choices = [], sel_capacity = capacity, sel_sockets = sockets \<rparr> = Inr st"
    and "sockets' = sel_sockets st"
  moreover have "sockets_ok x (sel_sockets st)"
    by (rule rfold_invariant [OF loop, where P = "\<lambda>s. sockets_ok x (sel_sockets s)"])
      (auto simp: assms(2) elim!: select_replica_steps intro: sockets.admit_ok sockets.release_on_ok)
  ultimately show ?thesis
    by simp
qed

text \<open>A selection returns or fails with an error of the code.\<close>

lemma select_replicated_no_panic:
  "select_replicated x requested current machines occupancy budget error options \<noteq> Inl Panic"
proof -
  have "select_replica x requested options order error st \<noteq> Inl Panic" for order st
  proof -
    obtain r where "try_machines x requested options order st (length order) (sel_cursor st)
        (sel_capacity st) False = Inr r"
      using try_machines_total [of "length order" order] by (metis length_0_conv)
    then show ?thesis
      using sockets.admit_no_panic
      by (cases r) (auto simp: select_replica_def Let_def rbind_eq_Inl split: option.splits)
  qed
  then have "rfold (\<lambda>_. select_replica x requested options order error) ns st \<noteq> Inl Panic" for order ns st
    by (induction ns arbitrary: st) (auto simp: rbind_eq_Inl)
  then show ?thesis
    by (auto simp: select_replicated_def Let_def rbind_eq_Inl split: service_mode.splits)
qed

section \<open>Exclusive sockets through a plan\<close>

definition plan_sockets_ok :: "ext \<Rightarrow> container_plan \<Rightarrow> bool" where
  "plan_sockets_ok x plan = sockets_ok x (ps_sockets (cp_placement plan))"

lemma plan_sockets_ok_simps [simp]:
  "plan_sockets_ok x (use_container c plan) = plan_sockets_ok x plan"
  "plan_sockets_ok x (add_operation operation plan) = plan_sockets_ok x plan"
  "plan_sockets_ok x (plan\<lparr> cp_placement := occupy m (cp_placement plan) \<rparr>) = plan_sockets_ok x plan"
  by (simp_all add: plan_sockets_ok_def use_container_def add_operation_def occupy_def)

lemma plan_sockets_ok_free_one: "plan_sockets_ok x plan \<Longrightarrow> plan_sockets_ok x (free_host_ports m c plan)"
  by (simp add: plan_sockets_ok_def free_host_ports_def sockets.release_ok)

lemma plan_sockets_ok_free:
  "plan_sockets_ok x plan \<Longrightarrow> plan_sockets_ok x (fold (free_host_ports m) cs plan)"
  by (induction cs arbitrary: plan) (simp_all add: plan_sockets_ok_free_one)

lemma plan_sockets_ok_remove_one: "plan_sockets_ok x plan \<Longrightarrow> plan_sockets_ok x (remove_container c plan)"
  by (simp add: plan_sockets_ok_def remove_container_def sockets.release_ok)

lemma plan_sockets_ok_remove: "plan_sockets_ok x plan \<Longrightarrow> plan_sockets_ok x (remove_unused current plan)"
  unfolding remove_unused_def
  by (induction current arbitrary: plan) (simp_all add: plan_sockets_ok_remove_one)

lemma plan_sockets_ok_admit:
  "plan_sockets_ok x plan \<Longrightarrow> admit_sockets x m requested existing operation plan = Inr plan'
     \<Longrightarrow> plan_sockets_ok x plan'"
  by (auto simp: admit_sockets_def plan_sockets_ok_def rbind_eq_Inr intro: sockets.admit_ok)

lemma plan_sockets_ok_run:
  "plan_sockets_ok x plan \<Longrightarrow> plan_run x requested service_id options m plan = Inr plan'
     \<Longrightarrow> plan_sockets_ok x plan'"
  by (auto simp: plan_run_def rbind_eq_Inr dest: plan_sockets_ok_admit)

lemma plan_sockets_ok_replace:
  "plan_sockets_ok x plan \<Longrightarrow> plan_replace x requested service_id options m container plan = Inr plan'
     \<Longrightarrow> plan_sockets_ok x plan'"
  by (auto simp: plan_replace_def rbind_eq_Inr dest: plan_sockets_ok_admit)

lemma plan_sockets_ok_choice:
  assumes "plan_sockets_ok x plan"
    and "plan_choice x requested service_id options by_id choice plan = Inr plan'"
  shows "plan_sockets_ok x plan'"
proof (cases "ch_action choice")
  case (Keep c)
  then show ?thesis
    using assms by (auto simp: plan_choice_def Let_def)
next
  case (Exchange c pre_stops)
  let ?start = "fold (free_host_ports (ch_machine_id choice)) pre_stops (use_container c
    (plan\<lparr> cp_placement := occupy (ch_machine_id choice) (cp_placement plan) \<rparr>))"
  obtain container where
    "plan_replace x requested service_id options (ch_machine_id choice) container ?start = Inr plan'"
    using assms(2) Exchange by (auto simp: plan_choice_def Let_def rbind_eq_Inr)
  moreover have "plan_sockets_ok x ?start"
    using assms(1) by (intro plan_sockets_ok_free) simp
  ultimately show ?thesis
    by (rule plan_sockets_ok_replace [rotated])
next
  case Start_New
  then have "plan_run x requested service_id options (ch_machine_id choice)
      (plan\<lparr> cp_placement := occupy (ch_machine_id choice) (cp_placement plan) \<rparr>) = Inr plan'"
    using assms(2) by (simp add: plan_choice_def Let_def)
  from plan_sockets_ok_run [OF _ this] assms(1) show ?thesis
    by simp
qed

lemma plan_sockets_ok_reserve:
  "plan_sockets_ok x plan \<Longrightarrow> reserve_endpoint error m demand plan = Inr plan' \<Longrightarrow> plan_sockets_ok x plan'"
  by (auto simp: reserve_endpoint_def plan_sockets_ok_def rbind_eq_Inr split: if_splits)

lemma plan_sockets_ok_global_machine:
  assumes "plan_sockets_ok x plan"
    and "plan_global_machine x service_id current requested options hook error m plan = Inr plan'"
  shows "plan_sockets_ok x plan'"
proof -
  let ?plan = "plan\<lparr> cp_placement := occupy m (cp_placement plan) \<rparr>" and ?here = "on_machine current m"
  have start: "plan_sockets_ok x ?plan"
    using assms(1) by simp
  note step = assms(2) [unfolded plan_global_machine_def Let_def]
  show ?thesis
  proof (cases "List.find (\<lambda>c. is_up_to_date x c requested options) ?here")
    case (Some kept)
    then show ?thesis
      using step start by auto
  next
    case stale: None
    show ?thesis
    proof (cases "List.find (\<lambda>c. reusable_global c requested options) ?here")
      case (Some container)
      then show ?thesis
        using step stale start by (auto simp: rbind_eq_Inr dest!: plan_sockets_ok_admit [rotated])
    next
      case fresh: None
      show ?thesis
      proof (cases "List.find (\<lambda>c. is_active_runtime (co_runtime c)) ?here")
        case (Some container)
        with step stale fresh obtain plan1 cs where
          reserved: "reserve_endpoint error m (demand_for_operation Replace (hook = Some m)) ?plan = Inr plan1"
          and replaced: "plan_replace x requested service_id options m container
            (fold (free_host_ports m) cs (use_container (co_container_id container) plan1)) = Inr plan'"
          by (simp add: rbind_eq_Inr) blast
        have "plan_sockets_ok x plan1"
          using start reserved by (rule plan_sockets_ok_reserve)
        then have "plan_sockets_ok x (fold (free_host_ports m) cs (use_container (co_container_id container) plan1))"
          by (intro plan_sockets_ok_free) simp
        from this replaced show ?thesis
          by (rule plan_sockets_ok_replace)
      next
        case None
        with step stale fresh obtain plan1 where
          reserved: "reserve_endpoint error m (demand_for_operation Create (hook = Some m)) ?plan = Inr plan1"
          and run: "plan_run x requested service_id options m plan1 = Inr plan'"
          by (simp add: rbind_eq_Inr) blast
        have "plan_sockets_ok x plan1"
          using start reserved by (rule plan_sockets_ok_reserve)
        from this run show ?thesis
          by (rule plan_sockets_ok_run)
      qed
    qed
  qed
qed

lemma plan_replicated_sockets:
  assumes "sockets_ok x (ps_sockets placement)"
    and "plan_replicated x service_id current volumes admission placement options
      = Inr (operations, hook, placement')"
  shows "sockets_ok x (ps_sockets placement')"
proof -
  obtain requested machines where volumes: "volumes = (requested, machines)"
    by (cases volumes)
  obtain reservation start plan where
    admitted: "admitted_reservation x requested current machines admission placement options
      = Inr (reservation, start)" and
    loop: "rfold (plan_choice x requested service_id options (index_containers current))
      (rr_choices reservation) \<lparr> cp_placement = start, cp_used = [], cp_operations = [] \<rparr> = Inr plan" and
    placement': "placement' = cp_placement (remove_unused current plan)"
    using assms(2) volumes by (auto simp: plan_replicated_def rbind_eq_Inr Let_def)
  have "ps_sockets start = ps_sockets placement"
    using admitted by (auto simp: admitted_reservation_def rbind_eq_Inr split: capacity_admission.splits)
  then have "plan_sockets_ok x \<lparr> cp_placement = start, cp_used = [], cp_operations = [] \<rparr>"
    using assms(1) by (simp add: plan_sockets_ok_def)
  then have "plan_sockets_ok x plan"
    by (rule rfold_invariant [OF loop]) (rule plan_sockets_ok_choice)
  then show ?thesis
    using plan_sockets_ok_remove placement' by (simp add: plan_sockets_ok_def)
qed

lemma plan_global_sockets:
  assumes "sockets_ok x (ps_sockets placement)"
    and "plan_global x service_id current hooks volumes placement options = Inr (operations, hook, placement')"
  shows "sockets_ok x (ps_sockets placement')"
proof -
  obtain requested machines where volumes: "volumes = (requested, machines)"
    by (cases volumes)
  obtain start error plan where
    loop: "rfold (plan_global_machine x service_id current requested options hook error)
      (map (\<lambda>machine. m_id (mo_machine machine)) machines)
      \<lparr> cp_placement = start, cp_used = [], cp_operations = [] \<rparr> = Inr plan" and
    start: "ps_sockets start = ps_sockets placement" and
    placement': "placement' = cp_placement (remove_unused current plan)"
    using assms(2) volumes
    by (auto simp: plan_global_def rbind_eq_Inr Let_def state_release_hooks_def split: if_splits)
  have "plan_sockets_ok x \<lparr> cp_placement = start, cp_used = [], cp_operations = [] \<rparr>"
    using assms(1) start by (simp add: plan_sockets_ok_def)
  then have "plan_sockets_ok x plan"
    by (rule rfold_invariant [OF loop]) (rule plan_sockets_ok_global_machine)
  then show ?thesis
    using plan_sockets_ok_remove placement' by (simp add: plan_sockets_ok_def)
qed

section \<open>Accounting of containers\<close>

fun is_run :: "deploy_operation \<Rightarrow> bool" where
  "is_run (RunContainer _ _ _) = True"
| "is_run _ = False"

fun removed_container :: "deploy_operation \<Rightarrow> (machine_id \<times> container_id) option" where
  "removed_container (RemoveContainer machine container) = Some (machine, container)"
| "removed_container _ = None"

fun replaced_container :: "deploy_operation \<Rightarrow> (machine_id \<times> container_id) option" where
  "replaced_container (ReplaceContainer r) = Some (rep_machine_id r, rep_old_container_id r)"
| "replaced_container _ = None"

definition run_count :: "deploy_operation list \<Rightarrow> nat" where
  "run_count operations = length (filter is_run operations)"

definition removed :: "deploy_operation list \<Rightarrow> (machine_id \<times> container_id) list" where
  "removed operations = List.map_filter removed_container operations"

definition replaced :: "deploy_operation list \<Rightarrow> (machine_id \<times> container_id) list" where
  "replaced operations = List.map_filter replaced_container operations"

definition location :: "container_observation \<Rightarrow> machine_id \<times> container_id" where
  "location c = (co_machine_id c, co_container_id c)"

lemma map_filter_append: "List.map_filter f (xs @ ys) = List.map_filter f xs @ List.map_filter f ys"
  by (simp add: List.map_filter_def)

lemma operation_counts [simp]:
  "run_count [] = 0" "run_count (xs @ ys) = run_count xs + run_count ys"
  "run_count (operation # xs) = of_bool (is_run operation) + run_count xs"
  "removed [] = []" "removed (xs @ ys) = removed xs @ removed ys"
  "removed (operation # xs) = (case removed_container operation of None \<Rightarrow> [] | Some c \<Rightarrow> [c]) @ removed xs"
  "replaced [] = []" "replaced (xs @ ys) = replaced xs @ replaced ys"
  "replaced (operation # xs) = (case replaced_container operation of None \<Rightarrow> [] | Some c \<Rightarrow> [c]) @ replaced xs"
  by (auto simp: run_count_def removed_def replaced_def map_filter_append List.map_filter_simps
      split: option.splits)

lemma fold_free_host_ports:
  "cp_operations (fold (free_host_ports m) cs plan)
     = cp_operations plan @ map (\<lambda>c. StopContainer m c FreeHostPorts) cs
   \<and> cp_used (fold (free_host_ports m) cs plan) = cp_used plan"
  by (induction cs arbitrary: plan) (auto simp: free_host_ports_def)

lemma stops_count [simp]:
  "run_count (map (\<lambda>c. StopContainer m c purpose) cs) = 0"
  "removed (map (\<lambda>c. StopContainer m c purpose) cs) = []"
  "replaced (map (\<lambda>c. StopContainer m c purpose) cs) = []"
  by (induction cs) simp_all

lemma admit_sockets_fields:
  "admit_sockets x m requested existing operation plan = Inr plan'
     \<Longrightarrow> cp_operations plan' = cp_operations plan \<and> cp_used plan' = cp_used plan"
  by (auto simp: admit_sockets_def rbind_eq_Inr)

lemma plan_run_fields:
  assumes "plan_run x requested service_id options m plan = Inr plan'"
  shows "\<exists>spec. cp_operations plan' = cp_operations plan @ [RunContainer m spec (po_skip_health_monitor options)]
    \<and> cp_used plan' = cp_used plan"
  using assms
  by (auto simp: plan_run_def rbind_eq_Inr add_operation_def dest!: admit_sockets_fields)

lemma plan_replace_fields:
  assumes "plan_replace x requested service_id options m container plan = Inr plan'"
  shows "\<exists>r. cp_operations plan' = cp_operations plan @ [ReplaceContainer r]
    \<and> rep_machine_id r = m \<and> rep_old_container_id r = co_container_id container
    \<and> cp_used plan' = cp_used plan"
  using assms
  by (auto simp: plan_replace_def rbind_eq_Inr add_operation_def dest!: admit_sockets_fields)

lemma index_containers_get:
  "bt_get (index_containers current) c = Some container
     \<Longrightarrow> container \<in> set current \<and> co_container_id container = c"
  by (auto simp: index_containers_def bt_get_extend split: option.splits dest!: map_of_SomeD)

lemma index_containers_found:
  assumes "c \<in> co_container_id ` set current"
  shows "bt_get (index_containers current) c \<noteq> None"
  using assms
  by (auto simp: index_containers_def bt_get_extend map_of_eq_None_iff image_image split: option.splits)

text \<open>What one choice adds to the plan.\<close>

definition exchanged :: "replica_choice \<Rightarrow> (machine_id \<times> container_id) list" where
  "exchanged choice =
     (case ch_action choice of Exchange c _ \<Rightarrow> [(ch_machine_id choice, c)] | _ \<Rightarrow> [])"

definition used_by :: "replica_choice list \<Rightarrow> container_id list" where
  "used_by choices = List.map_filter (\<lambda>choice. choice_container (ch_action choice)) choices"

lemma plan_choice_fields:
  assumes "plan_choice x requested service_id options (index_containers current) choice plan = Inr plan'"
  shows "set (cp_used plan') = set (cp_used plan) \<union> set_option (choice_container (ch_action choice))
    \<and> run_count (cp_operations plan') = run_count (cp_operations plan) + of_bool (ch_action choice = Start_New)
    \<and> removed (cp_operations plan') = removed (cp_operations plan)
    \<and> replaced (cp_operations plan') = replaced (cp_operations plan) @ exchanged choice"
proof (cases "ch_action choice")
  case (Keep c)
  then show ?thesis
    using assms by (auto simp: plan_choice_def Let_def use_container_def choice_container_def exchanged_def)
next
  case (Exchange c pre_stops)
  let ?start = "fold (free_host_ports (ch_machine_id choice)) pre_stops (use_container c
    (plan\<lparr> cp_placement := occupy (ch_machine_id choice) (cp_placement plan) \<rparr>))"
  obtain container where container: "bt_get (index_containers current) c = Some container" and
    "plan_replace x requested service_id options (ch_machine_id choice) container ?start = Inr plan'"
    using assms Exchange by (auto simp: plan_choice_def Let_def rbind_eq_Inr expect_eq_Inr)
  from plan_replace_fields [OF this(2)] obtain r where
    "cp_operations plan' = cp_operations ?start @ [ReplaceContainer r]"
    "rep_machine_id r = ch_machine_id choice" "rep_old_container_id r = c" "cp_used plan' = cp_used ?start"
    using index_containers_get [OF container] by auto
  then show ?thesis
    using Exchange by (simp add: fold_free_host_ports use_container_def choice_container_def exchanged_def)
next
  case Start_New
  then have "plan_run x requested service_id options (ch_machine_id choice)
      (plan\<lparr> cp_placement := occupy (ch_machine_id choice) (cp_placement plan) \<rparr>) = Inr plan'"
    using assms by (simp add: plan_choice_def Let_def)
  from plan_run_fields [OF this] show ?thesis
    using Start_New by (auto simp: choice_container_def exchanged_def)
qed

lemma plan_choices_fields:
  assumes "rfold (plan_choice x requested service_id options (index_containers current)) choices
      \<lparr> cp_placement = placement, cp_used = [], cp_operations = [] \<rparr> = Inr plan"
  shows "set (cp_used plan) = set (used_by choices)
    \<and> run_count (cp_operations plan) + length (used_by choices) = length choices
    \<and> removed (cp_operations plan) = []
    \<and> replaced (cp_operations plan) = concat (map exchanged choices)"
proof (rule rfold_invariant_prefix [OF assms])
  fix pre choice post s t
  assume IH: "set (cp_used s) = set (used_by pre) \<and> run_count (cp_operations s) + length (used_by pre) = length pre
      \<and> removed (cp_operations s) = [] \<and> replaced (cp_operations s) = concat (map exchanged pre)"
    and step: "plan_choice x requested service_id options (index_containers current) choice s = Inr t"
  have "used_by (pre @ [choice]) = used_by pre
      @ (case choice_container (ch_action choice) of None \<Rightarrow> [] | Some c \<Rightarrow> [c])"
    by (auto simp: used_by_def map_filter_append List.map_filter_simps split: option.splits)
  moreover have "choice_container (ch_action choice) = None \<longleftrightarrow> ch_action choice = Start_New"
    by (auto simp: choice_container_def split: replica_action.splits)
  ultimately show "set (cp_used t) = set (used_by (pre @ [choice]))
      \<and> run_count (cp_operations t) + length (used_by (pre @ [choice])) = length (pre @ [choice])
      \<and> removed (cp_operations t) = [] \<and> replaced (cp_operations t) = concat (map exchanged (pre @ [choice]))"
    using plan_choice_fields [OF step] IH by (auto split: option.splits)
qed (simp add: used_by_def List.map_filter_simps)

lemma remove_unused_fields:
  "cp_operations (remove_unused current plan) = cp_operations plan
     @ map (\<lambda>c. RemoveContainer (co_machine_id c) (co_container_id c))
         (filter (\<lambda>c. co_container_id c \<notin> set (cp_used plan)) current)"
proof -
  have "cp_operations (fold remove_container current plan) = cp_operations plan
     @ map (\<lambda>c. RemoveContainer (co_machine_id c) (co_container_id c))
         (filter (\<lambda>c. co_container_id c \<notin> set (cp_used plan)) current)"
    by (induction current arbitrary: plan) (auto simp: remove_container_def)
  then show ?thesis
    by (simp add: remove_unused_def)
qed

lemma removals_count [simp]:
  "run_count (map (\<lambda>c. RemoveContainer (co_machine_id c) (co_container_id c)) cs) = 0"
  "removed (map (\<lambda>c. RemoveContainer (co_machine_id c) (co_container_id c)) cs) = map location cs"
  "replaced (map (\<lambda>c. RemoveContainer (co_machine_id c) (co_container_id c)) cs) = []"
  by (induction cs) (simp_all add: location_def)

lemma used_by_choice_ids:
  assumes "distinct (concat (map choice_ids choices))"
  shows "distinct (used_by choices) \<and> set (used_by choices) \<subseteq> (\<Union>choice \<in> set choices. set (choice_ids choice))"
  using assms
proof (induction choices)
  case (Cons choice choices)
  have "set (used_by [choice]) \<subseteq> set (choice_ids choice)"
    by (auto simp: used_by_def List.map_filter_simps choice_container_def choice_ids_def
        split: replica_action.splits)
  moreover have "used_by (choice # choices) = used_by [choice] @ used_by choices" "distinct (used_by [choice])"
    by (auto simp: used_by_def List.map_filter_simps split: option.splits)
  ultimately show ?case
    using Cons by fastforce
qed (simp add: used_by_def List.map_filter_simps)

lemma length_unused:
  assumes "distinct (map f xs)" and "distinct ys" and "set ys \<subseteq> f ` set xs"
  shows "length (filter (\<lambda>a. f a \<notin> set ys) xs) + length ys = length xs"
proof -
  have "set (map f (filter (\<lambda>a. f a \<in> set ys) xs)) = set ys"
    using assms(3) by auto
  moreover have "distinct (map f (filter (\<lambda>a. f a \<in> set ys) xs))"
    using assms(1) by (simp add: distinct_map_filter)
  ultimately have "length (filter (\<lambda>a. f a \<in> set ys) xs) = length ys"
    using assms(2) by (metis distinct_card length_map)
  then show ?thesis
    using sum_length_filter_compl [of "\<lambda>a. f a \<in> set ys" xs] by simp
qed

lemma exchanged_used:
  "snd ` set (concat (map exchanged choices)) \<subseteq> set (used_by choices)"
  by (force simp: used_by_def List.map_filter_def exchanged_def choice_container_def
      split: replica_action.splits)

lemma plan_replicated_reserved:
  assumes "plan_replicated x service_id current (requested, machines) admission placement options
      = Inr (operations, hook, placement')"
    and "admitted_reservation x requested current machines admission placement options
      = Inr (reservation, start)"
    and ok: "reservation_ok requested current (map (\<lambda>machine. m_id (mo_machine machine)) machines) reservation"
    and ids: "distinct (map co_container_id current)"
  shows "rq_mode requested = Replicated replicas \<longrightarrow>
      run_count operations + length current = replicas + length (removed operations)"
    and "set (removed operations) \<subseteq> location ` set current"
    and "set (replaced operations) \<subseteq> location ` set current"
    and "set (removed operations) \<inter> set (replaced operations) = {}"
    and "distinct (removed operations)"
proof -
  let ?choices = "rr_choices reservation"
  obtain plan where
    loop: "rfold (plan_choice x requested service_id options (index_containers current)) ?choices
      \<lparr> cp_placement = start, cp_used = [], cp_operations = [] \<rparr> = Inr plan" and
    operations: "operations = cp_operations (remove_unused current plan)"
    using assms(1,2) by (auto simp: plan_replicated_def rbind_eq_Inr Let_def)
  let ?unused = "filter (\<lambda>c. co_container_id c \<notin> set (used_by ?choices)) current"
  note fields = plan_choices_fields [OF loop]
  have removed: "removed operations = map location ?unused"
    and replaced: "replaced operations = concat (map exchanged ?choices)"
    and runs: "run_count operations + length (used_by ?choices) = length ?choices"
    using fields by (simp_all add: operations remove_unused_fields)
  have choice: "set (choice_ids choice) \<subseteq> co_container_id ` set (on_machine current (ch_machine_id choice))"
    if "choice \<in> set ?choices" for choice
    using that ok by (simp add: reservation_ok_def)
  have used: "distinct (used_by ?choices)" "set (used_by ?choices) \<subseteq> co_container_id ` set current"
    using used_by_choice_ids [of ?choices] ok choice by (auto simp: reservation_ok_def on_machine_def) blast
  show "rq_mode requested = Replicated replicas \<longrightarrow>
      run_count operations + length current = replicas + length (removed operations)"
    using length_unused [OF ids used] runs ok by (auto simp: removed reservation_ok_def)
  show "set (removed operations) \<subseteq> location ` set current"
    by (auto simp: removed)
  have "(m, c) \<in> location ` set current" if "(m, c) \<in> set (exchanged choice)" "choice \<in> set ?choices" for m c choice
    using that choice [OF that(2)]
    by (force simp: exchanged_def choice_ids_def location_def on_machine_def split: replica_action.splits)
  then show "set (replaced operations) \<subseteq> location ` set current"
    by (auto simp: replaced)
  show "set (removed operations) \<inter> set (replaced operations) = {}"
    using exchanged_used [of ?choices] by (fastforce simp: removed replaced location_def)
  have "map co_container_id ?unused = map snd (map location ?unused)"
    by (simp add: location_def)
  moreover have "distinct (map co_container_id ?unused)"
    using ids by (simp add: distinct_map_filter)
  ultimately show "distinct (removed operations)"
    unfolding removed by (metis distinct_map)
qed

section \<open>Claims\<close>

text \<open>For the examples: two replicas that publish a host port, two Machines with ten free
  endpoints each, and a container that runs an older image on the first one.\<close>

definition example_web :: requested_service_spec where
  "example_web = example_spec ''web'' (Replicated 2) [Host_Port Bind_All 80 8080 Tcp]"

definition example_old :: container_observation where
  "example_old = example_observation ''c1'' ''m1'' 0
     ((example_resolved ''web'' (Replicated 1) [])\<lparr> rs_container := example_container ''old'' \<rparr>)"

definition example_machines :: "machine_observation list" where
  "example_machines = [machine_observation_new (example_machine ''m1'' ''one'') Up,
     machine_observation_new (example_machine ''m2'' ''two'') Up]"

definition example_placement :: placement_state where
  "example_placement =
     \<lparr> ps_occupancy = [], ps_capacity = Some [(''m1'', 10), (''m2'', 10)],
       ps_sockets = [(''m1'', Some ''c1'', [])], ps_reservations = [] \<rparr>"

text \<open>
  Claim C37. A selection of replicas has one choice per wanted replica, each on a candidate Machine;
  it keeps, replaces or stops no observed container twice, and only containers that are on the
  chosen Machine; and it takes from the endpoint budget of every Machine exactly one endpoint per
  new container and one for the hook.
\<close>

theorem select_replicated_exact:
  assumes "select_replicated x requested current machines occupancy (capacity, sockets) error options
      = Inr (reservation, capacity', sockets')"
    and "distinct (map co_container_id current)"
  shows "reservation_ok requested current machines reservation
    \<and> ledger budget_free capacity capacity'
        (selection_charges (rr_choices reservation) (rr_hook_machine reservation))"
  using select_replicated_sound [OF assms] .

theorem select_replicated_exact_witness:
  "\<exists>r c s. select_replicated example_ext example_web [example_old] [''m1'', ''m2''] []
       (ps_capacity example_placement, ps_sockets example_placement) InsufficientCapacity plan_options_default
       = Inr (r, c, s)
     \<and> reservation_ok example_web [example_old] [''m1'', ''m2''] r
     \<and> ledger budget_free (ps_capacity example_placement) c
         (selection_charges (rr_choices r) (rr_hook_machine r))"
proof -
  have "is_ok (select_replicated example_ext example_web [example_old] [''m1'', ''m2''] []
      (ps_capacity example_placement, ps_sockets example_placement) InsufficientCapacity plan_options_default)"
    by code_simp
  then obtain r c s where selection: "select_replicated example_ext example_web [example_old] [''m1'', ''m2''] []
      (ps_capacity example_placement, ps_sockets example_placement) InsufficientCapacity plan_options_default
      = Inr (r, c, s)"
    by (auto simp: is_ok_iff)
  have "distinct (map co_container_id [example_old])"
    by simp
  from select_replicated_exact [OF selection this] selection show ?thesis
    by blast
qed


lemma example_plan:
  "is_ok (plan_replicated example_ext ''sid'' [example_old] (example_web, example_machines)
     (Admission_Pending InsufficientCapacity) example_placement plan_options_default)"
  by code_simp




end
