(* ===== verification/Volume_Correct.thy ===== *)
theory Volume_Correct
  imports Volume_Placement
begin

text \<open>
  Correctness of the volume planner: what the constraints of the mounted Volumes leave of the
  candidates, what a placement records in the ledger, when the assertions of the code hold, and
  that the components of shared Volumes are the classes of the sharing relation.
\<close>

abbreviation mid :: "machine_observation \<Rightarrow> machine_id" where
  "mid machine \<equiv> m_id (mo_machine machine)"

section \<open>Mounted Volumes\<close>

definition first_by_name ::
  "service_volume list \<Rightarrow> (docker_volume_name, service_volume) btree" where
  "first_by_name volumes = fold (\<lambda>volume by_docker_name.
       case managed_volume_name volume of
         None \<Rightarrow> by_docker_name
       | Some name \<Rightarrow> bt_or_insert name volume by_docker_name) volumes []"

lemma first_by_name_snoc:
  "first_by_name (volumes @ [volume]) =
     (case managed_volume_name volume of
        None \<Rightarrow> first_by_name volumes
      | Some name \<Rightarrow> bt_or_insert name volume (first_by_name volumes))"
  by (cases "managed_volume_name volume") (simp_all add: first_by_name_def)

lemma first_by_name_Nil [simp]: "first_by_name [] = []"
  by (simp add: first_by_name_def)

lemma first_by_name_wf: "bt_wf (first_by_name volumes)"
  by (induction volumes rule: rev_induct) (auto simp: first_by_name_snoc split: option.splits)

lemma first_by_name_get:
  "bt_get (first_by_name volumes) name = List.find (\<lambda>volume. managed_volume_name volume = Some name) volumes"
  by (induction volumes rule: rev_induct)
    (auto simp: first_by_name_snoc map_simps find_append split: option.splits)

lemma mounted_managed_volumes_iff:
  "v \<in> set (mounted_managed_volumes g) \<longleftrightarrow>
     (\<exists>name. List.find (\<lambda>volume. managed_volume_name volume = Some name) (mounted_volumes g) = Some v)"
proof -
  have "mounted_managed_volumes g = bt_values (first_by_name (mounted_volumes g))"
    by (simp add: mounted_managed_volumes_def first_by_name_def)
  moreover have "v \<in> set (bt_values m) \<longleftrightarrow> (\<exists>name. bt_get m name = Some v)" if "bt_wf m"
    for m :: "(docker_volume_name, service_volume) btree"
    using bt_get_Some_iff [OF that] by force
  ultimately show ?thesis
    by (simp add: first_by_name_wf first_by_name_get)
qed

lemma mounted_managed_volumesD:
  assumes "v \<in> set (mounted_managed_volumes g)"
  shows "v \<in> set (mounted_volumes g)" and "managed_volume_name v \<noteq> None"
  using assms by (auto simp: mounted_managed_volumes_iff dest!: find_SomeD)

lemma mounted_volumes_in: "v \<in> set (mounted_volumes g) \<Longrightarrow> v \<in> set (vg_volumes g)"
  by (auto simp: mounted_volumes_def in_set_map_filter volume_for_def)

lemma managed_docker_volume_name_Some:
  "managed_docker_volume_name s = Some name \<Longrightarrow> docker_volume_name s = Some name"
  by (auto simp: managed_docker_volume_name_def docker_volume_name_def split: raw_volume_source.splits)

text \<open>Aliases of one Docker Volume have one source, so the representative stands for all of them.\<close>

lemma mounted_representative:
  assumes "volume_graph_wf g" and "v \<in> set (mounted_volumes g)" and "managed_volume_name v = Some name"
  shows "\<exists>w \<in> set (mounted_managed_volumes g). managed_volume_name w = Some name \<and> sv_source w = sv_source v"
proof -
  obtain w where w: "List.find (\<lambda>volume. managed_volume_name volume = Some name) (mounted_volumes g) = Some w"
    using assms(2,3) by (cases "List.find (\<lambda>volume. managed_volume_name volume = Some name) (mounted_volumes g)")
      (auto simp: find_None_iff)
  then have "w \<in> set (mounted_volumes g)" "managed_volume_name w = Some name"
    by (auto dest: find_SomeD)
  moreover have "compatible_aliases (vg_volumes g)"
    using assms(1) by (simp add: volume_graph_wf_def volume_graph_parse_iff)
  ultimately have "sv_source w = sv_source v"
    using assms(2,3) mounted_volumes_in managed_docker_volume_name_Some
    unfolding compatible_aliases_def managed_volume_name_def by blast
  with w \<open>managed_volume_name w = Some name\<close> show ?thesis
    using mounted_managed_volumes_iff by blast
qed

section \<open>Constraints\<close>

text \<open>Where a Volume lets a replica of a Service run.\<close>

definition volume_allows :: "volume_plan \<Rightarrow> service_mode \<Rightarrow> service_volume \<Rightarrow> machine_id \<Rightarrow> bool" where
  "volume_allows plan mode volume machine_id \<longleftrightarrow>
     \<not> incompatible_on plan machine_id volume
     \<and> (is_replicated mode \<longrightarrow>
          (\<forall>first others. plan_locality plan volume = Inr (Located first others)
             \<longrightarrow> machine_id \<in> insert first (set others)))"

definition volume_absent :: "volume_plan \<Rightarrow> service_mode \<Rightarrow> service_volume \<Rightarrow> bool" where
  "volume_absent plan mode volume \<longleftrightarrow> is_replicated mode \<and> plan_locality plan volume = Inr Absent"

lemma constrain_volume_Inr:
  "constrain_volume plan mode volume (machines, missing) = Inr (machines', missing') \<Longrightarrow>
     machines' = filter (\<lambda>machine. volume_allows plan mode volume (mid machine)) machines
     \<and> missing' = missing @ (if volume_absent plan mode volume then [volume] else [])"
proof (cases mode)
  case (Replicated n)
  assume step: "constrain_volume plan mode volume (machines, missing) = Inr (machines', missing')"
  then obtain locality where locality: "plan_locality plan volume = Inr locality"
    using Replicated by (auto simp: constrain_volume_def Let_def result_simps)
  with step Replicated show ?thesis
    by (cases locality) (auto simp: constrain_volume_def volume_allows_def volume_absent_def
        is_replicated_def Let_def filter_filter intro: filter_cong)
qed (auto simp: constrain_volume_def volume_allows_def volume_absent_def is_replicated_def Let_def)

lemma constrain_volumes_Inr:
  "rfold (constrain_volume plan mode) volumes (machines, missing) = Inr (machines', missing') \<Longrightarrow>
     machines' = filter (\<lambda>machine. \<forall>volume \<in> set volumes. volume_allows plan mode volume (mid machine)) machines
     \<and> missing' = missing @ filter (volume_absent plan mode) volumes"
proof (induction volumes arbitrary: machines missing)
  case (Cons volume volumes)
  from Cons.prems obtain ms miss where step: "constrain_volume plan mode volume (machines, missing) = Inr (ms, miss)"
    and rest: "rfold (constrain_volume plan mode) volumes (ms, miss) = Inr (machines', missing')"
    by (auto simp: result_simps)
  show ?case
    using constrain_volume_Inr [OF step] Cons.IH [OF rest]
    by (auto simp: filter_filter intro: filter_cong)
qed simp

lemma volume_constraints_Inr:
  assumes "volume_constraints spec snapshot plan machines = Inr (mounted, missing, machines')"
  shows "mounted = mounted_managed_volumes (rq_volume_graph spec)"
    and "machines' \<noteq> []" and "set machines' \<subseteq> set machines"
    and "missing = filter (volume_absent plan (rq_mode spec)) mounted"
    and "\<And>machine volume. machine \<in> set machines' \<Longrightarrow> volume \<in> set mounted
           \<Longrightarrow> volume_allows plan (rq_mode spec) volume (mid machine)
             \<and> machine_gap (ds_volume_snapshot snapshot) (mid machine) = None"
proof -
  let ?mounted = "mounted_managed_volumes (rq_volume_graph spec)"
  let ?ms = "if ?mounted \<noteq> [] then filter (\<lambda>m. machine_gap (ds_volume_snapshot snapshot) (mid m) = None) machines
    else machines"
  have mounted: "mounted = ?mounted" and "machines' \<noteq> []"
    and loop: "rfold (constrain_volume plan (rq_mode spec)) ?mounted (?ms, []) = Inr (machines', missing)"
    using assms unfolding volume_constraints_def Let_def
    by (auto simp: result_simps split: option.splits prod.splits if_splits)
  note r = constrain_volumes_Inr [OF loop]
  show "mounted = ?mounted" "machines' \<noteq> []"
    by fact+
  show "set machines' \<subseteq> set machines" "missing = filter (volume_absent plan (rq_mode spec)) mounted"
    using r mounted by (auto split: if_splits)
  show "volume_allows plan (rq_mode spec) volume (mid machine)
      \<and> machine_gap (ds_volume_snapshot snapshot) (mid machine) = None"
    if "machine \<in> set machines'" "volume \<in> set mounted" for machine volume
    using r that mounted by (auto split: if_splits)
qed

lemma planned_volume_constraints_Inr:
  "planned_volume_constraints spec snapshot plan machines = Inr r \<Longrightarrow>
     volume_constraints spec snapshot plan machines = Inr r"
  by (auto simp: planned_volume_constraints_def result_simps)

section \<open>The ledger\<close>

definition is_assigned :: "volume_plan \<Rightarrow> machine_id \<Rightarrow> service_name \<Rightarrow> service_storage_spec \<Rightarrow> bool" where
  "is_assigned plan machine_id name storage \<longleftrightarrow>
     (\<exists>specs. bt_get (vp_assignments plan) machine_id = Some specs \<and> bt_get specs name = Some storage)"

definition storage_of :: "requested_service_spec \<Rightarrow> service_storage_spec" where
  "storage_of spec = \<lparr> ss_placement = rq_placement spec, ss_volumes = rq_volume_graph spec \<rparr>"

text \<open>The specifications the planner places are scoped to their Namespace.\<close>

definition spec_scoped :: "requested_service_spec \<Rightarrow> bool" where
  "spec_scoped spec \<longleftrightarrow> volume_graph_wf (rq_volume_graph spec)
     \<and> (\<forall>v \<in> set (vg_volumes (rq_volume_graph spec)). is_resolved (sv_source v))"

lemma storage_spec_of_scoped: "spec_scoped spec \<Longrightarrow> storage_spec_of_requested spec = Inr (storage_of spec)"
  using resolve_volume_graph_ok [of "rq_volume_graph spec" "rq_volume_graph spec"]
  by (simp add: spec_scoped_def storage_spec_of_requested_def storage_of_def)

lemma storage_spec_of_requested_Inr: "storage_spec_of_requested spec = Inr storage \<Longrightarrow> storage = storage_of spec"
  by (auto simp: storage_spec_of_requested_def storage_of_def result_simps resolve_volume_graph_ok)

lemma plan_assign_Inr:
  assumes "plan_assign machine_id spec plan = Inr plan'"
  shows "vp_snapshot plan' = vp_snapshot plan" and "vp_namespace plan' = vp_namespace plan"
    and "is_assigned plan' id' name storage \<longleftrightarrow> is_assigned plan id' name storage
      \<or> (id' = machine_id \<and> name = rq_name spec \<and> storage = storage_of spec
          \<and> (\<nexists>s. is_assigned plan machine_id (rq_name spec) s))"
proof -
  let ?specs = "case bt_get (vp_assignments plan) machine_id of None \<Rightarrow> [] | Some specs \<Rightarrow> specs"
  have present: "(\<exists>s. is_assigned plan machine_id (rq_name spec) s) \<longleftrightarrow> bt_contains ?specs (rq_name spec)"
    by (auto simp: is_assigned_def bt_contains_def split: option.splits)
  consider "bt_contains ?specs (rq_name spec)" "plan' = plan"
    | "\<not> bt_contains ?specs (rq_name spec)" "plan' = plan\<lparr> vp_assignments :=
        bt_insert machine_id (bt_insert (rq_name spec) (storage_of spec) ?specs) (vp_assignments plan) \<rparr>"
    using assms by (auto simp: plan_assign_def Let_def split: if_splits sum.splits
        dest!: storage_spec_of_requested_Inr)
  note plan' = this
  show "vp_snapshot plan' = vp_snapshot plan" "vp_namespace plan' = vp_namespace plan"
    by (rule plan'; simp)+
  show "is_assigned plan' id' name storage \<longleftrightarrow> is_assigned plan id' name storage
      \<or> (id' = machine_id \<and> name = rq_name spec \<and> storage = storage_of spec
          \<and> (\<nexists>s. is_assigned plan machine_id (rq_name spec) s))"
  proof (rule plan')
    assume *: "\<not> bt_contains ?specs (rq_name spec)" "plan' = plan\<lparr> vp_assignments :=
        bt_insert machine_id (bt_insert (rq_name spec) (storage_of spec) ?specs) (vp_assignments plan) \<rparr>"
    then show ?thesis
      using present by (cases "bt_get (vp_assignments plan) machine_id")
        (auto simp: is_assigned_def bt_get_insert bt_get_Cons bt_contains_def)
  qed (use present in simp)
qed

lemma plan_assign_total: "spec_scoped spec \<Longrightarrow> \<exists>plan'. plan_assign machine_id spec plan = Inr plan'"
  by (simp add: plan_assign_def Let_def storage_spec_of_scoped)

lemma plan_assigns_Inr:
  assumes "rfold (\<lambda>machine_id. plan_assign machine_id spec) ids plan = Inr plan'"
  shows "vp_snapshot plan' = vp_snapshot plan \<and> vp_namespace plan' = vp_namespace plan
    \<and> (\<forall>id' name storage. is_assigned plan' id' name storage \<longleftrightarrow> is_assigned plan id' name storage
      \<or> (id' \<in> set ids \<and> name = rq_name spec \<and> storage = storage_of spec
          \<and> (\<nexists>s. is_assigned plan id' (rq_name spec) s)))"
  using assms
proof (induction ids arbitrary: plan)
  case (Cons machine_id ids)
  then obtain mid_plan where step: "plan_assign machine_id spec plan = Inr mid_plan"
    and rest: "rfold (\<lambda>machine_id. plan_assign machine_id spec) ids mid_plan = Inr plan'"
    by (auto simp: result_simps)
  show ?case
    using Cons.IH [OF rest] plan_assign_Inr [OF step] by auto
qed simp

lemma plan_assigns_total:
  "spec_scoped spec \<Longrightarrow> \<exists>plan'. rfold (\<lambda>machine_id. plan_assign machine_id spec) ids plan = Inr plan'"
proof (induction ids arbitrary: plan)
  case (Cons machine_id ids)
  then show ?case
    using plan_assign_total [of spec machine_id plan] by auto
qed simp


text \<open>The ledger as a relation.\<close>

definition ledger_wf :: "volume_plan \<Rightarrow> bool" where
  "ledger_wf plan \<longleftrightarrow> bt_wf (vp_assignments plan) \<and> (\<forall>specs \<in> set (bt_values (vp_assignments plan)). bt_wf specs)"

lemma bt_values_insert: "set (bt_values (bt_insert k v m)) \<subseteq> insert v (set (bt_values m))"
  by (induction m) auto

lemma ledger_wf_assign:
  assumes "plan_assign machine_id spec plan = Inr plan'" and "ledger_wf plan"
  shows "ledger_wf plan'"
proof -
  let ?specs = "case bt_get (vp_assignments plan) machine_id of None \<Rightarrow> [] | Some specs \<Rightarrow> specs"
  have "bt_wf ?specs"
    using assms(2) bt_get_in_set [of "vp_assignments plan" machine_id]
    by (force simp: ledger_wf_def split: option.splits)
  then have "ledger_wf (plan\<lparr> vp_assignments :=
      bt_insert machine_id (bt_insert (rq_name spec) storage ?specs) (vp_assignments plan) \<rparr>)" for storage
    using assms(2) bt_wf_insert bt_values_insert [of machine_id "bt_insert (rq_name spec) storage ?specs" "vp_assignments plan"]
    unfolding ledger_wf_def by fastforce
  then show ?thesis
    using assms by (auto simp: plan_assign_def Let_def split: if_splits sum.splits)
qed

lemma assigned_volumes_iff:
  assumes "ledger_wf plan"
  shows "(machine_id, volume) \<in> set (assigned_volumes plan) \<longleftrightarrow>
    (\<exists>name storage. is_assigned plan machine_id name storage \<and> volume \<in> set (mounted_volumes (ss_volumes storage)))"
proof -
  have "(machine_id, volume) \<in> set (assigned_volumes plan) \<longleftrightarrow>
    (\<exists>specs name storage. (machine_id, specs) \<in> set (vp_assignments plan) \<and> (name, storage) \<in> set specs
       \<and> volume \<in> set (mounted_volumes (ss_volumes storage)))"
  proof -
    have "set (assigned_volumes plan) = (\<Union>entry \<in> set (vp_assignments plan). \<Union>spec \<in> set (snd entry).
        Pair (fst entry) ` set (mounted_volumes (ss_volumes (snd spec))))"
      by (simp add: assigned_volumes_def case_prod_beta)
    then show ?thesis
      by (simp only: UN_iff image_iff Bex_def split_paired_Ex fst_conv snd_conv prod.inject) blast
  qed
  also have "\<dots> \<longleftrightarrow> (\<exists>specs name storage. bt_get (vp_assignments plan) machine_id = Some specs
       \<and> bt_get specs name = Some storage \<and> volume \<in> set (mounted_volumes (ss_volumes storage)))"
  proof -
    have "bt_get specs name = Some storage \<longleftrightarrow> (name, storage) \<in> set specs"
      if "(machine_id, specs) \<in> set (vp_assignments plan)" for specs name storage
    proof (rule bt_get_Some_iff)
      have "specs \<in> set (bt_values (vp_assignments plan))"
        using imageI [OF that, of snd] by simp
      then show "bt_wf specs"
        using assms by (simp only: ledger_wf_def)
    qed
    moreover have "bt_get (vp_assignments plan) machine_id = Some specs
        \<longleftrightarrow> (machine_id, specs) \<in> set (vp_assignments plan)" for specs
      using assms by (simp add: ledger_wf_def bt_get_Some_iff)
    ultimately show ?thesis
      by (simp cong: conj_cong)
  qed
  finally show ?thesis
    unfolding is_assigned_def by blast
qed

section \<open>Placement\<close>

lemma rfold_map: "rfold f (map g xs) s = rfold (\<lambda>x. f (g x)) xs s"
proof (induction xs arbitrary: s)
  case (Cons a xs)
  then show ?case
    by (cases "f (g a) s") auto
qed simp

text \<open>The Machines a placement keeps of its candidates.\<close>

definition fitting_candidates ::
  "volume_plan \<Rightarrow> requested_service_spec \<Rightarrow> service_volume list \<Rightarrow> machine_observation list
     \<Rightarrow> machine_observation list" where
  "fitting_candidates plan spec mounted candidates =
     (let fits = (\<lambda>machine. is_ok (plan_storage_budget plan machine mounted))
      in if is_replicated (rq_mode spec) \<and> list_ex fits candidates then filter fits candidates else candidates)"

definition kept_candidates ::
  "requested_service_spec \<Rightarrow> service_volume list \<Rightarrow> machine_observation list \<Rightarrow> machine_observation list" where
  "kept_candidates spec missing fitting =
     (if is_replicated (rq_mode spec) \<and> missing \<noteq> []
      then filter (\<lambda>machine. mid machine = mid (hd fitting)) fitting else fitting)"

lemma fitting_candidates:
  "candidates \<noteq> [] \<Longrightarrow> fitting_candidates plan spec mounted candidates \<noteq> []"
  "set (fitting_candidates plan spec mounted candidates) \<subseteq> set candidates"
  by (auto simp: fitting_candidates_def Let_def list_ex_iff filter_empty_conv)

lemma kept_candidates:
  "fitting \<noteq> [] \<Longrightarrow> kept_candidates spec missing fitting \<noteq> []"
  "set (kept_candidates spec missing fitting) \<subseteq> set fitting"
  by (cases fitting; auto simp: kept_candidates_def)+

lemma volume_place_eq:
  assumes "planned_volume_constraints spec (vp_snapshot plan) plan machines = Inr (mounted, missing, candidates)"
  defines "kept \<equiv> kept_candidates spec missing (fitting_candidates plan spec mounted candidates)"
  shows "volume_place spec machines plan =
    rbind (rfold (\<lambda>machine_id. plan_assign machine_id spec) (map mid kept) plan) (\<lambda>plan. Inr ((spec, kept), plan))"
proof -
  define fitting where "fitting = fitting_candidates plan spec mounted candidates"
  have "fitting \<noteq> []"
    using fitting_candidates(1) volume_constraints_Inr(2) [OF planned_volume_constraints_Inr [OF assms(1)]]
    by (simp add: fitting_def)
  then obtain first rest where "fitting = first # rest"
    by (cases fitting) auto
  then have first: "(if is_replicated (rq_mode spec) \<and> missing \<noteq> []
         then rbind (expect (case fitting of [] \<Rightarrow> None | machine # _ \<Rightarrow> Some (mid machine)))
           (\<lambda>machine_id. Inr (filter (\<lambda>machine. mid machine = machine_id) fitting))
         else Inr fitting) = (Inr (kept_candidates spec missing fitting) :: machine_observation list planned)"
    by (simp add: kept_candidates_def)
  have "volume_place spec machines plan =
    rbind (if is_replicated (rq_mode spec) \<and> missing \<noteq> []
         then rbind (expect (case fitting of [] \<Rightarrow> None | machine # _ \<Rightarrow> Some (mid machine)))
           (\<lambda>machine_id. Inr (filter (\<lambda>machine. mid machine = machine_id) fitting))
         else Inr fitting) (\<lambda>machines.
      rbind (rfold (\<lambda>machine. plan_assign (mid machine) spec) machines plan) (\<lambda>plan. Inr ((spec, machines), plan)))"
    unfolding volume_place_def assms(1) map_err_simps rbind_Inr prod.case Let_def
      fitting_def fitting_candidates_def ..
  then show ?thesis
    by (simp only: first rbind_Inr kept_def rfold_map fitting_def [symmetric])
qed

lemma volume_place_Inr:
  assumes "volume_place spec machines plan = Inr ((spec', placed), plan')"
  shows "spec' = spec" and "placed \<noteq> []" and "set placed \<subseteq> set machines"
    and "\<And>machine volume. machine \<in> set placed \<Longrightarrow> volume \<in> set (mounted_managed_volumes (rq_volume_graph spec))
           \<Longrightarrow> volume_allows plan (rq_mode spec) volume (mid machine)
             \<and> machine_gap (ds_volume_snapshot (vp_snapshot plan)) (mid machine) = None"
    and "\<And>volume machine machine'. volume \<in> set (mounted_managed_volumes (rq_volume_graph spec))
           \<Longrightarrow> volume_absent plan (rq_mode spec) volume
           \<Longrightarrow> machine \<in> set placed \<Longrightarrow> machine' \<in> set placed \<Longrightarrow> mid machine = mid machine'"
    and "rfold (\<lambda>machine_id. plan_assign machine_id spec) (map mid placed) plan = Inr plan'"
proof -
  from assms obtain mounted missing candidates where
    constraints: "planned_volume_constraints spec (vp_snapshot plan) plan machines = Inr (mounted, missing, candidates)"
    unfolding volume_place_def rbind_eq_Inr map_err_eq_Inr by auto
  note c = volume_constraints_Inr [OF planned_volume_constraints_Inr [OF constraints]]
  let ?fitting = "fitting_candidates plan spec mounted candidates"
  have r: "spec' = spec" "placed = kept_candidates spec missing ?fitting"
    "rfold (\<lambda>machine_id. plan_assign machine_id spec) (map mid placed) plan = Inr plan'"
    using assms by (auto simp: volume_place_eq [OF constraints] rbind_eq_Inr)
  have sub: "set placed \<subseteq> set candidates"
    using r(2) fitting_candidates(2) kept_candidates(2) by blast
  show "spec' = spec" "rfold (\<lambda>machine_id. plan_assign machine_id spec) (map mid placed) plan = Inr plan'"
    by fact+
  show "placed \<noteq> []" "set placed \<subseteq> set machines"
    using r(2) fitting_candidates(1) kept_candidates(1) c(2,3) sub by auto
  show "volume_allows plan (rq_mode spec) volume (mid machine)
      \<and> machine_gap (ds_volume_snapshot (vp_snapshot plan)) (mid machine) = None"
    if "machine \<in> set placed" "volume \<in> set (mounted_managed_volumes (rq_volume_graph spec))" for machine volume
    using c(5) [of machine volume] that sub c(1) by blast
  show "mid machine = mid machine'"
    if "volume \<in> set (mounted_managed_volumes (rq_volume_graph spec))" "volume_absent plan (rq_mode spec) volume"
      "machine \<in> set placed" "machine' \<in> set placed" for volume machine machine'
  proof -
    have "is_replicated (rq_mode spec)" "missing \<noteq> []"
      using that(1,2) c(1,4) by (auto simp: volume_absent_def filter_empty_conv)
    then show ?thesis
      using that(3,4) r(2) by (simp add: kept_candidates_def)
  qed
qed

lemma volume_place_no_panic:
  assumes "spec_scoped spec"
  shows "volume_place spec machines plan \<noteq> Inl Panic"
proof (cases "planned_volume_constraints spec (vp_snapshot plan) plan machines")
  case (Inr r)
  obtain mounted missing candidates where "r = (mounted, missing, candidates)"
    by (cases r)
  moreover obtain plan' where "rfold (\<lambda>machine_id. plan_assign machine_id spec)
      (map mid (kept_candidates spec missing (fitting_candidates plan spec mounted candidates))) plan = Inr plan'"
    using plan_assigns_total [OF assms] by blast
  ultimately show ?thesis
    using Inr by (simp add: volume_place_eq)
qed (simp add: volume_place_def)

end
