(* ===== verification/Plan_Operations.thy ===== *)
theory Plan_Operations
  imports Planning Placement_Correct Volume_Correct
begin

text \<open>
  What the plan of one Service may contain: containers of its specification on the chosen Machines,
  and stops, replacements and removals of its own observed containers only. The section on panics
  shows that the \<open>expect\<close>s of the container planners hold for scoped specifications.
\<close>

section \<open>Operations of one Service\<close>

text \<open>A resolved specification of the requested Service.\<close>

definition starts :: "requested_service_spec \<Rightarrow> resolved_service_spec \<Rightarrow> bool" where
  "starts requested spec \<longleftrightarrow> rs_name spec = rq_name requested \<and> rs_mount_graph spec = rq_mount_graph requested
     \<and> rs_container spec = rq_container requested \<and> rs_ports spec = rq_ports requested"

fun service_op ::
  "requested_service_spec \<Rightarrow> container_observation list \<Rightarrow> container_observation list \<Rightarrow> machine_id set
     \<Rightarrow> deploy_operation \<Rightarrow> bool" where
  "service_op requested current hooks machines (RunContainer m spec _) \<longleftrightarrow> m \<in> machines \<and> starts requested spec"
| "service_op requested current hooks machines (ReplaceContainer r) \<longleftrightarrow>
     rep_machine_id r \<in> machines \<and> starts requested (rep_spec r)
     \<and> (rep_machine_id r, rep_old_container_id r) \<in> location ` set current"
| "service_op requested current hooks machines (StopContainer m c purpose) \<longleftrightarrow>
     purpose = FreeHostPorts \<and> (m, c) \<in> location ` set current"
| "service_op requested current hooks machines (RemoveContainer m c) \<longleftrightarrow> (m, c) \<in> location ` set current"
| "service_op requested current hooks machines (StopHook m c) \<longleftrightarrow> (m, c) \<in> location ` set hooks"
| "service_op requested current hooks machines (RunHook m spec old) \<longleftrightarrow>
     m \<in> machines \<and> starts requested spec \<and> set old = location ` set hooks"
| "service_op _ _ _ _ _ \<longleftrightarrow> False"

lemma resolve_starts: "resolve requested service_id order = Inr spec \<Longrightarrow> starts requested spec"
  by (auto simp: resolve_def starts_def split: sum.splits dest: to_resolved_fields)

lemma plan_run_ops:
  assumes "plan_run x requested service_id options m plan = Inr plan'"
  shows "\<exists>spec. cp_operations plan' = cp_operations plan @ [RunContainer m spec (po_skip_health_monitor options)]
    \<and> starts requested spec"
  using assms
  by (auto simp: plan_run_def rbind_eq_Inr add_operation_def dest!: admit_sockets_fields resolve_starts)

lemma plan_replace_ops:
  assumes "plan_replace x requested service_id options m container plan = Inr plan'"
  shows "\<exists>r. cp_operations plan' = cp_operations plan @ [ReplaceContainer r]
    \<and> rep_machine_id r = m \<and> rep_old_container_id r = co_container_id container \<and> starts requested (rep_spec r)"
  using assms
  by (auto simp: plan_replace_def rbind_eq_Inr add_operation_def dest!: admit_sockets_fields resolve_starts)

abbreviation service_ops ::
  "requested_service_spec \<Rightarrow> container_observation list \<Rightarrow> container_observation list \<Rightarrow> machine_id set
     \<Rightarrow> deploy_operation list \<Rightarrow> bool" where
  "service_ops requested current hooks machines operations \<equiv>
     \<forall>operation \<in> set operations. service_op requested current hooks machines operation"

lemma location_on_machine:
  "c \<in> co_container_id ` set (on_machine current m) \<Longrightarrow> (m, c) \<in> location ` set current"
  by (force simp: on_machine_def location_def)

lemma plan_choice_ops:
  assumes "plan_choice x requested service_id options (index_containers current) choice plan = Inr plan'"
    and "service_ops requested current hooks machines (cp_operations plan)"
    and "ch_machine_id choice \<in> machines"
    and "set (choice_ids choice) \<subseteq> co_container_id ` set (on_machine current (ch_machine_id choice))"
  shows "service_ops requested current hooks machines (cp_operations plan')"
proof (cases "ch_action choice")
  case (Keep c)
  then show ?thesis
    using assms(1,2) by (auto simp: plan_choice_def Let_def use_container_def)
next
  case (Exchange c pre_stops)
  let ?start = "fold (free_host_ports (ch_machine_id choice)) pre_stops (use_container c
    (plan\<lparr> cp_placement := occupy (ch_machine_id choice) (cp_placement plan) \<rparr>))"
  obtain container where container: "bt_get (index_containers current) c = Some container" and
    "plan_replace x requested service_id options (ch_machine_id choice) container ?start = Inr plan'"
    using assms(1) Exchange by (auto simp: plan_choice_def Let_def rbind_eq_Inr expect_eq_Inr)
  from plan_replace_ops [OF this(2)] obtain r where
    r: "cp_operations plan' = cp_operations ?start @ [ReplaceContainer r]" "starts requested (rep_spec r)"
    "rep_machine_id r = ch_machine_id choice" "rep_old_container_id r = c"
    using index_containers_get [OF container] by auto
  have ids: "d \<in> set (c # pre_stops) \<Longrightarrow> (ch_machine_id choice, d) \<in> location ` set current" for d
    using assms(4) Exchange by (intro location_on_machine) (auto simp: choice_ids_def)
  then show ?thesis
    using r assms(2,3) ids [of c] by (auto simp: fold_free_host_ports use_container_def)
next
  case Start_New
  then have "plan_run x requested service_id options (ch_machine_id choice)
      (plan\<lparr> cp_placement := occupy (ch_machine_id choice) (cp_placement plan) \<rparr>) = Inr plan'"
    using assms(1) by (simp add: plan_choice_def Let_def)
  from plan_run_ops [OF this] show ?thesis
    using assms(2,3) by auto
qed

lemma remove_unused_ops:
  assumes "service_ops requested current hooks machines (cp_operations plan)"
  shows "service_ops requested current hooks machines (cp_operations (remove_unused current plan))"
  using assms by (auto simp: remove_unused_fields location_def)

lemma plan_replicated_ops:
  assumes "plan_replicated x service_id current (requested, placed) admission placement options
      = Inr (operations, hook, placement')"
    and "admitted_reservation x requested current placed admission placement options = Inr (reservation, start)"
    and "\<forall>choice \<in> set (rr_choices reservation). ch_machine_id choice \<in> machines
       \<and> set (choice_ids choice) \<subseteq> co_container_id ` set (on_machine current (ch_machine_id choice))"
  shows "service_ops requested current hooks machines operations"
proof -
  obtain plan where
    loop: "rfold (plan_choice x requested service_id options (index_containers current)) (rr_choices reservation)
      \<lparr> cp_placement = start, cp_used = [], cp_operations = [] \<rparr> = Inr plan" and
    operations: "operations = cp_operations (remove_unused current plan)"
    using assms(1,2) by (auto simp: plan_replicated_def rbind_eq_Inr Let_def)
  have "service_ops requested current hooks machines (cp_operations plan)"
    using assms(3) plan_choice_ops
    by (intro rfold_invariant [OF loop, where P = "\<lambda>plan. service_ops requested current hooks machines (cp_operations plan)"])
      (simp, blast)
  then show ?thesis
    unfolding operations by (rule remove_unused_ops)
qed

lemma find_on_machine:
  assumes "List.find P (on_machine current m) = Some c"
  shows "c \<in> set current" "co_machine_id c = m" "P c" "(m, co_container_id c) \<in> location ` set current"
proof -
  show "c \<in> set current" "co_machine_id c = m" "P c"
    using find_SomeD [OF assms] by (auto simp: on_machine_def)
  then show "(m, co_container_id c) \<in> location ` set current"
    by (force simp: location_def)
qed

lemma plan_global_machine_ops:
  assumes "plan_global_machine x service_id current requested options hook error m plan = Inr plan'"
    and ops: "service_ops requested current hooks machines (cp_operations plan)" and "m \<in> machines"
  shows "service_ops requested current hooks machines (cp_operations plan')"
proof -
  let ?plan = "plan\<lparr> cp_placement := occupy m (cp_placement plan) \<rparr>" and ?here = "on_machine current m"
  note step = assms(1) [unfolded plan_global_machine_def Let_def]
  have reserve: "cp_operations plan1 = cp_operations p" if "reserve_endpoint error m d p = Inr plan1" for d p plan1
    using that by (auto simp: reserve_endpoint_def rbind_eq_Inr split: if_splits)
  show ?thesis
  proof (cases "List.find (\<lambda>c. is_up_to_date x c requested options) ?here")
    case (Some kept)
    then show ?thesis
      using step ops by (auto simp: use_container_def)
  next
    case stale: None
    show ?thesis
    proof (cases "List.find (\<lambda>c. reusable_global c requested options) ?here")
      case (Some container)
      have "starts requested (co_resolved_spec container)"
        using find_on_machine(3) [OF Some] by (auto simp: reusable_global_def dest: resolve_starts)
      then show ?thesis
        using step stale Some ops assms(3)
        by (auto simp: rbind_eq_Inr add_operation_def use_container_def dest!: admit_sockets_fields)
    next
      case fresh: None
      show ?thesis
      proof (cases "List.find (\<lambda>c. is_active_runtime (co_runtime c)) ?here")
        case (Some container)
        define stops where "stops = map co_container_id (filter (\<lambda>other.
            co_container_id other \<noteq> co_container_id container \<and> is_active_runtime (co_runtime other)
            \<and> ports_conflict x (rs_ports (co_resolved_spec other)) (rq_ports requested)) ?here)"
        obtain plan1 where
          reserved: "reserve_endpoint error m (demand_for_operation Replace (hook = Some m)) ?plan = Inr plan1"
          and replaced: "plan_replace x requested service_id options m container
            (fold (free_host_ports m) stops (use_container (co_container_id container) plan1)) = Inr plan'"
          using step stale fresh Some by (simp add: rbind_eq_Inr stops_def) blast
        have stops: "c \<in> set stops \<Longrightarrow> (m, c) \<in> location ` set current" for c
          by (rule location_on_machine) (auto simp: stops_def)
        show ?thesis
          using plan_replace_ops [OF replaced] find_on_machine(4) [OF Some] reserve [OF reserved] ops assms(3) stops
          by (auto simp: fold_free_host_ports use_container_def)
      next
        case None
        with step stale fresh obtain plan1 where
          reserved: "reserve_endpoint error m (demand_for_operation Create (hook = Some m)) ?plan = Inr plan1"
          and run: "plan_run x requested service_id options m plan1 = Inr plan'"
          by (simp add: rbind_eq_Inr) blast
        show ?thesis
          using plan_run_ops [OF run] reserve [OF reserved] ops assms(3) by auto
      qed
    qed
  qed
qed

lemma plan_global_ops:
  assumes "plan_global x service_id current hooks' (requested, placed) placement options
      = Inr (operations, hook, placement')"
  shows "service_ops requested current hooks (mid ` set placed) operations"
proof -
  obtain start error plan where
    loop: "rfold (plan_global_machine x service_id current requested options hook error)
      (map mid placed) \<lparr> cp_placement = start, cp_used = [], cp_operations = [] \<rparr> = Inr plan" and
    operations: "operations = cp_operations (remove_unused current plan)"
    using assms by (auto simp: plan_global_def rbind_eq_Inr Let_def split: if_splits)
  have "service_ops requested current hooks (mid ` set placed) (cp_operations plan)"
    using plan_global_machine_ops
    by (intro rfold_invariant [OF loop,
          where P = "\<lambda>plan. service_ops requested current hooks (mid ` set placed) (cp_operations plan)"])
      (simp, fastforce)
  then show ?thesis
    unfolding operations by (rule remove_unused_ops)
qed


section \<open>Panics of the container planners\<close>

lemma rfold_not_Inl:
  "(\<And>a s. a \<in> set xs \<Longrightarrow> f a s \<noteq> Inl e) \<Longrightarrow> rfold f xs s \<noteq> Inl e"
  by (induction xs arbitrary: s) (auto simp: rbind_eq_Inl)

lemma resolve_scoped: "spec_scoped requested \<Longrightarrow> resolve requested service_id order \<noteq> Inl Panic"
  using resolve_total [of requested service_id order] by (auto simp: spec_scoped_def)

lemma admit_sockets_no_panic: "admit_sockets x m requested existing operation plan \<noteq> Inl Panic"
  using sockets.admit_no_panic by (auto simp: admit_sockets_def rbind_eq_Inl)

lemma plan_run_no_panic:
  "spec_scoped requested \<Longrightarrow> plan_run x requested service_id options m plan \<noteq> Inl Panic"
  by (auto simp: plan_run_def rbind_eq_Inl admit_sockets_no_panic resolve_scoped)

lemma plan_replace_no_panic:
  "spec_scoped requested \<Longrightarrow> plan_replace x requested service_id options m container plan \<noteq> Inl Panic"
  by (auto simp: plan_replace_def rbind_eq_Inl admit_sockets_no_panic resolve_scoped)

lemma plan_choice_no_panic:
  assumes "spec_scoped requested" and "set (choice_ids choice) \<subseteq> co_container_id ` set current"
  shows "plan_choice x requested service_id options (index_containers current) choice plan \<noteq> Inl Panic"
  using assms(2) index_containers_found [of _ current]
  by (auto simp: plan_choice_def Let_def rbind_eq_Inl expect_eq_Inl choice_ids_def
      plan_run_no_panic [OF assms(1)] plan_replace_no_panic [OF assms(1)] split: replica_action.splits)

lemma admitted_reservation_no_panic:
  "admitted_reservation x requested current machines admission placement options \<noteq> Inl Panic"
  using select_replicated_no_panic
  by (auto simp: admitted_reservation_def rbind_eq_Inl split: capacity_admission.splits)

lemma on_machine_ids: "co_container_id ` set (on_machine current m) \<subseteq> co_container_id ` set current"
  by (auto simp: on_machine_def)

lemma plan_replicated_no_panic:
  assumes "spec_scoped requested"
    and "\<And>reservation start. admitted_reservation x requested current placed admission placement options
        = Inr (reservation, start)
      \<Longrightarrow> \<forall>choice \<in> set (rr_choices reservation).
        set (choice_ids choice) \<subseteq> co_container_id ` set (on_machine current (ch_machine_id choice))"
  shows "plan_replicated x service_id current (requested, placed) admission placement options \<noteq> Inl Panic"
proof (cases "admitted_reservation x requested current placed admission placement options")
  case (Inr r)
  obtain reservation start where r: "r = (reservation, start)"
    by (cases r)
  have "rfold (plan_choice x requested service_id options (index_containers current)) (rr_choices reservation) s
      \<noteq> Inl Panic" for s
    using assms(2) [OF Inr [unfolded r]] on_machine_ids [of current]
    by (intro rfold_not_Inl plan_choice_no_panic [OF assms(1)]) blast
  with Inr r show ?thesis
    by (auto simp: plan_replicated_def rbind_eq_Inl Let_def)
qed (use admitted_reservation_no_panic in \<open>fastforce simp: plan_replicated_def\<close>)

lemma reserve_endpoint_no_panic:
  "reserve_endpoint error m (demand_for_operation operation hook) plan \<noteq> Inl Panic"
proof -
  obtain b where "budget_reserve (ps_capacity (cp_placement plan)) m (demand_for_operation operation hook)
      = Inr (budget_fits (ps_capacity (cp_placement plan)) m (ed_peak (demand_for_operation operation hook)), b)"
    using capacity.reserve_total [OF demand_wf_for_operation] by blast
  then show ?thesis
    by (simp add: reserve_endpoint_def)
qed

lemma plan_global_no_panic:
  assumes "spec_scoped requested"
  shows "plan_global x service_id current hooks (requested, placed) placement options \<noteq> Inl Panic"
proof -
  have "plan_global_machine x service_id current requested options hook error m plan \<noteq> Inl Panic" for hook error m plan
    unfolding plan_global_machine_def Let_def
    by (auto simp: rbind_eq_Inl admit_sockets_no_panic reserve_endpoint_no_panic
        plan_run_no_panic [OF assms] plan_replace_no_panic [OF assms] split: option.splits)
  then have "rfold (plan_global_machine x service_id current requested options hook error) ids plan \<noteq> Inl Panic"
    for hook error ids plan
    by (intro rfold_not_Inl)
  then show ?thesis
    by (auto simp: plan_global_def Let_def rbind_eq_Inl)
qed

section \<open>Reservations through the container planners\<close>

abbreviation kept_reservations :: "container_plan \<Rightarrow> (service_name, replicated_reservation) btree" where
  "kept_reservations plan \<equiv> ps_reservations (cp_placement plan)"

lemma container_plan_reservations [simp]:
  "kept_reservations (plan\<lparr> cp_placement := occupy m (cp_placement plan) \<rparr>) = kept_reservations plan"
  "kept_reservations (use_container c plan) = kept_reservations plan"
  "kept_reservations (free_host_ports m c plan) = kept_reservations plan"
  "kept_reservations (remove_container container plan) = kept_reservations plan"
  "ps_reservations (state_release_hooks placement hooks) = ps_reservations placement"
  "ps_reservations (occupy m placement) = ps_reservations placement"
  by (simp_all add: occupy_def use_container_def free_host_ports_def remove_container_def state_release_hooks_def)

lemma fold_reservations [simp]:
  "kept_reservations (fold (free_host_ports m) cs plan) = kept_reservations plan"
  "kept_reservations (remove_unused current plan) = kept_reservations plan"
proof -
  show "kept_reservations (fold (free_host_ports m) cs plan) = kept_reservations plan"
    by (induction cs arbitrary: plan) simp_all
  show "kept_reservations (remove_unused current plan) = kept_reservations plan"
    unfolding remove_unused_def by (induction current arbitrary: plan) simp_all
qed

lemma admit_sockets_reservations:
  "admit_sockets x m requested existing operation plan = Inr plan' \<Longrightarrow> kept_reservations plan' = kept_reservations plan"
  by (auto simp: admit_sockets_def rbind_eq_Inr)

lemma plan_run_reservations:
  "plan_run x requested service_id options m plan = Inr plan' \<Longrightarrow> kept_reservations plan' = kept_reservations plan"
  by (auto simp: plan_run_def rbind_eq_Inr add_operation_def dest: admit_sockets_reservations)

lemma plan_replace_reservations:
  "plan_replace x requested service_id options m container plan = Inr plan'
     \<Longrightarrow> kept_reservations plan' = kept_reservations plan"
  by (auto simp: plan_replace_def rbind_eq_Inr add_operation_def dest: admit_sockets_reservations)

lemma reserve_endpoint_reservations:
  "reserve_endpoint error m demand plan = Inr plan' \<Longrightarrow> kept_reservations plan' = kept_reservations plan"
  by (auto simp: reserve_endpoint_def rbind_eq_Inr split: if_splits)

lemma plan_choice_reservations:
  "plan_choice x requested service_id options by_id choice plan = Inr plan'
     \<Longrightarrow> kept_reservations plan' = kept_reservations plan"
  by (auto simp: plan_choice_def Let_def rbind_eq_Inr split: replica_action.splits
      dest!: plan_run_reservations plan_replace_reservations)

lemma plan_global_machine_reservations:
  "plan_global_machine x service_id current requested options hook error m plan = Inr plan'
     \<Longrightarrow> kept_reservations plan' = kept_reservations plan"
  unfolding plan_global_machine_def Let_def
  by (auto simp: rbind_eq_Inr add_operation_def split: option.splits
      dest!: plan_run_reservations plan_replace_reservations reserve_endpoint_reservations admit_sockets_reservations)

lemma plan_replicated_reservations:
  assumes "plan_replicated x service_id current (requested, placed) admission placement options
      = Inr (operations, hook, placement')"
  shows "ps_reservations placement' = ps_reservations placement"
proof -
  obtain reservation start plan where
    admitted: "admitted_reservation x requested current placed admission placement options = Inr (reservation, start)"
    and loop: "rfold (plan_choice x requested service_id options (index_containers current)) (rr_choices reservation)
      \<lparr> cp_placement = start, cp_used = [], cp_operations = [] \<rparr> = Inr plan"
    and placement': "placement' = cp_placement (remove_unused current plan)"
    using assms by (auto simp: plan_replicated_def rbind_eq_Inr Let_def)
  have "kept_reservations plan = ps_reservations start"
    by (rule rfold_invariant [OF loop]) (auto dest: plan_choice_reservations)
  moreover have "ps_reservations start = ps_reservations placement"
    using admitted by (auto simp: admitted_reservation_def rbind_eq_Inr split: capacity_admission.splits)
  ultimately show ?thesis
    by (simp add: placement')
qed

lemma plan_global_reservations:
  assumes "plan_global x service_id current hooks (requested, placed) placement options
      = Inr (operations, hook, placement')"
  shows "ps_reservations placement' = ps_reservations placement"
proof -
  obtain start error plan where
    loop: "rfold (plan_global_machine x service_id current requested options hook error)
      (map mid placed) \<lparr> cp_placement = start, cp_used = [], cp_operations = [] \<rparr> = Inr plan"
    and start: "ps_reservations start = ps_reservations placement"
    and placement': "placement' = cp_placement (remove_unused current plan)"
    using assms by (auto simp: plan_global_def rbind_eq_Inr Let_def split: if_splits)
  have "kept_reservations plan = ps_reservations start"
    by (rule rfold_invariant [OF loop]) (auto dest: plan_global_machine_reservations)
  then show ?thesis
    using start by (simp add: placement')
qed

end
