(* ===== verification/Shared_Volumes.thy ===== *)
theory Shared_Volumes
  imports Plan_Operations
begin

text \<open>
  The Volumes that several Services share. Their components are the classes of the sharing
  relation; the reservation of a component puts all its Services on one Machine and records them
  in the ledger, without a panic.
\<close>

section \<open>Components\<close>

definition volume_services :: "docker_volume_name \<times> managed_volume_use list \<Rightarrow> service_name set" where
  "volume_services volume = mu_service_name ` set (snd volume)"

lemma shares_a_service_iff:
  "shares_a_service component uses \<longleftrightarrow>
     (\<exists>volume \<in> set component. volume_services volume \<inter> mu_service_name ` set uses \<noteq> {})"
  unfolding shares_a_service_def volume_services_def list_ex_iff case_prod_beta by (simp add: disjoint_iff image_iff) metis

text \<open>Two Volumes are connected through Volumes of a set when a chain of common Services leads from
  one to the other.\<close>

definition sharing ::
  "(docker_volume_name \<times> managed_volume_use list) set
     \<Rightarrow> ((docker_volume_name \<times> managed_volume_use list) \<times> (docker_volume_name \<times> managed_volume_use list)) set" where
  "sharing V = {(v, w). v \<in> V \<and> w \<in> V \<and> volume_services v \<inter> volume_services w \<noteq> {}}"

lemma sharing_mono: "V \<subseteq> W \<Longrightarrow> (sharing V)\<^sup>* \<subseteq> (sharing W)\<^sup>*"
  by (intro rtrancl_mono) (auto simp: sharing_def)

lemma remove_first_None: "remove_first P xs = None \<longleftrightarrow> (\<forall>a \<in> set xs. \<not> P a)"
  by (induction xs) auto

lemma remove_first_Some: "remove_first P xs = Some (a, ys) \<Longrightarrow> P a \<and> a \<in> set xs"
  by (induction xs arbitrary: ys) (auto split: if_splits)

lemma grow_component_spec:
  assumes "grow_component component remaining = (component', remaining')"
    and "component \<noteq> []" and "\<forall>v \<in> set component. (hd component, v) \<in> (sharing (set component))\<^sup>*"
  shows "hd component' = hd component \<and> component' \<noteq> []
    \<and> (\<forall>v \<in> set component'. (hd component', v) \<in> (sharing (set component'))\<^sup>*)
    \<and> (\<forall>v \<in> set component'. \<forall>w \<in> set remaining'. volume_services v \<inter> volume_services w = {})"
  using assms
proof (induction component remaining rule: grow_component.induct)
  case (1 component remaining)
  show ?case
  proof (cases "remove_first (\<lambda>(_, uses). shares_a_service component uses) remaining")
    case None
    then have "component' = component" "remaining' = remaining"
      using 1(2) by (simp_all add: grow_component.simps [of component remaining])
    then show ?thesis
      using None 1(3,4) by (fastforce simp: remove_first_None shares_a_service_iff volume_services_def)
  next
    case (Some r)
    obtain volume rest where r: "r = (volume, rest)"
      by (cases r)
    have rec: "grow_component (component @ [volume]) rest = (component', remaining')"
      using 1(2) Some r by (simp add: grow_component.simps [of component remaining])
    obtain v where v: "v \<in> set component" "volume_services v \<inter> volume_services volume \<noteq> {}"
      using remove_first_Some [OF Some [unfolded r]]
      by (auto simp: shares_a_service_iff volume_services_def [of volume] split: prod.splits)
    let ?S = "sharing (set (component @ [volume]))"
    have old: "\<forall>w \<in> set component. (hd component, w) \<in> ?S\<^sup>*"
      using 1(4) sharing_mono [of "set component" "set (component @ [volume])"] by auto
    moreover have "(v, volume) \<in> ?S"
      using v by (auto simp: sharing_def)
    ultimately have "(hd component, volume) \<in> ?S\<^sup>*"
      using v(1) by (blast intro: rtrancl_into_rtrancl)
    with old have "\<forall>w \<in> set (component @ [volume]). (hd (component @ [volume]), w) \<in> ?S\<^sup>*"
      using 1(3) by simp
    moreover have "hd (component @ [volume]) = hd component"
      using 1(3) by simp
    ultimately show ?thesis
      using 1(1) [OF Some r [symmetric] rec] by (metis snoc_eq_iff_butlast)
  qed
qed

text \<open>Components that partition a list of Volumes into the classes of the sharing relation.\<close>

definition sharing_classes :: "shared_volume_component \<Rightarrow> shared_volume_component list \<Rightarrow> bool" where
  "sharing_classes volumes components \<longleftrightarrow>
     mset (concat components) = mset volumes
     \<and> (\<forall>component \<in> set components. component \<noteq> []
          \<and> (\<forall>v \<in> set component. (hd component, v) \<in> (sharing (set component))\<^sup>*))
     \<and> sorted_wrt (\<lambda>component component'. \<forall>v \<in> set component. \<forall>w \<in> set component'.
          volume_services v \<inter> volume_services w = {}) components"

lemma component_loop_classes: "sharing_classes volumes (component_loop volumes)"
proof (induction volumes rule: component_loop.induct)
  case (2 volume remaining)
  obtain component rest where grow: "grow_component [volume] remaining = (component, rest)"
    by (cases "grow_component [volume] remaining")
  note spec = grow_component_spec [OF grow] and mset = grow_component_mset [OF grow]
  have IH: "sharing_classes rest (component_loop rest)"
    using 2 grow by simp
  then have "set (concat (component_loop rest)) = set rest"
    unfolding sharing_classes_def by (blast dest: mset_eq_setD)
  then have "\<forall>v \<in> set component. \<forall>c \<in> set (component_loop rest). \<forall>w \<in> set c. volume_services v \<inter> volume_services w = {}"
  proof (intro ballI)
    fix v c w
    assume "v \<in> set component" "c \<in> set (component_loop rest)" "w \<in> set c"
    moreover from this have "w \<in> set rest"
      using \<open>set (concat (component_loop rest)) = set rest\<close> [symmetric] by auto
    ultimately show "volume_services v \<inter> volume_services w = {}"
      using spec by simp
  qed
  moreover have "mset (concat (component # component_loop rest)) = mset (volume # remaining)"
    using IH mset by (simp add: sharing_classes_def)
  moreover have "component \<noteq> []" "\<forall>v \<in> set component. (hd component, v) \<in> (sharing (set component))\<^sup>*"
    using spec [simplified] by auto
  ultimately show ?case
    using IH grow by (simp add: sharing_classes_def)
qed (simp add: sharing_classes_def)

text \<open>
  Claim C22. The components of the shared Volumes are the classes of the sharing relation: every
  Volume that more than one Service mounts, none of them global, is in exactly one component; the
  Volumes of a component are connected by chains of common Services inside it; and Volumes of
  different components have no Service in common. So Services are placed together exactly when
  their data ties them together.
\<close>

theorem shared_components_classes:
  "sharing_classes (filter (\<lambda>(_, uses). 1 < length uses \<and> list_all (\<lambda>u. \<not> mu_global u) uses) volume_uses)
     (shared_volume_components volume_uses)"
  unfolding shared_volume_components_def by (rule component_loop_classes)

section \<open>Uses of Volumes\<close>

definition uses_wf :: "requested_service_spec list \<Rightarrow> volume_uses \<Rightarrow> bool" where
  "uses_wf requested volume_uses \<longleftrightarrow> (\<forall>uses \<in> set (bt_values volume_uses). \<forall>u \<in> set uses.
     mu_service u \<in> set requested \<and> mu_service_name u = rq_name (mu_service u))"

lemma uses_wf_update:
  assumes "uses_wf requested m" and "spec \<in> set requested"
  shows "uses_wf requested (bt_update_default name [] (add_use spec) m)"
proof -
  let ?old = "case bt_get m name of None \<Rightarrow> [] | Some uses \<Rightarrow> uses"
  let ?ok = "\<lambda>u. mu_service u \<in> set requested \<and> mu_service_name u = rq_name (mu_service u)"
  have old: "\<forall>u \<in> set ?old. ?ok u"
  proof (cases "bt_get m name")
    case (Some uses)
    then have "uses \<in> set (bt_values m)"
      using imageI [OF bt_get_in_set [OF Some], of snd] by simp
    then show ?thesis
      using assms(1) unfolding uses_wf_def Some option.case by blast
  qed simp
  have new: "\<forall>u \<in> set (add_use spec ?old). ?ok u"
    using old assms(2) by (simp add: add_use_def)
  show ?thesis
    unfolding uses_wf_def bt_update_default_def
  proof (intro ballI)
    fix uses u
    assume "uses \<in> set (bt_values (bt_insert name (add_use spec ?old) m))" and u: "u \<in> set uses"
    from subsetD [OF bt_values_insert this(1)] show "?ok u"
    proof
      assume "uses = add_use spec ?old"
      with u new show ?thesis
        by simp
    next
      assume "uses \<in> set (bt_values m)"
      with u assms(1) show ?thesis
        unfolding uses_wf_def by blast
    qed
  qed
qed

lemma managed_volume_uses_wf: "uses_wf requested (managed_volume_uses requested)"
proof -
  have inner: "uses_wf requested (fold (\<lambda>volume uses. case managed_volume_name volume of None \<Rightarrow> uses
      | Some name \<Rightarrow> bt_update_default name [] (add_use spec) uses) volumes m)"
    if "uses_wf requested m" "spec \<in> set requested" for spec volumes m
    using that by (induction volumes arbitrary: m) (auto intro: uses_wf_update split: option.splits)
  have "uses_wf requested (fold (\<lambda>spec. fold (\<lambda>volume uses. case managed_volume_name volume of None \<Rightarrow> uses
      | Some name \<Rightarrow> bt_update_default name [] (add_use spec) uses) (mounted_volumes (rq_volume_graph spec))) specs m)"
    if "uses_wf requested m" "set specs \<subseteq> set requested" for specs m
    using that by (induction specs arbitrary: m) (auto intro: inner)
  from this [of "[]" requested] show ?thesis
    by (simp add: managed_volume_uses_def uses_wf_def)
qed

text \<open>What the reservation relies on of a component.\<close>

definition component_wf :: "requested_service_spec list \<Rightarrow> shared_volume_component \<Rightarrow> bool" where
  "component_wf requested component \<longleftrightarrow> component \<noteq> [] \<and> (\<forall>(_, uses) \<in> set component. uses \<noteq> []
     \<and> (\<forall>u \<in> set uses. mu_service u \<in> set requested \<and> mu_service_name u = rq_name (mu_service u)))"

lemma shared_components_wf:
  assumes "component \<in> set (shared_volume_components (managed_volume_uses requested))"
  shows "component_wf requested component"
proof -
  let ?shared = "filter (\<lambda>(_, uses). 1 < length uses \<and> list_all (\<lambda>u. \<not> mu_global u) uses)
    (managed_volume_uses requested)"
  have component: "component \<in> set (component_loop ?shared)"
    using assms by (simp add: shared_volume_components_def)
  have "component \<noteq> []" "set (concat (component_loop ?shared)) = set ?shared"
    using component_loop_classes [of ?shared] component unfolding sharing_classes_def
    by (blast, blast dest: mset_eq_setD)
  moreover have "set component \<subseteq> set (concat (component_loop ?shared))"
    using component by auto
  ultimately have "component \<noteq> []" "set component \<subseteq> set ?shared"
    by simp_all
  then show ?thesis
    unfolding component_wf_def
  proof (intro conjI ballI)
    show "component \<noteq> []"
      by fact
    fix volume
    assume "volume \<in> set component"
    then have "volume \<in> set (managed_volume_uses requested)" "snd volume \<noteq> []"
      using \<open>set component \<subseteq> set ?shared\<close> by auto
    moreover from this have "snd volume \<in> set (bt_values (managed_volume_uses requested))"
      by simp
    ultimately show "case volume of (_, uses) \<Rightarrow> uses \<noteq> []
        \<and> (\<forall>u \<in> set uses. mu_service u \<in> set requested \<and> mu_service_name u = rq_name (mu_service u))"
      using managed_volume_uses_wf [of requested] unfolding uses_wf_def case_prod_beta by blast
  qed
qed


section \<open>Observed containers of a Service\<close>

definition observed_of ::
  "service_observation list \<Rightarrow> service_name \<Rightarrow> container_observation list \<times> container_observation list" where
  "observed_of services name =
     (case List.find (\<lambda>service. qs_name (so_identity service) = name) services of
        None \<Rightarrow> ([], []) | Some service \<Rightarrow> (so_containers service, so_hook_containers service))"

abbreviation containers_of :: "service_observation list \<Rightarrow> service_name \<Rightarrow> container_observation list" where
  "containers_of services name \<equiv> fst (observed_of services name)"

abbreviation hooks_of :: "service_observation list \<Rightarrow> service_name \<Rightarrow> container_observation list" where
  "hooks_of services name \<equiv> snd (observed_of services name)"

lemma find_cong: "(\<And>a. a \<in> set xs \<Longrightarrow> P a = Q a) \<Longrightarrow> List.find P xs = List.find Q xs"
  by (induction xs) auto

lemma services_in_namespace:
  assumes "service \<in> set (services_in snapshot namespace)"
  shows "qs_namespace (so_identity service) = namespace"
proof -
  let ?cs = "filter (\<lambda>container. co_namespace container = namespace) (ds_containers snapshot)"
  have "so_identity service \<in> set (map so_identity (derive_services ?cs))"
    using assms by (simp add: services_in_def)
  then have "so_identity service \<in> co_identity ` set ?cs"
    unfolding derive_services_identities add_observation_keys .
  then show ?thesis
    by (auto simp: co_identity_def)
qed

lemma find_service_by_name:
  "List.find (\<lambda>service. so_identity service = QualifiedService namespace name) (services_in snapshot namespace)
     = List.find (\<lambda>service. qs_name (so_identity service) = name) (services_in snapshot namespace)"
  using services_in_namespace by (intro find_cong) (auto simp: qualified_service.expand)

lemma services_in_member:
  assumes "service \<in> set (services_in snapshot namespace)"
  shows "so_containers service = filter (\<lambda>c. co_identity c = so_identity service \<and> co_kind c = ServiceContainer)
      (filter (\<lambda>c. co_namespace c = namespace) (ds_containers snapshot))"
    and "so_hook_containers service = filter (\<lambda>c. co_identity c = so_identity service \<and> co_kind c = PreDeployHook)
      (filter (\<lambda>c. co_namespace c = namespace) (ds_containers snapshot))"
  using derive_services_member(1,2) [of service] assms by (simp_all add: services_in_def service_of_def)

text \<open>The containers of a Service are the observed ones with its identity.\<close>

lemma observed_of_services_in:
  assumes "c \<in> set (containers_of (services_in snapshot namespace) name)
      \<or> c \<in> set (hooks_of (services_in snapshot namespace) name)"
  shows "c \<in> set (ds_containers snapshot)" and "co_identity c = QualifiedService namespace name"
proof -
  obtain service where service: "service \<in> set (services_in snapshot namespace)"
    "qs_name (so_identity service) = name" "c \<in> set (so_containers service) \<or> c \<in> set (so_hook_containers service)"
    using assms by (auto simp: observed_of_def split: option.splits dest: find_SomeD)
  then have "c \<in> set (ds_containers snapshot)" "co_identity c = so_identity service"
    using services_in_member [OF service(1)] by auto
  then show "c \<in> set (ds_containers snapshot)" "co_identity c = QualifiedService namespace name"
    using service(2) services_in_namespace [OF service(1)] by (auto simp: qualified_service.expand)
qed

lemma containers_of_distinct:
  assumes "distinct (map co_container_id (ds_containers snapshot))"
  shows "distinct (map co_container_id (containers_of (services_in snapshot namespace) name))"
proof (cases "List.find (\<lambda>service. qs_name (so_identity service) = name) (services_in snapshot namespace)")
  case (Some service)
  then have "service \<in> set (services_in snapshot namespace)"
    by auto
  then show ?thesis
    using assms Some by (simp add: observed_of_def services_in_member(1) distinct_map_filter)
qed (simp add: observed_of_def)

lemma observed_members_Inr:
  assumes "observed_members x requested namespace (services_in snapshot namespace) = Inr (service_id, current, hooks)"
  shows "current = containers_of (services_in snapshot namespace) (rq_name requested)"
    and "hooks = hooks_of (services_in snapshot namespace) (rq_name requested)"
  using assms unfolding observed_members_def find_service_by_name observed_of_def
  by (auto split: option.splits if_splits)

lemma observed_members_no_panic: "observed_members x requested namespace services \<noteq> Inl Panic"
  by (auto simp: observed_members_def split: option.splits)

section \<open>Reservations\<close>

text \<open>The choices of a reservation are on its anchor and about containers observed there.\<close>

definition anchored :: "service_observation list \<Rightarrow> service_name \<Rightarrow> machine_id \<Rightarrow> replicated_reservation \<Rightarrow> bool" where
  "anchored services name anchor reservation \<longleftrightarrow> (\<forall>choice \<in> set (rr_choices reservation).
     ch_machine_id choice = anchor
     \<and> set (choice_ids choice) \<subseteq> co_container_id ` set (on_machine (containers_of services name) anchor))"

definition ids_distinct :: "service_observation list \<Rightarrow> bool" where
  "ids_distinct services \<longleftrightarrow> (\<forall>name. distinct (map co_container_id (containers_of services name)))"

lemma reserve_service_anchored:
  assumes "reserve_service x anchor services options spec state = Inr state'" and "ids_distinct services"
  shows "\<exists>reservation. pr_reservations state' = bt_insert (rq_name spec) reservation (pr_reservations state)
    \<and> anchored services (rq_name spec) anchor reservation"
proof -
  let ?found = "List.find (\<lambda>service. qs_name (so_identity service) = rq_name spec) services"
  obtain reservation capacity sockets where
    demand: "reserve_replicated_service_demand x spec ?found anchor options (pr_capacity state, pr_sockets state)
      = Inr (reservation, capacity, sockets)"
    and state': "pr_reservations state' = bt_insert (rq_name spec) reservation (pr_reservations state)"
    using assms(1) by (auto simp: reserve_service_def rbind_eq_Inr)
  have current: "(case ?found of None \<Rightarrow> [] | Some service \<Rightarrow> so_containers service) = containers_of services (rq_name spec)"
    by (simp add: observed_of_def split: option.splits)
  obtain capacity1 capacity2 sockets2 where
    "select_replicated x spec (containers_of services (rq_name spec)) [anchor] [] (capacity1, pr_sockets state)
      (budget_error_for capacity1 [anchor]) options = Inr (reservation, capacity2, sockets2)"
    using demand unfolding reserve_replicated_service_demand_def Let_def current
    by (auto simp: rbind_eq_Inr)
  from select_replicated_sound [OF this] assms(2)
  have "reservation_ok spec (containers_of services (rq_name spec)) [anchor] reservation"
    by (auto simp: ids_distinct_def)
  then have "anchored services (rq_name spec) anchor reservation"
    by (auto simp: reservation_ok_def anchored_def)
  then show ?thesis
    using state' by blast
qed

lemma reserve_on_anchored:
  assumes "reserve_on x anchor specs services options state = Inr state'" and "ids_distinct services"
    and "bt_get (pr_reservations state') name = Some reservation"
  shows "bt_get (pr_reservations state) name = Some reservation
    \<or> (name \<in> rq_name ` set specs \<and> anchored services name anchor reservation)"
  using assms
proof (induction specs arbitrary: state)
  case (Cons spec specs)
  then obtain mid_state where step: "reserve_service x anchor services options spec state = Inr mid_state"
    and rest: "reserve_on x anchor specs services options mid_state = Inr state'"
    by (auto simp: reserve_on_def rbind_eq_Inr)
  show ?case
    using Cons.IH [OF rest Cons.prems(2,3)] reserve_service_anchored [OF step Cons.prems(2)]
    by (auto simp: bt_get_insert split: if_splits)
qed (simp add: reserve_on_def)

lemma reserve_on_no_panic: "reserve_on x anchor specs services options state \<noteq> Inl Panic"
proof -
  have "reserve_replicated_service_demand x spec observed anchor options budget \<noteq> Inl Panic" for spec observed budget
    using select_replicated_no_panic
    by (auto simp: reserve_replicated_service_demand_def Let_def rbind_eq_Inl)
  then have "reserve_service x anchor services options spec state \<noteq> Inl Panic" for spec state
    by (auto simp: reserve_service_def rbind_eq_Inl)
  then show ?thesis
    unfolding reserve_on_def by (intro rfold_not_Inl)
qed

lemma reserve_first_Inr:
  "reserve_first x specs services options state error ids = Inr (anchor, state') \<Longrightarrow>
     anchor \<in> set ids \<and> reserve_on x anchor specs services options state = Inr state'"
  by (induction x specs services options state error ids rule: reserve_first.induct)
    (auto split: sum.splits fault.splits)

lemma reserve_first_no_panic:
  "ids \<noteq> [] \<or> error \<noteq> None \<Longrightarrow> reserve_first x specs services options state error ids \<noteq> Inl Panic"
  by (induction x specs services options state error ids rule: reserve_first.induct)
    (auto simp: reserve_on_no_panic split: sum.splits fault.splits)

end
