(* ===== verification/Plan_Correct.thy ===== *)
theory Plan_Correct
  imports Shared_Volumes
begin

text \<open>
  The whole plan: the invariant of the planner's loop, that none of its assertions fails, and what
  a plan may do to observed containers and Volumes.
\<close>

section \<open>Anchors of shared Volumes\<close>

abbreviation snapshot_ids :: "deploy_snapshot \<Rightarrow> machine_id set" where
  "snapshot_ids snapshot \<equiv> mid ` set (ds_machines snapshot)"

text \<open>The Machines that may host a Service: up, accepting the work, matching the placement and able
  to store its Volumes.\<close>

definition hosts :: "deploy_snapshot \<Rightarrow> namespace \<Rightarrow> requested_service_spec \<Rightarrow> machine_id set" where
  "hosts snapshot namespace spec = mid ` set (filter (may_host spec namespace) (ds_machines snapshot))"

lemma hosts_subset: "hosts snapshot namespace spec \<subseteq> snapshot_ids snapshot"
  by (auto simp: hosts_def)

lemma eligible_machines_hosts:
  assumes "eligible_machines spec namespace snapshot options = Inr machines"
  shows "mid ` set machines = hosts snapshot namespace spec"
  using mset_eq_setD [OF conjunct1 [OF eligible_machines_Inr [OF assms]]] by (simp add: hosts_def)

lemma volume_eligible_machine_ids_Inr:
  assumes "volume_eligible_machine_ids spec snapshot plan options = Inr ids"
  shows "set ids \<subseteq> hosts snapshot (vp_namespace plan) spec"
proof -
  obtain machines mounted missing kept where
    *: "eligible_machines spec (vp_namespace plan) snapshot options = Inr machines"
    "planned_volume_constraints spec snapshot plan machines = Inr (mounted, missing, kept)"
    "ids = map mid kept"
    using assms by (auto simp: volume_eligible_machine_ids_def rbind_eq_Inr map_err_eq_Inr)
  show ?thesis
    using eligible_machines_hosts [OF *(1)] volume_constraints_Inr(3) [OF planned_volume_constraints_Inr [OF *(2)]] *(3)
    by auto
qed

lemma volume_eligible_no_panic: "volume_eligible_machine_ids spec snapshot plan options \<noteq> Inl Panic"
  by (auto simp: volume_eligible_machine_ids_def rbind_eq_Inl map_err_eq_Inl eligible_machines_no_panic)

lemma common_eligible_Inr:
  assumes "common_eligible services snapshot plan options = Inr ids"
  shows "services \<noteq> []" and "\<And>name spec. (name, spec) \<in> set services \<Longrightarrow> set ids \<subseteq> hosts snapshot (vp_namespace plan) spec"
proof -
  obtain first others eligible where services: "services = first # others" and
    first: "map_fault (service_error True (fst first)) (volume_eligible_machine_ids (snd first) snapshot plan options)
      = Inr eligible" and
    loop: "rfold (\<lambda>service eligible.
        rbind (case service of (service_name, service) \<Rightarrow> map_fault (service_error True service_name)
            (volume_eligible_machine_ids service snapshot plan options)) (\<lambda>other.
        Inr (filter (\<lambda>machine_id. machine_id \<in> set other) eligible))) others eligible = Inr ids"
    using assms by (cases services) (auto simp: common_eligible_def Let_def rbind_eq_Inr case_prod_beta)
  let ?P = "\<lambda>pre ids. \<forall>service \<in> set (first # pre). set ids \<subseteq> hosts snapshot (vp_namespace plan) (snd service)"
  have "?P others ids"
  proof (rule rfold_invariant_prefix [OF loop, where P = ?P])
    show "?P [] eligible"
      using first by (simp add: map_fault_eq_Inr volume_eligible_machine_ids_Inr)
  next
    fix pre service post s t
    assume P: "?P pre s" and step: "rbind (case service of (service_name, service) \<Rightarrow>
        map_fault (service_error True service_name) (volume_eligible_machine_ids service snapshot plan options)) (\<lambda>other.
      Inr (filter (\<lambda>machine_id. machine_id \<in> set other) s)) = Inr t"
    obtain other where other: "volume_eligible_machine_ids (snd service) snapshot plan options = Inr other"
      "t = filter (\<lambda>machine_id. machine_id \<in> set other) s"
      using step by (auto simp: rbind_eq_Inr map_fault_eq_Inr case_prod_beta)
    show "?P (pre @ [service]) t"
      using P volume_eligible_machine_ids_Inr [OF other(1)] by (auto simp: other(2))
  qed
  then have all: "\<forall>service \<in> set services. set ids \<subseteq> hosts snapshot (vp_namespace plan) (snd service)"
    by (simp add: services)
  show "services \<noteq> []"
    by (simp add: services)
  show "set ids \<subseteq> hosts snapshot (vp_namespace plan) spec" if "(name, spec) \<in> set services" for name spec
    using bspec [OF all that] by simp
qed

lemma common_eligible_ids:
  assumes "common_eligible services snapshot plan options = Inr ids"
  shows "set ids \<subseteq> snapshot_ids snapshot"
  using common_eligible_Inr [OF assms] hosts_subset by (cases services) force+

lemma common_eligible_no_panic:
  assumes "services \<noteq> []"
  shows "common_eligible services snapshot plan options \<noteq> Inl Panic"
proof -
  let ?step = "\<lambda>service eligible.
        rbind (case service of (service_name, service) \<Rightarrow> map_fault (service_error True service_name)
            (volume_eligible_machine_ids service snapshot plan options)) (\<lambda>other.
        Inr (filter (\<lambda>machine_id. machine_id \<in> set other) eligible))"
  have eligible: "map_fault (service_error True name) (volume_eligible_machine_ids service snapshot plan options)
      \<noteq> Inl Panic" for name service
    by (simp add: map_fault_Panic volume_eligible_no_panic)
  then have "rfold ?step others ids \<noteq> Inl Panic" for others ids
    by (intro rfold_not_Inl) (auto simp: rbind_eq_Inl case_prod_beta)
  with eligible assms show ?thesis
    by (cases services) (auto simp: common_eligible_def Let_def rbind_eq_Inl case_prod_beta)
qed

lemma plan_find_machine_ids:
  "plan_find_machine snapshot m \<noteq> None \<longleftrightarrow> m \<in> snapshot_ids snapshot"
  by (force simp: plan_find_machine_def find_None_iff)

lemma fitting_machines_Inr:
  assumes "fitting_machines snapshot plan volumes eligible = Inr fitting"
  shows "set fitting \<subseteq> set eligible"
  using assms unfolding fitting_machines_def
  by (rule rfold_invariant [where P = "\<lambda>fitting. set fitting \<subseteq> set eligible"])
    (auto simp: rbind_eq_Inr split: if_splits)

lemma fitting_machines_no_panic:
  "set eligible \<subseteq> snapshot_ids snapshot \<Longrightarrow> fitting_machines snapshot plan volumes eligible \<noteq> Inl Panic"
  unfolding fitting_machines_def using plan_find_machine_ids [of snapshot]
  by (intro rfold_not_Inl) (auto simp: rbind_eq_Inl expect_eq_Inl)

lemma bt_contains_collect: "bt_contains (bt_collect kvs) k \<longleftrightarrow> k \<in> fst ` set kvs"
proof -
  have "map_of (rev kvs) k = None \<longleftrightarrow> k \<notin> fst ` set kvs"
    by (simp add: map_of_eq_None_iff)
  then show ?thesis
    by (cases "map_of (rev kvs) k") (simp_all add: bt_contains_def bt_get_extend)
qed

lemma component_services_contains:
  "bt_contains (component_services component) name \<longleftrightarrow> (\<exists>volume \<in> set component. name \<in> volume_services volume)"
  by (auto simp: component_services_def bt_contains_collect image_image volume_services_def)

lemma component_services_Nil:
  assumes "component_wf requested component"
  shows "component_services component \<noteq> []"
proof -
  obtain volume rest where "component = volume # rest" "snd volume \<noteq> []"
    using assms by (cases component) (auto simp: component_wf_def)
  then have "bt_contains (component_services component) (mu_service_name (hd (snd volume)))"
    by (auto simp: component_services_contains volume_services_def)
  then show ?thesis
    by (auto simp: bt_contains_def)
qed

lemma shared_component_anchor_Inr:
  assumes "shared_component_anchor x component snapshot requested services plan options placement = Inr (anchor, placement')"
  shows "\<And>name spec. (name, spec) \<in> set (component_services component) \<Longrightarrow> anchor \<in> hosts snapshot (vp_namespace plan) spec"
    and "reserve_on x anchor (filter (\<lambda>spec. bt_contains (component_services component) (rq_name spec)) requested)
      services options placement = Inr placement'"
proof -
  let ?specs = "filter (\<lambda>spec. bt_contains (component_services component) (rq_name spec)) requested"
  obtain eligible fitting where
    eligible: "common_eligible (component_services component) snapshot plan options = Inr eligible" and
    fitting: "fitting_machines snapshot plan (concat (map (\<lambda>spec. mounted_volumes (rq_volume_graph spec)) ?specs)) eligible
      = Inr fitting" and
    first: "reserve_first x ?specs services options placement None (if fitting = [] then eligible else fitting)
      = Inr (anchor, placement')"
    using assms unfolding shared_component_anchor_def Let_def
    by (auto simp: rbind_eq_Inr map_fault_eq_Inr if_Inl_eq_Inr)
  note r = reserve_first_Inr [OF first]
  show "reserve_on x anchor ?specs services options placement = Inr placement'"
    using r ..
  have "anchor \<in> set eligible"
    using r fitting_machines_Inr [OF fitting] by (auto split: if_splits)
  then show "\<And>name spec. (name, spec) \<in> set (component_services component) \<Longrightarrow> anchor \<in> hosts snapshot (vp_namespace plan) spec"
    using common_eligible_Inr(2) [OF eligible] by blast
qed

lemma shared_component_anchor_no_panic:
  assumes "component_wf requested' component"
  shows "shared_component_anchor x component snapshot requested services plan options placement \<noteq> Inl Panic"
proof -
  have services: "component_services component \<noteq> []"
    using assms by (rule component_services_Nil)
  then obtain name where name: "(case component_services component of [] \<Rightarrow> None | (name, _) # _ \<Rightarrow> Some name) = Some name"
    by (cases "component_services component") auto
  show ?thesis
  proof (cases "common_eligible (component_services component) snapshot plan options")
    case (Inl e)
    then show ?thesis
      using common_eligible_no_panic [OF services] name by (auto simp: shared_component_anchor_def Let_def)
  next
    case (Inr eligible)
    have "fitting_machines snapshot plan volumes eligible \<noteq> Inl Panic" for volumes
      using common_eligible_ids [OF Inr] by (rule fitting_machines_no_panic)
    moreover have "map_fault f (reserve_first x specs services options placement None ids) \<noteq> Inl Panic"
      if "ids \<noteq> []" for f specs ids
      using that by (simp add: map_fault_Panic reserve_first_no_panic)
    ultimately show ?thesis
      using Inr name by (auto simp: shared_component_anchor_def Let_def rbind_eq_Inl)
  qed
qed


section \<open>Growth of the ledger\<close>

text \<open>The ledger only grows, and only by the storage of requested Services.\<close>

definition ledger_from :: "requested_service_spec list \<Rightarrow> volume_plan \<Rightarrow> bool" where
  "ledger_from requested plan \<longleftrightarrow> ledger_wf plan \<and> (\<forall>m name storage. is_assigned plan m name storage
     \<longrightarrow> (\<exists>spec \<in> set requested. rq_name spec = name \<and> storage_of spec = storage))"

definition extends :: "requested_service_spec list \<Rightarrow> volume_plan \<Rightarrow> volume_plan \<Rightarrow> bool" where
  "extends requested plan plan' \<longleftrightarrow> vp_snapshot plan' = vp_snapshot plan \<and> vp_namespace plan' = vp_namespace plan
     \<and> (\<forall>m name storage. is_assigned plan m name storage \<longrightarrow> is_assigned plan' m name storage)
     \<and> (ledger_from requested plan \<longrightarrow> ledger_from requested plan')"

lemma extends_refl [simp]: "extends requested plan plan"
  by (simp add: extends_def)

lemma extends_trans: "extends requested a b \<Longrightarrow> extends requested b c \<Longrightarrow> extends requested a c"
  by (simp add: extends_def)

lemma extends_assigned: "extends requested plan plan' \<Longrightarrow> is_assigned plan m name s \<Longrightarrow> is_assigned plan' m name s"
  by (simp add: extends_def)

lemma extends_assign:
  assumes "plan_assign m spec plan = Inr plan'" and "spec \<in> set requested"
  shows "extends requested plan plan'" and "\<exists>s. is_assigned plan' m (rq_name spec) s"
proof -
  note r = plan_assign_Inr [OF assms(1)]
  show "extends requested plan plan'"
    using r assms(2) ledger_wf_assign [OF assms(1)] unfolding extends_def ledger_from_def by blast
  show "\<exists>s. is_assigned plan' m (rq_name spec) s"
    using r(3) by blast
qed

lemma extends_assigns:
  assumes "rfold (\<lambda>m. plan_assign m spec) ids plan = Inr plan'" and "spec \<in> set requested"
  shows "extends requested plan plan'" and "\<And>m. m \<in> set ids \<Longrightarrow> \<exists>s. is_assigned plan' m (rq_name spec) s"
proof -
  show "extends requested plan plan'"
    by (rule rfold_invariant [OF assms(1), where P = "extends requested plan"])
      (auto intro: extends_trans extends_assign(1) [OF _ assms(2)])
  show "\<exists>s. is_assigned plan' m (rq_name spec) s" if "m \<in> set ids" for m
    using plan_assigns_Inr [OF assms(1)] that by blast
qed

lemma assign_uses:
  assumes "rfold (\<lambda>u. plan_assign anchor (mu_service u)) uses plan = Inr plan'"
    and "\<forall>u \<in> set uses. mu_service u \<in> set requested"
  shows "extends requested plan plan'" and "\<And>u. u \<in> set uses \<Longrightarrow> \<exists>s. is_assigned plan' anchor (rq_name (mu_service u)) s"
proof -
  have "extends requested plan plan' \<and> (\<forall>u \<in> set uses. \<exists>s. is_assigned plan' anchor (rq_name (mu_service u)) s)"
    using assms
  proof (induction uses arbitrary: plan)
    case (Cons u uses)
    then obtain plan1 where step: "plan_assign anchor (mu_service u) plan = Inr plan1"
      and rest: "rfold (\<lambda>u. plan_assign anchor (mu_service u)) uses plan1 = Inr plan'"
      by (auto simp: rbind_eq_Inr)
    have u: "mu_service u \<in> set requested"
      using Cons.prems(2) by simp
    show ?case
      using Cons.IH [OF rest] Cons.prems(2) extends_assign [OF step u] extends_trans extends_assigned
      by (metis (no_types, lifting) set_ConsD list.set_intros(2))
  qed simp
  then show "extends requested plan plan'" "\<And>u. u \<in> set uses \<Longrightarrow> \<exists>s. is_assigned plan' anchor (rq_name (mu_service u)) s"
    by blast+
qed

lemma assign_shared_component_Inr:
  assumes "assign_shared_component component anchor plan = Inr plan'" and "component_wf requested component"
  shows "extends requested plan plan'"
    and "\<And>name. bt_contains (component_services component) name \<Longrightarrow> \<exists>s. is_assigned plan' anchor name s"
proof -
  have "extends requested plan plan' \<and> (\<forall>volume \<in> set component. \<forall>name \<in> volume_services volume.
      \<exists>s. is_assigned plan' anchor name s)"
    if "rfold (\<lambda>(_, uses). rfold (\<lambda>u. plan_assign anchor (mu_service u)) uses) component plan = Inr plan'"
      "\<forall>volume \<in> set component. \<forall>u \<in> set (snd volume). mu_service u \<in> set requested
         \<and> mu_service_name u = rq_name (mu_service u)"
    using that
  proof (induction component arbitrary: plan)
    case (Cons volume component)
    then obtain plan1 where step: "rfold (\<lambda>u. plan_assign anchor (mu_service u)) (snd volume) plan = Inr plan1"
      and rest: "rfold (\<lambda>(_, uses). rfold (\<lambda>u. plan_assign anchor (mu_service u)) uses) component plan1 = Inr plan'"
      by (cases volume) (auto simp: rbind_eq_Inr)
    have uses: "\<forall>u \<in> set (snd volume). mu_service u \<in> set requested"
      using Cons.prems(2) by simp
    note one = assign_uses [OF step uses] and IH = Cons.IH [OF rest]
    have more: "extends requested plan1 plan'" "\<forall>volume \<in> set component. \<forall>name \<in> volume_services volume.
      \<exists>s. is_assigned plan' anchor name s"
      using IH Cons.prems(2) by simp_all
    have "\<exists>s. is_assigned plan' anchor name s" if name: "name \<in> volume_services volume" for name
    proof -
      obtain u where "u \<in> set (snd volume)" "name = rq_name (mu_service u)"
        using name Cons.prems(2) by (auto simp: volume_services_def)
      then show ?thesis
        using one(2) extends_assigned [OF more(1)] by blast
    qed
    then show ?case
      using more extends_trans [OF one(1) more(1)] by simp
  qed simp
  then show "extends requested plan plan'"
    "\<And>name. bt_contains (component_services component) name \<Longrightarrow> \<exists>s. is_assigned plan' anchor name s"
    using assms by (auto simp: assign_shared_component_def component_wf_def case_prod_beta component_services_contains)
qed

lemma assign_shared_component_no_panic:
  assumes "component_wf requested component" and "\<forall>spec \<in> set requested. spec_scoped spec"
  shows "assign_shared_component component anchor plan \<noteq> Inl Panic"
proof -
  have "plan_assign anchor (mu_service u) plan \<noteq> Inl Panic" if "u \<in> set uses" "(name, uses) \<in> set component"
    for u uses name plan
  proof -
    have "spec_scoped (mu_service u)"
      using that assms by (auto simp: component_wf_def)
    from plan_assign_total [OF this] show ?thesis
      by (metis Inr_not_Inl)
  qed
  then show ?thesis
    unfolding assign_shared_component_def by (auto intro!: rfold_not_Inl simp: case_prod_beta)
qed

section \<open>Reservations of the plan\<close>

definition reservations_ok ::
  "service_observation list \<Rightarrow> requested_service_spec list \<Rightarrow> volume_plan
     \<Rightarrow> (service_name, replicated_reservation) btree \<Rightarrow> bool" where
  "reservations_ok services requested plan reservations \<longleftrightarrow>
     (\<forall>spec \<in> set requested. \<forall>reservation. bt_get reservations (rq_name spec) = Some reservation
        \<longrightarrow> (\<exists>anchor. anchor \<in> hosts (vp_snapshot plan) (vp_namespace plan) spec
               \<and> (\<exists>s. is_assigned plan anchor (rq_name spec) s)
               \<and> anchored services (rq_name spec) anchor reservation))"

lemma reservations_ok_extends:
  "reservations_ok services requested plan rs \<Longrightarrow> extends requested' plan plan' \<Longrightarrow> reservations_ok services requested plan' rs"
  unfolding reservations_ok_def extends_def by metis

lemma reservations_ok_remove:
  "reservations_ok services requested plan rs \<Longrightarrow> reservations_ok services requested plan (bt_remove name rs)"
  by (simp add: reservations_ok_def bt_get_remove)

lemma component_services_requested:
  assumes "component_wf requested component" and "distinct (map rq_name requested)"
    and "spec \<in> set requested" and "bt_contains (component_services component) (rq_name spec)"
  shows "(rq_name spec, spec) \<in> set (component_services component)"
proof -
  let ?entries = "map (\<lambda>u. (mu_service_name u, mu_service u)) (concat (map snd component))"
  obtain spec' where spec': "bt_get (component_services component) (rq_name spec) = Some spec'"
    using assms(4) by (auto simp: bt_contains_def)
  then have "(rq_name spec, spec') \<in> set ?entries"
    by (auto simp: component_services_def bt_get_extend split: option.splits dest!: map_of_SomeD)
  then have "spec' \<in> set requested" "rq_name spec' = rq_name spec"
    using assms(1) by (auto simp: component_wf_def)
  then have "spec' = spec"
    using assms(2,3) by (auto simp: distinct_map inj_on_def)
  then show ?thesis
    using bt_get_in_set [OF spec'] by simp
qed

lemma reserve_shared_Inr:
  assumes "reserve_shared x requested services options (plan, reservations) = Inr (plan', reservations')"
    and "ids_distinct services" and "distinct (map rq_name requested)"
    and "reservations_ok services requested plan (pr_reservations reservations)"
  shows "extends requested plan plan' \<and> reservations_ok services requested plan' (pr_reservations reservations')"
proof -
  let ?P = "\<lambda>(p, r). extends requested plan p \<and> reservations_ok services requested p (pr_reservations r)"
  have "?P (plan', reservations')"
  proof (rule rfold_invariant [OF assms(1) [unfolded reserve_shared_def], where P = ?P])
    fix component s t
    assume "component \<in> set (shared_volume_components (managed_volume_uses requested))" and P: "?P s"
      and step: "(\<lambda>(plan, placement).
        rbind (shared_component_anchor x component (vp_snapshot plan) requested services plan options placement)
          (\<lambda>(anchor, placement).
        rbind (assign_shared_component component anchor plan) (\<lambda>plan. Inr (plan, placement)))) s = Inr t"
    then have wf: "component_wf requested component"
      by (intro shared_components_wf)
    obtain p r p' r' where st: "s = (p, r)" "t = (p', r')"
      by (cases s, cases t)
    obtain anchor where
      anchor: "shared_component_anchor x component (vp_snapshot p) requested services p options r = Inr (anchor, r')"
      and assign: "assign_shared_component component anchor p = Inr p'"
      using step by (auto simp: st rbind_eq_Inr)
    note a = shared_component_anchor_Inr [OF anchor] and g = assign_shared_component_Inr [OF assign wf]
    have same: "vp_snapshot p' = vp_snapshot p" "vp_namespace p' = vp_namespace p"
      using g(1) by (simp_all add: extends_def)
    have old: "reservations_ok services requested p' (pr_reservations r)"
      using P g(1) by (auto simp: st intro: reservations_ok_extends)
    have "reservations_ok services requested p' (pr_reservations r')"
      unfolding reservations_ok_def
    proof (intro ballI allI impI)
      fix spec reservation
      assume spec: "spec \<in> set requested" and "bt_get (pr_reservations r') (rq_name spec) = Some reservation"
      from reserve_on_anchored [OF a(2) assms(2) this(2)] consider
        "bt_get (pr_reservations r) (rq_name spec) = Some reservation"
        | "bt_contains (component_services component) (rq_name spec)"
          "anchored services (rq_name spec) anchor reservation"
        by auto
      then show "\<exists>anchor. anchor \<in> hosts (vp_snapshot p') (vp_namespace p') spec
          \<and> (\<exists>s. is_assigned p' anchor (rq_name spec) s) \<and> anchored services (rq_name spec) anchor reservation"
      proof cases
        case 1
        then show ?thesis
          using old spec unfolding reservations_ok_def by blast
      next
        case 2
        then show ?thesis
          using a(1) [OF component_services_requested [OF wf assms(3) spec 2(1)]] g(2) [OF 2(1)]
          unfolding same by blast
      qed
    qed
    then show "?P t"
      using P g(1) extends_trans by (auto simp: st)
  qed (use assms(4) in simp)
  then show ?thesis
    by simp
qed

lemma reserve_shared_no_panic:
  assumes "\<forall>spec \<in> set requested. spec_scoped spec"
  shows "reserve_shared x requested services options st \<noteq> Inl Panic"
  unfolding reserve_shared_def
proof (rule rfold_not_Inl)
  fix component and s :: "volume_plan \<times> placement_reservations"
  assume "component \<in> set (shared_volume_components (managed_volume_uses requested))"
  then have wf: "component_wf requested component"
    by (rule shared_components_wf)
  show "(\<lambda>(plan, placement).
      rbind (shared_component_anchor x component (vp_snapshot plan) requested services plan options placement)
        (\<lambda>(anchor, placement).
      rbind (assign_shared_component component anchor plan) (\<lambda>plan. Inr (plan, placement)))) s \<noteq> Inl Panic"
    using shared_component_anchor_no_panic [OF wf] assign_shared_component_no_panic [OF wf assms]
    by (auto simp: rbind_eq_Inl split: prod.splits)
qed


section \<open>The plan of one Service\<close>

definition service_candidates ::
  "ext \<Rightarrow> requested_service_spec \<Rightarrow> container_observation list \<Rightarrow> container_observation list \<Rightarrow> plan_options
     \<Rightarrow> volume_plan \<Rightarrow> placement_state \<Rightarrow> machine_observation list
     \<Rightarrow> (machine_observation list \<times> plan_error option \<times> placement_state) planned" where
  "service_candidates x requested current hooks options plan placement machines =
     (let rest = placement\<lparr> ps_reservations := bt_remove (rq_name requested) (ps_reservations placement) \<rparr>
      in case (rq_mode requested, bt_get (ps_reservations placement) (rq_name requested)) of
           (Replicated replicas, None) \<Rightarrow>
             unreserved_candidates x requested replicas current hooks options plan rest machines
         | _ \<Rightarrow> Inr (machines, None, rest))"

definition service_containers_plan ::
  "ext \<Rightarrow> requested_service_spec \<Rightarrow> service_id \<Rightarrow> container_observation list \<Rightarrow> container_observation list
     \<Rightarrow> plan_options \<Rightarrow> replicated_reservation option \<Rightarrow> plan_error option
     \<Rightarrow> requested_service_spec \<times> machine_observation list \<Rightarrow> placement_state
     \<Rightarrow> (deploy_operation list \<times> machine_id option \<times> placement_state) planned" where
  "service_containers_plan x requested service_id current hooks options reservation capacity_error volumes placement =
     (case rq_mode requested of
        Replicated _ \<Rightarrow>
          rbind (case reservation of
              Some r \<Rightarrow> Inr (Admission_Reserved r)
            | None \<Rightarrow> rbind (expect capacity_error) (\<lambda>error. Inr (Admission_Pending error))) (\<lambda>admission.
          plan_replicated x service_id current volumes admission placement options)
      | Global \<Rightarrow> plan_global x service_id current hooks volumes placement options)"

lemma plan_one_service_eq:
  "plan_one_service x requested namespace snapshot services options (plan, placement) =
     rbind (eligible_machines requested namespace snapshot options) (\<lambda>machines.
     rbind (observed_members x requested namespace services) (\<lambda>(service_id, current, hooks).
     rbind (service_candidates x requested current hooks options plan placement machines)
       (\<lambda>(machines, capacity_error, placement').
     rbind (volume_place requested machines plan) (\<lambda>(volumes, plan).
     rbind (service_containers_plan x requested service_id current hooks options
         (bt_get (ps_reservations placement) (rq_name requested)) capacity_error volumes placement')
       (\<lambda>(service_operations, hook_machine, placement).
     Inr (pre_deploy_operations requested hooks service_operations hook_machine @ service_operations,
          plan, placement))))))"
proof -
  have "(case map_option Admission_Reserved r of Some admission \<Rightarrow> Inr admission | None \<Rightarrow> e)
      = (case r of Some r \<Rightarrow> Inr (Admission_Reserved r) | None \<Rightarrow> e)"
    for r and e :: "capacity_admission planned"
    by (cases r) simp_all
  moreover have "(case (m, map_option Admission_Reserved r) of (Replicated n, None) \<Rightarrow> f n | _ \<Rightarrow> g)
      = (case (m, r) of (Replicated n, None) \<Rightarrow> f n | _ \<Rightarrow> g)"
    for m r and f :: "nat \<Rightarrow> (machine_observation list \<times> plan_error option \<times> placement_state) planned" and g
    by (cases m; cases r) simp_all
  ultimately show ?thesis
    unfolding plan_one_service_def take_reservation_def service_candidates_def service_containers_plan_def Let_def
      prod.case by presburger
qed

lemma plan_one_service_steps:
  assumes "plan_one_service x requested namespace snapshot services options (plan, placement)
      = Inr (operations, plan', placement')"
  obtains machines service_id current hooks candidates capacity_error placement1 placed service_operations hook where
    "eligible_machines requested namespace snapshot options = Inr machines"
    "observed_members x requested namespace services = Inr (service_id, current, hooks)"
    "service_candidates x requested current hooks options plan placement machines
       = Inr (candidates, capacity_error, placement1)"
    "volume_place requested candidates plan = Inr ((requested, placed), plan')"
    "service_containers_plan x requested service_id current hooks options
       (bt_get (ps_reservations placement) (rq_name requested)) capacity_error (requested, placed) placement1
       = Inr (service_operations, hook, placement')"
    "operations = pre_deploy_operations requested hooks service_operations hook @ service_operations"
proof -
  obtain machines service_id current hooks candidates capacity_error placement1 spec placed service_operations hook where
    *: "eligible_machines requested namespace snapshot options = Inr machines"
    "observed_members x requested namespace services = Inr (service_id, current, hooks)"
    "service_candidates x requested current hooks options plan placement machines
       = Inr (candidates, capacity_error, placement1)"
    "volume_place requested candidates plan = Inr ((spec, placed), plan')"
    "service_containers_plan x requested service_id current hooks options
       (bt_get (ps_reservations placement) (rq_name requested)) capacity_error (spec, placed) placement1
       = Inr (service_operations, hook, placement')"
    "operations = pre_deploy_operations requested hooks service_operations hook @ service_operations"
    using assms by (auto simp: plan_one_service_eq rbind_eq_Inr)
  have "spec = requested"
    using volume_place_Inr(1) [OF *(4)] .
  with * show ?thesis
    by (intro that) simp_all
qed

lemma unreserved_candidates_Inr:
  assumes "unreserved_candidates x requested replicas current hooks options plan placement machines
      = Inr (candidates, capacity_error, placement')"
  shows "set candidates \<subseteq> set machines" and "capacity_error \<noteq> None"
    and "ps_reservations placement' = ps_reservations placement"
proof -
  obtain constrained where c: "constrain_candidates plan requested machines = Inr constrained"
    using assms by (auto simp: unreserved_candidates_def rbind_eq_Inr map_err_eq_Inr)
  then obtain mounted missing where
    "planned_volume_constraints requested (vp_snapshot plan) plan machines = Inr (mounted, missing, constrained)"
    by (auto simp: constrain_candidates_def rbind_eq_Inr)
  then have "set constrained \<subseteq> set machines"
    by (intro volume_constraints_Inr(3) [OF planned_volume_constraints_Inr])
  then show "set candidates \<subseteq> set machines" "capacity_error \<noteq> None"
    "ps_reservations placement' = ps_reservations placement"
    using assms c by (auto simp: unreserved_candidates_def Let_def split: if_splits)
qed

lemma service_candidates_Inr:
  assumes "service_candidates x requested current hooks options plan placement machines
      = Inr (candidates, capacity_error, placement')"
  shows "set candidates \<subseteq> set machines"
    and "ps_reservations placement' = bt_remove (rq_name requested) (ps_reservations placement)"
    and "is_replicated (rq_mode requested) \<Longrightarrow> bt_get (ps_reservations placement) (rq_name requested) = None
      \<Longrightarrow> capacity_error \<noteq> None"
  using assms unreserved_candidates_Inr
  by (cases "rq_mode requested"; cases "bt_get (ps_reservations placement) (rq_name requested)";
      fastforce simp: service_candidates_def Let_def is_replicated_def)+

lemma find_map_Some: "find_map f xs = Some b \<Longrightarrow> \<exists>a \<in> set xs. f a = Some b"
  by (induction xs) (auto split: option.splits)

lemma pre_deploy_service_ops:
  assumes "service_ops requested current hooks machines operations"
  shows "service_ops requested current hooks machines (pre_deploy_operations requested hooks operations hook)"
proof (cases "find_map (hook_target hook) operations")
  case (Some target)
  obtain m spec where target: "target = (m, spec)"
    by (cases target)
  obtain operation where "operation \<in> set operations" "hook_target hook operation = Some (m, spec)"
    using find_map_Some [OF Some] target by auto
  moreover have "service_op requested current hooks machines operation
      \<Longrightarrow> hook_target hook operation = Some (m, spec) \<Longrightarrow> m \<in> machines \<and> starts requested spec"
    by (cases operation) (auto simp: hook_target_def split: if_splits)
  ultimately have "m \<in> machines" "starts requested spec"
    using assms by blast+
  then show ?thesis
    using Some target by (auto simp: pre_deploy_operations_def location_def [abs_def])
qed (simp add: pre_deploy_operations_def)

lemma plan_one_service_Inr:
  assumes step: "plan_one_service x spec namespace snapshot (services_in snapshot namespace) options (plan, placement)
      = Inr (operations, plan', placement')"
    and distinct: "ids_distinct (services_in snapshot namespace)"
    and snapshot: "vp_snapshot plan = snapshot" and spec: "spec \<in> set requested"
    and namespace: "vp_namespace plan = namespace"
    and reservations: "reservations_ok (services_in snapshot namespace) requested plan (ps_reservations placement)"
  defines "services \<equiv> services_in snapshot namespace"
  shows "\<exists>machines. service_ops spec (containers_of services (rq_name spec)) (hooks_of services (rq_name spec))
        machines operations
      \<and> (\<forall>m \<in> machines. m \<in> hosts snapshot namespace spec \<and> (\<exists>s. is_assigned plan' m (rq_name spec) s))"
    and "extends requested plan plan'"
    and "reservations_ok services requested plan' (ps_reservations placement')"
proof -
  from step obtain machines service_id current hooks candidates capacity_error placement1 placed service_operations hook
    where eligible: "eligible_machines spec namespace snapshot options = Inr machines"
    and observed: "observed_members x spec namespace (services_in snapshot namespace) = Inr (service_id, current, hooks)"
    and candidates: "service_candidates x spec current hooks options plan placement machines
       = Inr (candidates, capacity_error, placement1)"
    and place: "volume_place spec candidates plan = Inr ((spec, placed), plan')"
    and containers: "service_containers_plan x spec service_id current hooks options
       (bt_get (ps_reservations placement) (rq_name spec)) capacity_error (spec, placed) placement1
       = Inr (service_operations, hook, placement')"
    and operations: "operations = pre_deploy_operations spec hooks service_operations hook @ service_operations"
    by (rule plan_one_service_steps)
  note current = observed_members_Inr [OF observed, folded services_def]
  note c = service_candidates_Inr [OF candidates] and v = volume_place_Inr [OF place]
  note grow = extends_assigns [OF v(6) spec]
  show extends: "extends requested plan plan'"
    by (rule grow(1))
  have placed: "m \<in> hosts snapshot namespace spec \<and> (\<exists>s. is_assigned plan' m (rq_name spec) s)"
    if "m \<in> mid ` set placed" for m
    using that grow(2) image_mono [OF subset_trans [OF v(3) c(1)], of mid] eligible_machines_hosts [OF eligible] by auto
  have ps: "ps_reservations placement' = ps_reservations placement1"
    using containers plan_replicated_reservations plan_global_reservations
    by (fastforce simp: service_containers_plan_def rbind_eq_Inr split: service_mode.splits)
  then show "reservations_ok services requested plan' (ps_reservations placement')"
    using reservations_ok_remove [OF reservations_ok_extends [OF reservations extends]] c(2) by (simp add: services_def)
  have distinct_current: "distinct (map co_container_id current)"
    using distinct current by (simp add: ids_distinct_def services_def)
  have "\<exists>machines. service_ops spec current hooks machines service_operations
      \<and> (\<forall>m \<in> machines. m \<in> hosts snapshot namespace spec \<and> (\<exists>s. is_assigned plan' m (rq_name spec) s))"
  proof (cases "rq_mode spec")
    case Global
    then have "plan_global x service_id current hooks (spec, placed) placement1 options
        = Inr (service_operations, hook, placement')"
      using containers by (simp add: service_containers_plan_def)
    from plan_global_ops [OF this] placed show ?thesis
      by blast
  next
    case (Replicated replicas)
    show ?thesis
    proof (cases "bt_get (ps_reservations placement) (rq_name spec)")
      case (Some reservation)
      then have plan: "plan_replicated x service_id current (spec, placed) (Admission_Reserved reservation) placement1 options
          = Inr (service_operations, hook, placement')"
        using containers Replicated by (simp add: service_containers_plan_def)
      obtain anchor where anchor: "anchor \<in> hosts snapshot namespace spec" "\<exists>s. is_assigned plan anchor (rq_name spec) s"
        "anchored services (rq_name spec) anchor reservation"
        using reservations Some spec unfolding reservations_ok_def services_def snapshot namespace by blast
      have "admitted_reservation x spec current placed (Admission_Reserved reservation) placement1 options
          = Inr (reservation, placement1)"
        by (simp add: admitted_reservation_def)
      from plan_replicated_ops [OF plan this, of "{anchor}"] anchor(3)
      have "service_ops spec current hooks {anchor} service_operations"
        by (auto simp: anchored_def current(1))
      then show ?thesis
        using anchor(1,2) extends_assigned [OF extends] by blast
    next
      case None
      obtain error where error: "capacity_error = Some error"
        using c(3) None Replicated by (auto simp: is_replicated_def)
      then have plan: "plan_replicated x service_id current (spec, placed) (Admission_Pending error) placement1 options
          = Inr (service_operations, hook, placement')"
        using containers Replicated None by (simp add: service_containers_plan_def)
      then obtain reservation start where
        admitted: "admitted_reservation x spec current placed (Admission_Pending error) placement1 options
          = Inr (reservation, start)"
        by (auto simp: plan_replicated_def rbind_eq_Inr)
      then obtain capacity' sockets' where
        "select_replicated x spec current (map mid placed) (ps_occupancy placement1)
          (ps_capacity placement1, ps_sockets placement1) error options = Inr (reservation, capacity', sockets')"
        by (auto simp: admitted_reservation_def rbind_eq_Inr)
      from select_replicated_sound [OF this distinct_current]
      have "\<forall>choice \<in> set (rr_choices reservation). ch_machine_id choice \<in> mid ` set placed
          \<and> set (choice_ids choice) \<subseteq> co_container_id ` set (on_machine current (ch_machine_id choice))"
        by (simp add: reservation_ok_def)
      from plan_replicated_ops [OF plan admitted this] placed show ?thesis
        by blast
    qed
  qed
  then show "\<exists>machines. service_ops spec (containers_of services (rq_name spec)) (hooks_of services (rq_name spec))
        machines operations
      \<and> (\<forall>m \<in> machines. m \<in> hosts snapshot namespace spec \<and> (\<exists>s. is_assigned plan' m (rq_name spec) s))"
    using pre_deploy_service_ops unfolding operations current set_append by blast
qed


lemma plan_one_service_no_panic:
  assumes "ids_distinct (services_in snapshot namespace)" and "spec_scoped spec"
    and spec: "spec \<in> set requested"
    and reservations: "reservations_ok (services_in snapshot namespace) requested plan (ps_reservations placement)"
  shows "plan_one_service x spec namespace snapshot (services_in snapshot namespace) options (plan, placement) \<noteq> Inl Panic"
proof
  let ?services = "services_in snapshot namespace"
  assume panic: "plan_one_service x spec namespace snapshot ?services options (plan, placement) = Inl Panic"
  have unreserved: "unreserved_candidates x spec n current hooks options plan p machines \<noteq> Inl Panic"
    for n current hooks p machines
    by (auto simp: unreserved_candidates_def Let_def rbind_eq_Inl map_err_eq_Inl)
  have "service_candidates x spec current hooks options plan placement machines \<noteq> Inl Panic"
    for current hooks machines
    using unreserved by (auto simp: service_candidates_def Let_def split: service_mode.splits option.splits)
  with panic eligible_machines_no_panic observed_members_no_panic volume_place_no_panic [OF assms(2)]
  obtain machines service_id current hooks candidates capacity_error placement1 spec' placed plan' where
    observed: "observed_members x spec namespace ?services = Inr (service_id, current, hooks)" and
    candidates: "service_candidates x spec current hooks options plan placement machines
       = Inr (candidates, capacity_error, placement1)" and
    place: "volume_place spec candidates plan = Inr ((spec', placed), plan')" and
    containers: "service_containers_plan x spec service_id current hooks options
       (bt_get (ps_reservations placement) (rq_name spec)) capacity_error (spec', placed) placement1 = Inl Panic"
    by (auto simp: plan_one_service_eq rbind_eq_Inl split: prod.splits)
  have spec': "spec' = spec"
    using volume_place_Inr(1) [OF place] .
  note current = observed_members_Inr(1) [OF observed]
  have distinct: "distinct (map co_container_id current)"
    using assms(1) current by (simp add: ids_distinct_def)
  show False
  proof (cases "rq_mode spec")
    case Global
    then show False
      using containers plan_global_no_panic [OF assms(2)] by (simp add: service_containers_plan_def spec')
  next
    case (Replicated replicas)
    show False
    proof (cases "bt_get (ps_reservations placement) (rq_name spec)")
      case (Some reservation)
      then obtain anchor where "anchored ?services (rq_name spec) anchor reservation"
        using reservations spec unfolding reservations_ok_def by blast
      then have "plan_replicated x service_id current (spec, placed) (Admission_Reserved reservation) placement1 options
          \<noteq> Inl Panic"
        using current by (intro plan_replicated_no_panic [OF assms(2)])
          (auto simp: admitted_reservation_def anchored_def)
      then show False
        using containers Replicated Some by (simp add: service_containers_plan_def spec')
    next
      case None
      obtain error where error: "capacity_error = Some error"
        using service_candidates_Inr(3) [OF candidates] None Replicated by (auto simp: is_replicated_def)
      have "\<forall>choice \<in> set (rr_choices reservation).
          set (choice_ids choice) \<subseteq> co_container_id ` set (on_machine current (ch_machine_id choice))"
        if "admitted_reservation x spec current placed (Admission_Pending error) placement1 options
          = Inr (reservation, start)" for reservation start
      proof -
        obtain capacity' sockets' where
          "select_replicated x spec current (map mid placed) (ps_occupancy placement1)
            (ps_capacity placement1, ps_sockets placement1) error options = Inr (reservation, capacity', sockets')"
          using \<open>admitted_reservation x spec current placed (Admission_Pending error) placement1 options
            = Inr (reservation, start)\<close>
          by (auto simp: admitted_reservation_def rbind_eq_Inr)
        from select_replicated_sound [OF this distinct] show ?thesis
          by (simp add: reservation_ok_def)
      qed
      then have "plan_replicated x service_id current (spec, placed) (Admission_Pending error) placement1 options
          \<noteq> Inl Panic"
        by (intro plan_replicated_no_panic [OF assms(2)])
      then show False
        using containers Replicated None error by (simp add: service_containers_plan_def spec')
    qed
  qed
qed

section \<open>Completion of the volume plan\<close>

text \<open>The preparation of a Machine: its assigned Services that mount provisioned Volumes.\<close>

definition preparation_of :: "volume_plan \<Rightarrow> machine_id \<Rightarrow> deploy_operation \<Rightarrow> bool" where
  "preparation_of plan m operation \<longleftrightarrow> (\<exists>assigned. bt_get (vp_assignments plan) m = Some assigned
     \<and> operation = PrepareVolumes m
         (filter (\<lambda>spec. has_mounted_provisioned_volume (ss_volumes spec)) (bt_values assigned)))"

definition budget_admitted :: "deploy_snapshot \<Rightarrow> deploy_operation \<Rightarrow> machine_storage_budget \<Rightarrow> bool" where
  "budget_admitted snapshot operation budget \<longleftrightarrow> (\<exists>m specs capacity.
     operation = PrepareVolumes m specs \<and> msb_machine_id budget = m
     \<and> bt_get (ds_storage_capacity snapshot) m = Some (Inr capacity)
     \<and> storage_capacity_budget capacity
         (volume_bounds (concat (map (\<lambda>spec. mounted_volumes (ss_volumes spec)) specs))) = Inr (msb_budget budget))"

lemma machine_budget_Inr:
  "machine_budget snapshot machine volumes = Inr budget \<longleftrightarrow>
     (\<exists>capacity. bt_get (ds_storage_capacity snapshot) (mid machine) = Some (Inr capacity)
        \<and> storage_capacity_budget capacity volumes = Inr budget)"
  by (auto simp: machine_budget_def machine_capacity_def rbind_eq_Inr map_err_eq_Inr
      split: option.splits sum.splits)

lemma bt_get_fold_remove: "bt_get (fold bt_remove ks m) k = (if k \<in> set ks then None else bt_get m k)"
  by (induction ks arbitrary: m) (auto simp: bt_get_remove)

lemma plan_find_machine_Some: "plan_find_machine snapshot m = Some machine \<Longrightarrow> mid machine = m"
  by (auto simp: plan_find_machine_def dest: find_SomeD)

lemma prepare_machine_Inr:
  assumes "prepare_machine m (p, budgets, preparations) = Inr (p', budgets', preparations')"
  shows "\<exists>operation budget. p' = p\<lparr> vp_assignments := bt_remove m (vp_assignments p) \<rparr>
    \<and> preparations' = preparations @ [operation] \<and> budgets' = budgets @ [budget]
    \<and> preparation_of p m operation \<and> budget_admitted (vp_snapshot p) operation budget"
  using assms
  by (fastforce simp: prepare_machine_def Let_def rbind_eq_Inr expect_eq_Inr map_err_eq_Inr machine_budget_Inr
      preparation_of_def budget_admitted_def dest: plan_find_machine_Some)

lemma prepare_machines_Inr:
  assumes "rfold prepare_machine ids (plan, [], []) = Inr (plan', budgets, preparations)" and "distinct ids"
  shows "list_all2 (preparation_of plan) ids preparations"
    and "list_all2 (budget_admitted (vp_snapshot plan)) preparations budgets"
proof -
  let ?P = "\<lambda>pre (p, budgets, preparations). vp_snapshot p = vp_snapshot plan
    \<and> vp_assignments p = fold bt_remove pre (vp_assignments plan)
    \<and> list_all2 (preparation_of plan) pre preparations
    \<and> list_all2 (budget_admitted (vp_snapshot plan)) preparations budgets"
  have "?P ids (plan', budgets, preparations)"
  proof (rule rfold_invariant_prefix [OF assms(1), where P = ?P])
    fix pre m post s t
    assume ids: "ids = pre @ m # post" and P: "?P pre s" and step: "prepare_machine m s = Inr t"
    obtain p budgets preparations p' budgets' preparations' where st: "s = (p, budgets, preparations)"
      "t = (p', budgets', preparations')"
      by (cases s, cases t)
    obtain operation budget where r: "p' = p\<lparr> vp_assignments := bt_remove m (vp_assignments p) \<rparr>"
      "preparations' = preparations @ [operation]" "budgets' = budgets @ [budget]"
      "preparation_of p m operation" "budget_admitted (vp_snapshot p) operation budget"
      using prepare_machine_Inr step st by blast
    have "m \<notin> set pre"
      using assms(2) ids by simp
    then have "preparation_of plan m operation"
      using r(4) P by (simp add: st preparation_of_def bt_get_fold_remove)
    then show "?P (pre @ [m]) t"
      using r P by (simp add: st list_all2_appendI)
  qed simp
  then show "list_all2 (preparation_of plan) ids preparations"
    "list_all2 (budget_admitted (vp_snapshot plan)) preparations budgets"
    by simp_all
qed

lemma prepare_machines_no_panic:
  assumes "distinct ids" and "\<forall>m \<in> set ids. bt_get (vp_assignments plan) m \<noteq> None \<and> m \<in> snapshot_ids (vp_snapshot plan)"
  shows "rfold prepare_machine ids (plan, budgets, preparations) \<noteq> Inl Panic"
  using assms
proof (induction ids arbitrary: plan budgets preparations)
  case (Cons m ids)
  have found: "plan_find_machine (vp_snapshot plan) m \<noteq> None" "bt_get (vp_assignments plan) m \<noteq> None"
    using Cons.prems(2) plan_find_machine_ids [of "vp_snapshot plan" m] by auto
  show ?case
  proof (cases "prepare_machine m (plan, budgets, preparations)")
    case (Inl e)
    then have "e \<noteq> Panic"
      using found by (auto simp: prepare_machine_def Let_def rbind_eq_Inl expect_eq_Inl map_err_eq_Inl)
    with Inl show ?thesis
      by simp
  next
    case (Inr t)
    obtain p' budgets' preparations' where t: "t = (p', budgets', preparations')"
      by (cases t)
    then have p': "p' = plan\<lparr> vp_assignments := bt_remove m (vp_assignments plan) \<rparr>"
      using prepare_machine_Inr Inr by blast
    have "rfold prepare_machine ids (p', budgets', preparations') \<noteq> Inl Panic"
      using Cons.prems by (intro Cons.IH) (auto simp: p' bt_get_remove)
    with Inr t show ?thesis
      by simp
  qed
qed simp

lemma active_machines_iff:
  "m \<in> set (active_machines operations) \<longleftrightarrow>
     (\<exists>operation \<in> set operations. op_machine_id operation = m \<and> op_mounts has_mounted_provisioned_volume operation)"
  by (auto simp: active_machines_def)

lemma active_machines_distinct: "distinct (active_machines operations)"
  unfolding active_machines_def by (intro bs_wf_distinct bs_wf_extend) simp

text \<open>An operation that starts a container does so on a Machine where its Service is assigned.\<close>

definition covered :: "volume_plan \<Rightarrow> deploy_operation \<Rightarrow> bool" where
  "covered plan operation \<longleftrightarrow> (\<forall>spec. op_spec operation = Some spec \<longrightarrow>
     op_machine_id operation \<in> snapshot_ids (vp_snapshot plan)
     \<and> (\<exists>s. is_assigned plan (op_machine_id operation) (rs_name spec) s))"

lemma volume_finish_Inr:
  assumes "volume_finish plan operations = Inr (volumes, operations')"
  shows "\<exists>preparations. operations' = preparations @ operations
    \<and> list_all2 (preparation_of plan) (active_machines operations) preparations
    \<and> list_all2 (budget_admitted (vp_snapshot plan)) preparations (plv_budgets volumes)"
  using assms prepare_machines_Inr [OF _ active_machines_distinct]
  by (fastforce simp: volume_finish_def rbind_eq_Inr)

lemma volume_finish_no_panic:
  assumes "\<forall>operation \<in> set operations. covered plan operation"
  shows "volume_finish plan operations \<noteq> Inl Panic"
proof -
  have "bt_get (vp_assignments plan) m \<noteq> None \<and> m \<in> snapshot_ids (vp_snapshot plan)"
    if m: "m \<in> set (active_machines operations)" for m
  proof -
    obtain operation where "operation \<in> set operations" "op_machine_id operation = m" "op_spec operation \<noteq> None"
      using m unfolding active_machines_iff op_mounts_def by (auto split: option.splits)
    then show ?thesis
      using assms by (auto simp: covered_def is_assigned_def)
  qed
  then have "rfold prepare_machine (active_machines operations) (plan, [], []) \<noteq> Inl Panic"
    by (intro prepare_machines_no_panic active_machines_distinct) blast
  then show ?thesis
    by (auto simp: volume_finish_def rbind_eq_Inl)
qed

end
