(* ===== verification/Plan_Safety.thy ===== *)
theory Plan_Safety
  imports Plan_Correct
begin

text \<open>
  The theorems on a whole Deploy plan: binding, the loop over the Services, and what the sealed
  plan guarantees about panics, containers, Volumes and hostnames.
\<close>

section \<open>Binding\<close>

text \<open>Scoping a parsed graph fails only on incompatible aliases.\<close>

lemma admit_volumes_error:
  assumes "rfold admit_volume vs (refs, dv) = Inl e"
    and "distinct (map sv_reference vs)" and "set refs \<inter> sv_reference ` set vs = {}"
  shows "\<exists>name. e = IncompatibleVolumeAliases name"
  using assms
proof (induction vs arbitrary: refs dv)
  case (Cons v vs)
  have fresh: "sv_reference v \<notin> set refs"
    using Cons.prems(3) by auto
  show ?case
  proof (cases "admit_volume v (refs, dv)")
    case (Inl e')
    then show ?thesis
      using Cons.prems(1) fresh by (auto simp: admit_volume_def split: option.splits if_splits)
  next
    case (Inr st)
    obtain refs' dv' where st: "st = (refs', dv')"
      by (cases st)
    then have "refs' = bs_insert (sv_reference v) refs"
      using Inr by (simp add: admit_volume_ok)
    then show ?thesis
      using Cons.prems Inr st by (intro Cons.IH [of refs' dv']) auto
  qed
qed simp

lemma volume_graph_parse_error:
  assumes "volume_graph_parse vs ms = Inl e"
    and "distinct (map sv_reference vs)" and "mnt_volume ` set ms \<subseteq> sv_reference ` set vs"
  shows "\<exists>name. e = IncompatibleVolumeAliases name"
proof (cases "rfold admit_volume vs ([], [])")
  case (Inl e')
  then show ?thesis
    using assms admit_volumes_error [OF Inl] by (simp add: volume_graph_parse_def)
next
  case (Inr st)
  have "List.find (\<lambda>m. mnt_volume m \<notin> set (fst st)) ms = None"
    using admit_volumes_sound [OF Inr] assms(3) by (auto simp: find_None_iff admitted_state_def)
  then show ?thesis
    using assms(1) Inr by (simp add: volume_graph_parse_def case_prod_beta)
qed

lemma scope_requested_Inr:
  assumes "scope_requested namespace spec = Inr spec'"
  shows "rq_name spec' = rq_name spec" and "spec_scoped spec'"
proof -
  obtain volumes where scope: "volume_graph_scope namespace (rq_volume_graph spec) = Inr volumes"
    and spec': "spec' = spec\<lparr> rq_mount_graph := (rq_mount_graph spec)\<lparr> mg_volumes := volumes \<rparr> \<rparr>"
    using assms by (auto simp: scope_requested_def mount_graph_scope_def rbind_def
        split: sum.splits service_volume_graph_error.splits)
  show "rq_name spec' = rq_name spec"
    by (simp add: spec')
  have "volume_graph_wf volumes"
    using scope by (auto simp: volume_graph_scope_def volume_graph_wf_def volume_graph_parse_iff)
  then show "spec_scoped spec'"
    using volume_graph_scope_resolved [OF scope] by (simp add: spec_scoped_def spec')
qed

lemma scope_requested_no_panic:
  assumes "volume_graph_wf (rq_volume_graph spec)"
  shows "scope_requested namespace spec \<noteq> Inl Panic"
proof -
  have "\<exists>name. e = IncompatibleVolumeAliases name" if "volume_graph_scope namespace (rq_volume_graph spec) = Inl e" for e
    using that unfolding volume_graph_scope_def
    by (rule volume_graph_parse_error) (use assms in \<open>auto simp: volume_graph_wf_def volume_graph_parse_iff image_image o_def\<close>)
  then show ?thesis
    by (cases "volume_graph_scope namespace (rq_volume_graph spec)")
      (auto simp: scope_requested_def mount_graph_scope_def split: service_volume_graph_error.splits)
qed

text \<open>An intent whose Volume graphs were admitted, as the type of a parsed specification says.\<close>

definition intent_wf :: "deploy_intent \<Rightarrow> bool" where
  "intent_wf intent \<longleftrightarrow> (\<forall>spec \<in> set (di_target intent). volume_graph_wf (rq_volume_graph spec))"

lemma rmap_names:
  "rmap (scope_requested namespace) specs = Inr target \<Longrightarrow> map rq_name target = map rq_name specs"
  by (induction specs arbitrary: target) (auto simp: rbind_eq_Inr scope_requested_Inr)

lemma rmap_not_Inl: "(\<And>a. a \<in> set xs \<Longrightarrow> f a \<noteq> Inl e) \<Longrightarrow> rmap f xs \<noteq> Inl e"
  by (induction xs) (auto simp: rbind_eq_Inl)

lemma bind_Inr:
  assumes "bind intent = Inr bound"
  shows "map rq_name (bi_target bound) = target_names intent"
    and "set (bi_requested bound) \<subseteq> set (bi_target bound)"
    and "\<forall>spec \<in> set (bi_target bound). spec_scoped spec"
    and "distinct (map rq_name (bi_requested bound))"
    and "set (map rq_name (bi_requested bound)) = set (applied_names intent)"
proof -
  obtain specs target requested where
    order: "order_included intent (applied_names intent) = Inr specs" and
    target: "rmap (scope_requested (di_namespace intent)) (di_target intent) = Inr target" and
    requested: "rmap (\<lambda>spec. expect (List.find (\<lambda>candidate. rq_name candidate = rq_name spec) target)) specs
      = Inr requested" and
    bound: "bound = \<lparr> bi_target = target, bi_requested = requested \<rparr>"
    using assms by (auto simp: bind_def rbind_eq_Inr)
  show "map rq_name (bi_target bound) = target_names intent"
    using rmap_names [OF target] by (simp add: bound target_names_def)
  have found: "list_all2 (\<lambda>spec r. List.find (\<lambda>candidate. rq_name candidate = rq_name spec) target = Some r) specs requested"
    using requested by (simp add: rmap_eq_Inr expect_eq_Inr)
  then have "list_all2 (\<lambda>spec r. rq_name r = rq_name spec \<and> r \<in> set target) specs requested"
    by (rule list_all2_mono) (auto dest: find_SomeD)
  then have names: "map rq_name requested = map rq_name specs" and "set requested \<subseteq> set target"
    by (induction rule: list_all2_induct) auto
  then show "set (bi_requested bound) \<subseteq> set (bi_target bound)"
    by (simp add: bound)
  have "list_all2 (\<lambda>_. spec_scoped) (di_target intent) target"
    using target unfolding rmap_eq_Inr by (rule list_all2_mono) (rule scope_requested_Inr(2))
  then show "\<forall>spec \<in> set (bi_target bound). spec_scoped spec"
    by (auto simp: bound list_all2_conv_all_nth in_set_conv_nth)
  show "distinct (map rq_name (bi_requested bound))"
    "set (map rq_name (bi_requested bound)) = set (applied_names intent)"
    using order_included_sound [OF order applied_names_subset] names by (simp_all add: bound)
qed

lemma bind_no_panic:
  assumes "intent_wf intent"
  shows "bind intent \<noteq> Inl Panic"
proof
  assume panic: "bind intent = Inl Panic"
  have "rmap (scope_requested (di_namespace intent)) (di_target intent) \<noteq> Inl Panic"
    using assms by (intro rmap_not_Inl scope_requested_no_panic) (simp add: intent_wf_def)
  with panic obtain specs target where
    order: "order_included intent (applied_names intent) = Inr specs" and
    target: "rmap (scope_requested (di_namespace intent)) (di_target intent) = Inr target" and
    missing: "rmap (\<lambda>spec. expect (List.find (\<lambda>candidate. rq_name candidate = rq_name spec) target)) specs = Inl Panic"
    using order_included_decides [OF applied_names_subset [of intent]]
    by (auto simp: bind_def rbind_eq_Inl)
  have "expect (List.find (\<lambda>candidate. rq_name candidate = rq_name spec) target) \<noteq> Inl Panic"
    if spec: "spec \<in> set specs" for spec
  proof -
    have "rq_name spec \<in> set (map rq_name target)"
      using order_included_sound [OF order applied_names_subset] spec rmap_names [OF target] by auto
    then show ?thesis
      by (auto simp: expect_eq_Inl find_None_iff)
  qed
  then have "rmap (\<lambda>spec. expect (List.find (\<lambda>candidate. rq_name candidate = rq_name spec) target)) specs \<noteq> Inl Panic"
    by (rule rmap_not_Inl)
  with missing show False
    by contradiction
qed

section \<open>The loop over the Services\<close>

definition planned_op ::
  "service_observation list \<Rightarrow> volume_plan \<Rightarrow> requested_service_spec list \<Rightarrow> deploy_operation \<Rightarrow> bool" where
  "planned_op services plan requested operation \<longleftrightarrow>
     (\<exists>spec \<in> set requested. \<exists>machines.
        service_op spec (containers_of services (rq_name spec)) (hooks_of services (rq_name spec)) machines operation
        \<and> (\<forall>m \<in> machines. m \<in> hosts (vp_snapshot plan) (vp_namespace plan) spec
               \<and> (\<exists>s. is_assigned plan m (rq_name spec) s)))
     \<or> (\<exists>m dependent dependency. operation = WaitHealthy m dependent dependency)"

lemma planned_op_extends:
  assumes "planned_op services plan requested operation" and "extends requested' plan plan'"
  shows "planned_op services plan' requested operation"
proof -
  have "vp_snapshot plan' = vp_snapshot plan" "vp_namespace plan' = vp_namespace plan"
    using assms(2) by (simp_all add: extends_def)
  then show ?thesis
    using assms(1) extends_assigned [OF assms(2)] unfolding planned_op_def by metis
qed

lemma planned_op_covered:
  assumes "planned_op services plan requested operation"
  shows "covered plan operation"
  using assms unfolding planned_op_def covered_def
proof (elim disjE bexE exE conjE)
  fix spec machines
  assume "service_op spec (containers_of services (rq_name spec)) (hooks_of services (rq_name spec)) machines operation"
    and "\<forall>m \<in> machines. m \<in> hosts (vp_snapshot plan) (vp_namespace plan) spec \<and> (\<exists>s. is_assigned plan m (rq_name spec) s)"
  moreover from this(2) have "\<forall>m \<in> machines. m \<in> snapshot_ids (vp_snapshot plan) \<and> (\<exists>s. is_assigned plan m (rq_name spec) s)"
    using hosts_subset by blast
  ultimately show "\<forall>spec. op_spec operation = Some spec \<longrightarrow> op_machine_id operation \<in> snapshot_ids (vp_snapshot plan)
      \<and> (\<exists>s. is_assigned plan (op_machine_id operation) (rs_name spec) s)"
    by (cases operation) (simp_all add: starts_def)
qed simp

definition assembly_inv ::
  "service_observation list \<Rightarrow> requested_service_spec list \<Rightarrow> volume_plan \<Rightarrow> assembly \<Rightarrow> bool" where
  "assembly_inv services requested plan st \<longleftrightarrow>
     extends requested plan (as_volume_plan st)
     \<and> reservations_ok services requested (as_volume_plan st) (ps_reservations (as_placement st))
     \<and> (\<forall>operation \<in> set (as_operations st). planned_op services (as_volume_plan st) requested operation)"

lemma add_dependency_waits_fields:
  "as_volume_plan (add_dependency_waits intent spec operations st) = as_volume_plan st"
  "as_placement (add_dependency_waits intent spec operations st) = as_placement st"
  "\<exists>waits. as_operations (add_dependency_waits intent spec operations st) = as_operations st @ waits
     \<and> (\<forall>w \<in> set waits. \<exists>m a b. w = WaitHealthy m a b)"
  by (auto simp: add_dependency_waits_def Let_def split: option.splits)

lemma assemble_service_inv:
  assumes "assemble_service x intent snapshot (services_in snapshot (di_namespace intent)) b spec st = Inr st'"
    and "assembly_inv (services_in snapshot (di_namespace intent)) requested plan st"
    and "ids_distinct (services_in snapshot (di_namespace intent))" and "vp_snapshot plan = snapshot"
    and "spec \<in> set requested" and "vp_namespace plan = di_namespace intent"
  shows "assembly_inv (services_in snapshot (di_namespace intent)) requested plan st'"
proof -
  let ?services = "services_in snapshot (di_namespace intent)"
  obtain operations plan' placement' where
    step: "plan_one_service x spec (di_namespace intent) snapshot ?services (di_options intent)
      (as_volume_plan st, as_placement st) = Inr (operations, plan', placement')" and
    st': "as_volume_plan st' = plan'" "as_placement st' = placement'"
      "as_operations st' = as_operations (add_dependency_waits intent spec operations
        (st\<lparr> as_volume_plan := plan', as_placement := placement' \<rparr>)) @ operations"
    using assms(1) by (auto simp: assemble_service_def rbind_eq_Inr map_fault_eq_Inr Let_def add_dependency_waits_fields(1,2))
  have inv: "extends requested plan (as_volume_plan st)"
    "reservations_ok ?services requested (as_volume_plan st) (ps_reservations (as_placement st))"
    using assms(2) by (simp_all add: assembly_inv_def)
  have snapshot: "vp_snapshot (as_volume_plan st) = snapshot" "vp_namespace (as_volume_plan st) = di_namespace intent"
    using inv(1) assms(4,6) by (simp_all add: extends_def)
  note one = plan_one_service_Inr [OF step assms(3) snapshot(1) assms(5) snapshot(2) inv(2)]
  have snapshot': "vp_snapshot plan' = snapshot" "vp_namespace plan' = di_namespace intent"
    using one(2) snapshot by (simp_all add: extends_def)
  have new: "planned_op ?services plan' requested operation" if "operation \<in> set operations" for operation
    using that one(1) assms(5) unfolding planned_op_def snapshot' by blast
  have old: "planned_op ?services plan' requested operation" if "operation \<in> set (as_operations st)" for operation
    using that assms(2) planned_op_extends [OF _ one(2)] by (simp add: assembly_inv_def)
  obtain waits where waits: "as_operations st' = as_operations st @ waits @ operations"
    "\<forall>w \<in> set waits. \<exists>m a b. w = WaitHealthy m a b"
    using add_dependency_waits_fields(3) [of intent spec operations
        "st\<lparr> as_volume_plan := plan', as_placement := placement' \<rparr>"] st'(3) by auto
  have "planned_op ?services plan' requested operation" if "operation \<in> set waits" for operation
    using that waits(2) by (auto simp: planned_op_def)
  then have "\<forall>operation \<in> set (as_operations st'). planned_op ?services plan' requested operation"
    using new old unfolding waits(1) by auto
  then show ?thesis
    using one(3) extends_trans [OF inv(1) one(2)] by (simp add: assembly_inv_def st'(1,2))
qed


section \<open>The whole plan\<close>

definition snapshot_wf :: "deploy_snapshot \<Rightarrow> bool" where
  "snapshot_wf snapshot \<longleftrightarrow> distinct (map co_container_id (ds_containers snapshot))"

lemma ids_distinct_services_in: "snapshot_wf snapshot \<Longrightarrow> ids_distinct (services_in snapshot namespace)"
  by (simp add: snapshot_wf_def ids_distinct_def containers_of_distinct)

lemma volume_plan_new_Inr:
  "volume_plan_new snapshot namespace target requested = Inr plan \<Longrightarrow>
     plan = \<lparr> vp_snapshot = snapshot, vp_namespace = namespace, vp_assignments = [] \<rparr>"
  by (auto simp: volume_plan_new_def Let_def rbind_eq_Inr)

lemma volume_plan_new_no_panic: "volume_plan_new snapshot namespace target requested \<noteq> Inl Panic"
proof -
  have "validate_definition plan spec definitions \<noteq> Inl Panic" for plan spec definitions
    by (auto simp: validate_definition_def Let_def rbind_eq_Inl map_err_eq_Inl placement_candidates_no_panic)
  then have "validate_provisioned_volume_definitions plan target \<noteq> Inl Panic" for plan
    unfolding validate_provisioned_volume_definitions_def
    by (intro rfold_not_Inl) (simp add: map_fault_Panic)
  then show ?thesis
    by (auto simp: volume_plan_new_def Let_def rbind_eq_Inl map_err_eq_Inl)
qed

abbreviation retired :: "deploy_intent \<Rightarrow> deploy_snapshot \<Rightarrow> qualified_service list" where
  "retired intent snapshot \<equiv>
     if prune_refusal intent (is_observer_complete snapshot) = None
     then obsolete_services intent (services_in snapshot (di_namespace intent)) else []"

lemma assemble_plan_steps:
  assumes "assemble_plan x intent bound snapshot = Inr planned"
  obtains warnings plan0 plan1 reservations st volumes operations where
    "hostname_policy_for (di_namespace intent) (bi_requested bound) snapshot (retired intent snapshot) = Inr warnings"
    "volume_plan_new snapshot (di_namespace intent) (bi_target bound) (bi_requested bound) = Inr plan0"
    "reserve_shared x (bi_requested bound) (services_in snapshot (di_namespace intent)) (di_options intent)
       (plan0, reservations_new snapshot) = Inr (plan1, reservations)"
    "rfold (assemble_service x intent snapshot (services_in snapshot (di_namespace intent))
         (1 < length (bi_requested bound))) (bi_requested bound)
       \<lparr> as_volume_plan = plan1, as_placement = into_placement reservations snapshot,
         as_warnings = warnings @ storage_eligibility_warnings (bi_requested bound) (di_namespace intent) snapshot,
         as_operations = [] \<rparr> = Inr st"
    "volume_finish (as_volume_plan st) (as_operations st) = Inr (volumes, operations)"
    "planned = \<lparr> pd_operations = operations
         @ (if prune_refusal intent (is_observer_complete snapshot) = None
            then removal_operations (services_in snapshot (di_namespace intent)) (retired intent snapshot) else []),
       pd_volumes = volumes,
       pd_would_remove = obsolete_services intent (services_in snapshot (di_namespace intent)),
       pd_preserved_volumes = preserved_owned_volumes (di_namespace intent) (bi_target bound) snapshot,
       pd_prune_refusal = prune_refusal intent (is_observer_complete snapshot),
       pd_warnings = as_warnings st \<rparr>"
  using assms unfolding assemble_plan_def Let_def
  by (auto simp: rbind_eq_Inr map_err_eq_Inr simp del: if_weak_cong)

lemma assembly_start:
  assumes "snapshot_wf snapshot" and "distinct (map rq_name requested)"
    and "volume_plan_new snapshot namespace target requested = Inr plan0"
    and "reserve_shared x requested (services_in snapshot namespace) options (plan0, reservations_new snapshot)
      = Inr (plan1, reservations)"
  shows "extends requested plan0 plan1"
    and "reservations_ok (services_in snapshot namespace) requested plan1 (pr_reservations reservations)"
proof -
  have "reservations_ok (services_in snapshot namespace) requested plan0 (pr_reservations (reservations_new snapshot))"
    by (simp add: reservations_ok_def reservations_new_def)
  from reserve_shared_Inr [OF assms(4) ids_distinct_services_in [OF assms(1)] assms(2) this]
  show "extends requested plan0 plan1"
    "reservations_ok (services_in snapshot namespace) requested plan1 (pr_reservations reservations)"
    by simp_all
qed

lemma assemble_services_inv:
  assumes "snapshot_wf snapshot" and "distinct (map rq_name requested)"
    and "volume_plan_new snapshot (di_namespace intent) target requested = Inr plan0"
    and "reserve_shared x requested (services_in snapshot (di_namespace intent)) (di_options intent)
      (plan0, reservations_new snapshot) = Inr (plan1, reservations)"
    and "rfold (assemble_service x intent snapshot (services_in snapshot (di_namespace intent)) b) pre
       \<lparr> as_volume_plan = plan1, as_placement = into_placement reservations snapshot,
         as_warnings = warnings, as_operations = [] \<rparr> = Inr st"
    and "set pre \<subseteq> set requested"
  shows "assembly_inv (services_in snapshot (di_namespace intent)) requested plan0 st"
proof -
  note start = assembly_start [OF assms(1-4)]
  have plan0: "vp_snapshot plan0 = snapshot" "vp_namespace plan0 = di_namespace intent"
    using volume_plan_new_Inr [OF assms(3)] by simp_all
  show ?thesis
  proof (rule rfold_invariant [OF assms(5)])
    show "assembly_inv (services_in snapshot (di_namespace intent)) requested plan0
        \<lparr> as_volume_plan = plan1, as_placement = into_placement reservations snapshot,
         as_warnings = warnings, as_operations = [] \<rparr>"
      using start by (simp add: assembly_inv_def into_placement_def)
  qed (use assemble_service_inv ids_distinct_services_in [OF assms(1)] plan0 assms(6) in blast)
qed

text \<open>The services loop cannot panic.\<close>

lemma assemble_services_no_panic:
  assumes "snapshot_wf snapshot" and "distinct (map rq_name requested)" and "\<forall>spec \<in> set requested. spec_scoped spec"
    and "volume_plan_new snapshot (di_namespace intent) target requested = Inr plan0"
    and "reserve_shared x requested (services_in snapshot (di_namespace intent)) (di_options intent)
      (plan0, reservations_new snapshot) = Inr (plan1, reservations)"
    and "set specs \<subseteq> set requested"
  shows "rfold (assemble_service x intent snapshot (services_in snapshot (di_namespace intent)) b) specs
       \<lparr> as_volume_plan = plan1, as_placement = into_placement reservations snapshot,
         as_warnings = warnings, as_operations = [] \<rparr> \<noteq> Inl Panic"
  using assms(6)
proof (induction specs rule: rev_induct)
  case (snoc spec specs)
  let ?start = "\<lparr> as_volume_plan = plan1, as_placement = into_placement reservations snapshot,
         as_warnings = warnings, as_operations = [] \<rparr>"
  let ?run = "assemble_service x intent snapshot (services_in snapshot (di_namespace intent)) b"
  show ?case
  proof (cases "rfold ?run specs ?start")
    case (Inr st)
    have "assembly_inv (services_in snapshot (di_namespace intent)) requested plan0 st"
      using assemble_services_inv [OF assms(1,2,4,5) Inr] snoc.prems by simp
    then have "reservations_ok (services_in snapshot (di_namespace intent)) requested (as_volume_plan st)
        (ps_reservations (as_placement st))"
      by (simp add: assembly_inv_def)
    then have "plan_one_service x spec (di_namespace intent) snapshot (services_in snapshot (di_namespace intent))
        (di_options intent) (as_volume_plan st, as_placement st) \<noteq> Inl Panic"
      using snoc.prems assms(3) ids_distinct_services_in [OF assms(1)]
      by (intro plan_one_service_no_panic [where requested = requested]) auto
    then have "?run spec st \<noteq> Inl Panic"
      by (auto simp: assemble_service_def rbind_eq_Inl map_fault_Panic Let_def)
    then show ?thesis
      using Inr by (simp add: rfold_append rbind_eq_Inl)
  qed (use snoc in \<open>simp add: rfold_append\<close>)
qed simp

lemma assemble_plan_no_panic:
  assumes "snapshot_wf snapshot" and "distinct (map rq_name (bi_requested bound))"
    and "\<forall>spec \<in> set (bi_requested bound). spec_scoped spec"
  shows "assemble_plan x intent bound snapshot \<noteq> Inl Panic"
proof
  assume panic: "assemble_plan x intent bound snapshot = Inl Panic"
  let ?services = "services_in snapshot (di_namespace intent)"
  have ports: "rfold (\<lambda>spec _. validate_host_ports x spec) specs () \<noteq> Inl Panic" for specs
    by (intro rfold_not_Inl) (simp add: validate_host_ports_def)
  obtain plan0 plan1 reservations st warnings where
    plan0: "volume_plan_new snapshot (di_namespace intent) (bi_target bound) (bi_requested bound) = Inr plan0" and
    shared: "reserve_shared x (bi_requested bound) ?services (di_options intent)
       (plan0, reservations_new snapshot) = Inr (plan1, reservations)" and
    loop: "rfold (assemble_service x intent snapshot ?services (1 < length (bi_requested bound))) (bi_requested bound)
       \<lparr> as_volume_plan = plan1, as_placement = into_placement reservations snapshot,
         as_warnings = warnings @ storage_eligibility_warnings (bi_requested bound) (di_namespace intent) snapshot,
         as_operations = [] \<rparr> = Inr st" and
    finish: "volume_finish (as_volume_plan st) (as_operations st) = Inl Panic"
    using panic ports volume_plan_new_no_panic reserve_shared_no_panic [OF assms(3)]
      assemble_services_no_panic [OF assms] unfolding assemble_plan_def Let_def
    by (auto simp: rbind_eq_Inl map_err_eq_Inl)
  have "assembly_inv ?services (bi_requested bound) plan0 st"
    using assemble_services_inv [OF assms(1,2) plan0 shared loop] by simp
  then have "\<forall>operation \<in> set (as_operations st). covered (as_volume_plan st) operation"
    using planned_op_covered by (auto simp: assembly_inv_def)
  from volume_finish_no_panic [OF this] finish show False
    by simp
qed

section \<open>Examples\<close>

text \<open>A database with a provisioned Volume and a web Service; one Machine with storage, an older
  container of the web Service and one of a Service that is no longer declared.\<close>

definition example_db :: requested_service_spec where
  "example_db = (example_spec ''db'' (Replicated 1) [])\<lparr> rq_mount_graph :=
     \<lparr> mg_volumes =
         \<lparr> vg_volumes = [\<lparr> sv_reference = ''data'',
             sv_source = \<lparr> vs_source = Provisioned ''data'' 1073741824 [], vs_scope = None \<rparr> \<rparr>],
           vg_mounts = [example_mount ''data'' ''/data''] \<rparr>,
       mg_configs = \<lparr> cg_configs = [], cg_mounts = [] \<rparr> \<rparr> \<rparr>"

definition example_deploy :: deploy_intent where
  "example_deploy = apply_all ''prod'' [example_db, example_spec ''web'' (Replicated 1) []] plan_options_default"

definition example_legacy :: container_observation where
  "example_legacy = example_observation ''c2'' ''m1'' 1 (example_resolved ''legacy'' (Replicated 1) [])"

definition example_snapshot :: deploy_snapshot where
  "example_snapshot =
     \<lparr> ds_machines = [(machine_observation_new (example_machine ''m1'' ''one'') Up)\<lparr> mo_storage := Some Ready \<rparr>],
       ds_storage_capacity = [(''m1'', Inr (example_capacity\<lparr> committed_volumes := [] \<rparr>))],
       ds_containers = [example_observation ''c1'' ''m1'' 0
            ((example_resolved ''web'' (Replicated 1) [])\<lparr> rs_container := example_container ''old'' \<rparr>),
          example_legacy],
       ds_volume_snapshot = \<lparr> vsn_observations = [\<lparr> dv_id = DockerVolumeId ''m1'' ''prod_old'', dv_options = [],
            dv_labels = [(MANAGED_LABEL, []), (NAMESPACE_LABEL, ''prod'')], dv_storage = Plain ''local'' \<rparr>],
          vsn_named_failures = [], vsn_machine_failures = [], vsn_omissions = [] \<rparr>,
       ds_container_failures = [], ds_container_omissions = [], ds_capacity = None \<rparr>"

fun starts_volume_service :: "deploy_operation \<Rightarrow> bool" where
  "starts_volume_service (RunContainer m spec _) \<longleftrightarrow> m = ''m1'' \<and> rs_name spec = ''db''
     \<and> has_mounted_provisioned_volume (rs_volume_graph spec)"
| "starts_volume_service _ \<longleftrightarrow> False"

fun removes_legacy :: "deploy_operation \<Rightarrow> bool" where
  "removes_legacy (RemoveContainer m c) \<longleftrightarrow> m = ''m1'' \<and> c = ''c2''"
| "removes_legacy _ \<longleftrightarrow> False"

lemma example_evaluates:
  "case plan_operations example_ext example_deploy example_snapshot of
     Inl _ \<Rightarrow> False
   | Inr planned \<Rightarrow> list_ex starts_volume_service (pd_operations planned) \<and> list_ex removes_legacy (pd_operations planned)"
  by code_simp

lemma example_plan_deploy:
  obtains plan operation where "plan_deploy example_ext example_deploy example_snapshot = Inr plan"
    "operation \<in> set (pl_operations plan)" "starts_volume_service operation"
    "RemoveContainer ''m1'' ''c2'' \<in> set (pl_operations plan)"
proof -
  obtain planned where planned: "plan_operations example_ext example_deploy example_snapshot = Inr planned"
    "list_ex starts_volume_service (pd_operations planned)" "list_ex removes_legacy (pd_operations planned)"
    using example_evaluates by (auto split: sum.splits)
  moreover have "removes_legacy operation \<Longrightarrow> operation = RemoveContainer ''m1'' ''c2''" for operation
    by (cases operation) simp_all
  ultimately show ?thesis
    using that by (auto simp: plan_deploy_def Let_def seal_plan_def list_ex_iff)
qed

lemma example_wf: "intent_wf example_deploy" "snapshot_wf example_snapshot"
  by (code_simp, simp add: snapshot_wf_def example_snapshot_def example_legacy_def example_observation_def)

text \<open>
  Claim C2. No assertion of the planner can fail. For an intent whose Volume graphs were admitted
  and a snapshot with distinct container ids, the plan of a Deploy and the plan of a Namespace
  removal return a plan or an error of the code; none of the \<open>expect\<close> and \<open>unreachable!\<close> calls in the
  binding, the reservation of shared Volumes, the placement, the endpoint budget, the resolution of
  specifications and the preparation of Volumes panics.
\<close>

theorem planner_never_panics:
  assumes "intent_wf intent" and "snapshot_wf snapshot"
  shows "plan_deploy x intent snapshot \<noteq> Inl Panic
    \<and> prepare_namespace_removal x namespace snapshot fate \<noteq> Inl Panic"
proof -
  have "plan_operations x intent snapshot \<noteq> Inl Panic" if "intent_wf intent" for intent
  proof (cases "bind intent")
    case (Inr bound)
    have "assemble_plan x intent bound snapshot \<noteq> Inl Panic"
      using bind_Inr [OF Inr] assms(2) by (intro assemble_plan_no_panic) auto
    with Inr show ?thesis
      by (simp add: plan_operations_def)
  qed (use bind_no_panic [OF that] in \<open>simp add: plan_operations_def\<close>)
  then show ?thesis
    using assms(1)
    by (auto simp: plan_deploy_def prepare_namespace_removal_def Let_def rbind_eq_Inl intent_wf_def
        apply_all_def intent_new_def)
qed


theorem planner_never_panics_witness:
  "intent_wf example_deploy \<and> snapshot_wf example_snapshot
     \<and> plan_deploy example_ext example_deploy example_snapshot \<noteq> Inl Panic"
  using planner_never_panics [OF example_wf, of example_ext] example_wf by simp

section \<open>What a plan contains\<close>

lemma plan_operations_Inr:
  assumes "plan_operations x intent snapshot = Inr planned" and "snapshot_wf snapshot"
  obtains bound plan operations preparations where
    "bind intent = Inr bound"
    "pd_operations planned = preparations @ operations
       @ removal_operations (services_in snapshot (di_namespace intent)) (retired intent snapshot)"
    "\<forall>operation \<in> set operations.
       planned_op (services_in snapshot (di_namespace intent)) plan (bi_requested bound) operation"
    "ledger_from (bi_requested bound) plan" "vp_snapshot plan = snapshot" "vp_namespace plan = di_namespace intent"
    "list_all2 (preparation_of plan) (active_machines operations) preparations"
    "list_all2 (budget_admitted snapshot) preparations (plv_budgets (pd_volumes planned))"
    "is_ok (hostname_policy_for (di_namespace intent) (bi_requested bound) snapshot (retired intent snapshot))"
proof -
  obtain bound where bound: "bind intent = Inr bound" and assemble: "assemble_plan x intent bound snapshot = Inr planned"
    using assms(1) by (auto simp: plan_operations_def rbind_eq_Inr)
  from assemble show thesis
  proof (rule assemble_plan_steps)
    fix warnings plan0 plan1 reservations st volumes operations'
    assume hostnames: "hostname_policy_for (di_namespace intent) (bi_requested bound) snapshot (retired intent snapshot)
        = Inr warnings"
      and plan0: "volume_plan_new snapshot (di_namespace intent) (bi_target bound) (bi_requested bound) = Inr plan0"
      and shared: "reserve_shared x (bi_requested bound) (services_in snapshot (di_namespace intent)) (di_options intent)
       (plan0, reservations_new snapshot) = Inr (plan1, reservations)"
      and loop: "rfold (assemble_service x intent snapshot (services_in snapshot (di_namespace intent))
         (1 < length (bi_requested bound))) (bi_requested bound)
       \<lparr> as_volume_plan = plan1, as_placement = into_placement reservations snapshot,
         as_warnings = warnings @ storage_eligibility_warnings (bi_requested bound) (di_namespace intent) snapshot,
         as_operations = [] \<rparr> = Inr st"
      and finish: "volume_finish (as_volume_plan st) (as_operations st) = Inr (volumes, operations')"
      and planned: "planned = \<lparr> pd_operations = operations'
         @ (if prune_refusal intent (is_observer_complete snapshot) = None
            then removal_operations (services_in snapshot (di_namespace intent)) (retired intent snapshot) else []),
       pd_volumes = volumes,
       pd_would_remove = obsolete_services intent (services_in snapshot (di_namespace intent)),
       pd_preserved_volumes = preserved_owned_volumes (di_namespace intent) (bi_target bound) snapshot,
       pd_prune_refusal = prune_refusal intent (is_observer_complete snapshot),
       pd_warnings = as_warnings st \<rparr>"
    have inv: "assembly_inv (services_in snapshot (di_namespace intent)) (bi_requested bound) plan0 st"
      using assemble_services_inv [OF assms(2) bind_Inr(4) [OF bound] plan0 shared loop] by simp
    have "ledger_from (bi_requested bound) plan0" "vp_snapshot plan0 = snapshot" "vp_namespace plan0 = di_namespace intent"
      using volume_plan_new_Inr [OF plan0] by (simp_all add: ledger_from_def ledger_wf_def is_assigned_def)
    then have plan: "ledger_from (bi_requested bound) (as_volume_plan st)" "vp_snapshot (as_volume_plan st) = snapshot"
      "vp_namespace (as_volume_plan st) = di_namespace intent"
      using inv by (simp_all add: assembly_inv_def extends_def)
    obtain preparations where preparations: "operations' = preparations @ as_operations st"
      "list_all2 (preparation_of (as_volume_plan st)) (active_machines (as_operations st)) preparations"
      "list_all2 (budget_admitted snapshot) preparations (plv_budgets volumes)"
      using volume_finish_Inr [OF finish] plan(2) by auto
    have "removal_operations services [] = []" for services
      by (simp add: removal_operations_def)
    then have "pd_operations planned = preparations @ as_operations st
       @ removal_operations (services_in snapshot (di_namespace intent)) (retired intent snapshot)"
      using planned preparations(1) by simp
    from that [OF bound this _ plan preparations(2)] inv preparations(3) planned hostnames show thesis
      by (simp add: assembly_inv_def)
  qed
qed

lemma plan_deploy_Inr:
  assumes "plan_deploy x intent snapshot = Inr plan"
  obtains planned where "plan_operations x intent snapshot = Inr planned"
    "pl_operations plan = pd_operations planned"
    "dp_storage (pl_preview plan) = plv_budgets (pd_volumes planned)"
  using assms by (auto simp: plan_deploy_def rbind_eq_Inr Let_def seal_plan_def)

text \<open>A container that a Deploy of the intent may touch: of the Namespace, and either of a Service
  that is applied, or of one that is retired.\<close>

definition applied_container :: "deploy_intent \<Rightarrow> deploy_snapshot \<Rightarrow> container_observation \<Rightarrow> bool" where
  "applied_container intent snapshot c \<longleftrightarrow> c \<in> set (ds_containers snapshot) \<and> co_namespace c = di_namespace intent
     \<and> rs_name (co_resolved_spec c) \<in> set (applied_names intent)"

definition retired_container :: "deploy_intent \<Rightarrow> deploy_snapshot \<Rightarrow> container_observation \<Rightarrow> bool" where
  "retired_container intent snapshot c \<longleftrightarrow> c \<in> set (ds_containers snapshot) \<and> co_namespace c = di_namespace intent
     \<and> rs_name (co_resolved_spec c) \<notin> set (target_names intent)
     \<and> is_observer_complete snapshot \<and> po_selected (di_options intent) = []
     \<and> \<not> namespace_is_reserved (di_namespace intent)"

lemma observed_applied:
  assumes "c \<in> set (containers_of (services_in snapshot (di_namespace intent)) name)
      \<or> c \<in> set (hooks_of (services_in snapshot (di_namespace intent)) name)"
    and "name \<in> set (applied_names intent)"
  shows "applied_container intent snapshot c"
  using observed_of_services_in [OF assms(1)] assms(2) by (auto simp: applied_container_def co_identity_def)

lemma prune_refusal_None:
  "prune_refusal intent complete = None \<longleftrightarrow> complete \<and> po_selected (di_options intent) = []"
  by (simp add: prune_refusal_def)

lemma removal_operation_retired:
  assumes "operation \<in> set (removal_operations (services_in snapshot (di_namespace intent)) (retired intent snapshot))"
  shows "\<exists>c. retired_container intent snapshot c \<and> operation = RemoveContainer (co_machine_id c) (co_container_id c)"
proof -
  let ?services = "services_in snapshot (di_namespace intent)"
  obtain service c where service: "service \<in> set ?services" "so_identity service \<in> set (retired intent snapshot)" and
    c: "c \<in> set (containers_for service Action_Remove)"
      "operation = RemoveContainer (co_machine_id c) (co_container_id c)"
    using assms by (auto simp: removal_operations_def)
  have "c \<in> set (ds_containers snapshot)" "co_identity c = so_identity service"
    using c(1) services_in_member [OF service(1)] by (auto simp: containers_for_def)
  moreover have "prune_refusal intent (is_observer_complete snapshot) = None"
    "\<not> namespace_is_reserved (di_namespace intent)" "qs_name (so_identity service) \<notin> set (target_names intent)"
    using service(2) by (auto simp: obsolete_services_def Let_def target_names_def split: if_splits)
  ultimately have "retired_container intent snapshot c"
    using services_in_namespace [OF service(1)]
    by (auto simp: retired_container_def prune_refusal_None co_identity_def dest: sym)
  with c(2) show ?thesis
    by blast
qed

text \<open>The containers that an operation stops, replaces or removes.\<close>

fun op_touches :: "deploy_operation \<Rightarrow> (machine_id \<times> container_id) set" where
  "op_touches (StopContainer m c _) = {(m, c)}"
| "op_touches (RemoveContainer m c) = {(m, c)}"
| "op_touches (StopHook m c) = {(m, c)}"
| "op_touches (ReplaceContainer r) = {(rep_machine_id r, rep_old_container_id r)}"
| "op_touches (RunHook _ _ old) = set old"
| "op_touches _ = {}"

lemma planned_op_container:
  assumes "planned_op (services_in snapshot (di_namespace intent)) plan requested operation"
    and "touched \<in> op_touches operation" and "rq_name ` set requested \<subseteq> set (applied_names intent)"
  shows "\<exists>container. applied_container intent snapshot container \<and> location container = touched"
proof -
  let ?services = "services_in snapshot (di_namespace intent)"
  obtain spec machines where spec: "spec \<in> set requested" and
    op: "service_op spec (containers_of ?services (rq_name spec)) (hooks_of ?services (rq_name spec)) machines operation"
    using assms(1,2) by (auto simp: planned_op_def)
  have "touched \<in> location ` set (containers_of ?services (rq_name spec))
      \<or> touched \<in> location ` set (hooks_of ?services (rq_name spec))"
    using op assms(2) by (cases operation) auto
  then obtain container where "location container = touched"
    "container \<in> set (containers_of ?services (rq_name spec)) \<or> container \<in> set (hooks_of ?services (rq_name spec))"
    by auto
  with observed_applied [OF this(2)] spec assms(3) show ?thesis
    by blast
qed

text \<open>What an operation of a Deploy may do.\<close>

definition owned_operation :: "deploy_intent \<Rightarrow> deploy_snapshot \<Rightarrow> deploy_operation \<Rightarrow> bool" where
  "owned_operation intent snapshot operation \<longleftrightarrow>
     (\<forall>touched \<in> op_touches operation. \<exists>container. location container = touched
        \<and> (applied_container intent snapshot container
           \<or> retired_container intent snapshot container
             \<and> operation = RemoveContainer (co_machine_id container) (co_container_id container)))
     \<and> (\<forall>v. operation \<noteq> RemoveVolume v)"

lemma plan_owned:
  assumes "plan_deploy x intent snapshot = Inr plan" and "snapshot_wf snapshot"
    and "operation \<in> set (pl_operations plan)"
  shows "owned_operation intent snapshot operation"
proof -
  obtain planned where planned: "plan_operations x intent snapshot = Inr planned"
    "pl_operations plan = pd_operations planned"
    using assms(1) by (rule plan_deploy_Inr)
  from planned(1) assms(2) show ?thesis
  proof (rule plan_operations_Inr)
    fix bound vplan operations preparations
    assume bound: "bind intent = Inr bound"
      and ops: "pd_operations planned = preparations @ operations
       @ removal_operations (services_in snapshot (di_namespace intent)) (retired intent snapshot)"
      and planned_ops: "\<forall>operation \<in> set operations.
       planned_op (services_in snapshot (di_namespace intent)) vplan (bi_requested bound) operation"
      and preparations: "list_all2 (preparation_of vplan) (active_machines operations) preparations"
    have names: "rq_name ` set (bi_requested bound) \<subseteq> set (applied_names intent)"
      using bind_Inr(5) [OF bound] by simp
    consider "operation \<in> set preparations" | "operation \<in> set operations"
      | "operation \<in> set (removal_operations (services_in snapshot (di_namespace intent)) (retired intent snapshot))"
      using assms(3) planned(2) ops by auto
    then show ?thesis
    proof cases
      case 1
      then obtain m specs where "operation = PrepareVolumes m specs"
        using preparations by (auto simp: list_all2_conv_all_nth in_set_conv_nth preparation_of_def)
      then show ?thesis
        by (simp add: owned_operation_def)
    next
      case 2
      then have op: "planned_op (services_in snapshot (di_namespace intent)) vplan (bi_requested bound) operation"
        using planned_ops by blast
      then have "operation \<noteq> RemoveVolume v" for v
        by (auto simp: planned_op_def)
      then show ?thesis
        using planned_op_container [OF op _ names] unfolding owned_operation_def by blast
    next
      case 3
      from removal_operation_retired [OF this] show ?thesis
        by (auto simp: location_def owned_operation_def)
    qed
  qed
qed

text \<open>
  Claim C1. A Deploy touches nothing that is not its own. Every operation of a plan that stops,
  replaces or removes containers, old hook containers included, names containers observed on that
  Machine in the intent's Namespace. Each container belongs to a Service that the command applies, or
  the operation removes a container of a Service that the target no longer declares; the latter only
  when the snapshot is complete, no Services were selected and the Namespace is not reserved. No
  operation of a Deploy removes a Volume.
\<close>

theorem plan_touches_only_owned:
  assumes "plan_deploy x intent snapshot = Inr plan" and "snapshot_wf snapshot"
    and "operation \<in> set (pl_operations plan)"
  shows "(\<forall>touched \<in> op_touches operation. \<exists>container. location container = touched
      \<and> (applied_container intent snapshot container
         \<or> retired_container intent snapshot container
           \<and> operation = RemoveContainer (co_machine_id container) (co_container_id container)))
    \<and> (\<forall>v. operation \<noteq> RemoveVolume v)"
  using plan_owned [OF assms] unfolding owned_operation_def .

theorem plan_touches_only_owned_witness:
  "\<exists>plan container. plan_deploy example_ext example_deploy example_snapshot = Inr plan
     \<and> RemoveContainer ''m1'' ''c2'' \<in> set (pl_operations plan) \<and> location container = (''m1'', ''c2'')
     \<and> (applied_container example_deploy example_snapshot container
        \<or> retired_container example_deploy example_snapshot container)"
proof -
  obtain plan operation where plan: "plan_deploy example_ext example_deploy example_snapshot = Inr plan"
    "RemoveContainer ''m1'' ''c2'' \<in> set (pl_operations plan)"
    by (rule example_plan_deploy)
  from plan_touches_only_owned [OF plan(1) example_wf(2) plan(2)] plan show ?thesis
    by auto
qed

end
