(* ===== verification/Plan_Guarantees.thy ===== *)
theory Plan_Guarantees
  imports Plan_Safety
begin

text \<open>
  Further guarantees of a Deploy plan: where it starts containers, that Volumes are prepared and
  budgeted before they are used, that hostnames have one owner, and what the removal of a
  Namespace removes.
\<close>

section \<open>Where containers start\<close>

lemma scoped_in_target:
  assumes "bind intent = Inr bound" and "spec \<in> set (bi_requested bound)"
  shows "\<exists>declared \<in> set (di_target intent). scope_requested (di_namespace intent) declared = Inr spec"
proof -
  have "spec \<in> set (bi_target bound)"
    using bind_Inr(2) [OF assms(1)] assms(2) by blast
  moreover obtain target where "rmap (scope_requested (di_namespace intent)) (di_target intent) = Inr target"
    "bi_target bound = target"
    using assms(1) by (auto simp: bind_def rbind_eq_Inr)
  ultimately show ?thesis
    by (fastforce simp: rmap_eq_Inr list_all2_conv_all_nth in_set_conv_nth Bex_def)
qed

lemma planned_op_starts:
  assumes "planned_op services plan requested operation" and "op_spec operation = Some resolved"
  shows "\<exists>spec \<in> set requested. starts spec resolved
    \<and> op_machine_id operation \<in> hosts (vp_snapshot plan) (vp_namespace plan) spec
    \<and> (\<exists>s. is_assigned plan (op_machine_id operation) (rq_name spec) s)"
proof -
  obtain spec machines where spec: "spec \<in> set requested" and
    op: "service_op spec (containers_of services (rq_name spec)) (hooks_of services (rq_name spec)) machines operation" and
    machines: "\<forall>m \<in> machines. m \<in> hosts (vp_snapshot plan) (vp_namespace plan) spec
      \<and> (\<exists>s. is_assigned plan m (rq_name spec) s)"
    using assms by (auto simp: planned_op_def)
  have "starts spec resolved \<and> op_machine_id operation \<in> machines"
    using op assms(2) by (cases operation) auto
  with spec machines show ?thesis
    by blast
qed

lemma plan_op_cases:
  assumes "plan_operations x intent snapshot = Inr planned" and "snapshot_wf snapshot"
    and "operation \<in> set (pd_operations planned)" and "op_spec operation = Some resolved"
  obtains bound plan operations preparations where "bind intent = Inr bound"
    "operation \<in> set operations" "pd_operations planned = preparations @ operations
       @ removal_operations (services_in snapshot (di_namespace intent)) (retired intent snapshot)"
    "planned_op (services_in snapshot (di_namespace intent)) plan (bi_requested bound) operation"
    "ledger_from (bi_requested bound) plan" "vp_snapshot plan = snapshot" "vp_namespace plan = di_namespace intent"
    "list_all2 (preparation_of plan) (active_machines operations) preparations"
  using assms(1,2)
proof (rule plan_operations_Inr)
  fix bound plan operations preparations
  assume *: "bind intent = Inr bound"
    "pd_operations planned = preparations @ operations
       @ removal_operations (services_in snapshot (di_namespace intent)) (retired intent snapshot)"
    "\<forall>operation \<in> set operations.
       planned_op (services_in snapshot (di_namespace intent)) plan (bi_requested bound) operation"
    "ledger_from (bi_requested bound) plan" "vp_snapshot plan = snapshot" "vp_namespace plan = di_namespace intent"
    "list_all2 (preparation_of plan) (active_machines operations) preparations"
  have "operation \<notin> set preparations"
    using *(7) assms(4) by (auto simp: list_all2_conv_all_nth in_set_conv_nth preparation_of_def)
  moreover have "operation \<notin> set (removal_operations (services_in snapshot (di_namespace intent)) (retired intent snapshot))"
    using removal_operation_retired assms(4) by fastforce
  ultimately have "operation \<in> set operations"
    using assms(3) *(2) by simp
  with * that show thesis
    by blast
qed

text \<open>
  Claim C13. Every container and every hook that a plan starts is of a Service of the target that
  the command applies, with the container specification, the ports and the scoped mounts that the
  target declares, and runs on an observed Machine that is not down, accepts the work, matches the
  placement constraints and can store the provisioned Volumes of the Service.
\<close>

theorem plan_starts_on_hosts:
  assumes "plan_deploy x intent snapshot = Inr plan" and "snapshot_wf snapshot"
    and "operation \<in> set (pl_operations plan)" and "op_spec operation = Some resolved"
  shows "\<exists>declared \<in> set (di_target intent). \<exists>spec. scope_requested (di_namespace intent) declared = Inr spec
    \<and> rq_name spec \<in> set (applied_names intent) \<and> starts spec resolved
    \<and> (\<exists>machine \<in> set (ds_machines snapshot). m_id (mo_machine machine) = op_machine_id operation
         \<and> may_host spec (di_namespace intent) machine)"
proof -
  obtain planned where planned: "plan_operations x intent snapshot = Inr planned"
    "pl_operations plan = pd_operations planned"
    using assms(1) by (rule plan_deploy_Inr)
  from planned(1) assms(2) assms(3) [unfolded planned(2)] assms(4) show ?thesis
  proof (rule plan_op_cases)
    fix bound vplan operations preparations
    assume bound: "bind intent = Inr bound"
      and op: "planned_op (services_in snapshot (di_namespace intent)) vplan (bi_requested bound) operation"
      and same: "vp_snapshot vplan = snapshot" "vp_namespace vplan = di_namespace intent"
    obtain spec where spec: "spec \<in> set (bi_requested bound)" "starts spec resolved"
      "op_machine_id operation \<in> hosts snapshot (di_namespace intent) spec"
      using planned_op_starts [OF op assms(4)] same by auto
    have "rq_name spec \<in> set (applied_names intent)"
      using bind_Inr(5) [OF bound] spec(1) by auto
    then show ?thesis
      using scoped_in_target [OF bound spec(1)] spec(2,3) by (fastforce simp: hosts_def)
  qed
qed

theorem plan_starts_on_hosts_witness:
  "\<exists>plan operation resolved spec machine. plan_deploy example_ext example_deploy example_snapshot = Inr plan
     \<and> operation \<in> set (pl_operations plan) \<and> op_spec operation = Some resolved
     \<and> starts spec resolved \<and> machine \<in> set (ds_machines example_snapshot)
     \<and> may_host spec (di_namespace example_deploy) machine"
proof -
  obtain plan operation where plan: "plan_deploy example_ext example_deploy example_snapshot = Inr plan"
    "operation \<in> set (pl_operations plan)" "starts_volume_service operation"
    by (rule example_plan_deploy)
  then obtain resolved where "op_spec operation = Some resolved"
    by (cases operation) auto
  from plan_starts_on_hosts [OF plan(1) example_wf(2) plan(2) this] plan this show ?thesis
    by blast
qed

section \<open>Volumes are prepared first\<close>

text \<open>
  Claim C12. A plan prepares storage before it is used, and only storage that fits. An operation
  that starts a container with a provisioned Volume comes after a preparation of the Volumes of
  that Service on the same Machine. The preparations are the first operations of the plan, one per
  Machine, and each has a storage budget in the preview, which the capacity that the Machine
  reported admits for all prepared Volumes together.
\<close>

theorem plan_prepares_volumes:
  assumes "plan_deploy x intent snapshot = Inr plan" and "snapshot_wf snapshot"
    and "operation \<in> set (pl_operations plan)" and "op_spec operation = Some resolved"
    and "has_mounted_provisioned_volume (rs_volume_graph resolved)"
  shows "\<exists>preparations rest specs storage. pl_operations plan = preparations @ rest \<and> operation \<in> set rest
    \<and> PrepareVolumes (op_machine_id operation) specs \<in> set preparations
    \<and> storage \<in> set specs \<and> ss_volumes storage = rs_volume_graph resolved
    \<and> distinct (map op_machine_id preparations)
    \<and> list_all2 (budget_admitted snapshot) preparations (dp_storage (pl_preview plan))"
proof -
  obtain planned where planned: "plan_operations x intent snapshot = Inr planned"
    "pl_operations plan = pd_operations planned" "dp_storage (pl_preview plan) = plv_budgets (pd_volumes planned)"
    using assms(1) by (rule plan_deploy_Inr)
  from planned(1) assms(2) show ?thesis
  proof (rule plan_operations_Inr)
    fix bound vplan operations preparations
    assume bound: "bind intent = Inr bound"
      and ops: "pd_operations planned = preparations @ operations
       @ removal_operations (services_in snapshot (di_namespace intent)) (retired intent snapshot)"
      and planned_ops: "\<forall>operation \<in> set operations.
       planned_op (services_in snapshot (di_namespace intent)) vplan (bi_requested bound) operation"
      and ledger: "ledger_from (bi_requested bound) vplan"
      and preparations: "list_all2 (preparation_of vplan) (active_machines operations) preparations"
      and budgets: "list_all2 (budget_admitted snapshot) preparations (plv_budgets (pd_volumes planned))"
    have "operation \<notin> set preparations"
      using preparations assms(4) by (auto simp: list_all2_conv_all_nth in_set_conv_nth preparation_of_def)
    moreover have "operation \<notin> set (removal_operations (services_in snapshot (di_namespace intent)) (retired intent snapshot))"
      using removal_operation_retired assms(4) by fastforce
    ultimately have op: "operation \<in> set operations"
      using assms(3) planned(2) ops by simp
    obtain spec s where spec: "spec \<in> set (bi_requested bound)" "starts spec resolved"
      and s: "is_assigned vplan (op_machine_id operation) (rq_name spec) s"
      using planned_op_starts [OF _ assms(4)] planned_ops op by blast
    obtain spec' where "spec' \<in> set (bi_requested bound)" "rq_name spec' = rq_name spec" "storage_of spec' = s"
      using ledger s unfolding ledger_from_def by blast
    moreover from this spec(1) have "spec' = spec"
      using bind_Inr(4) [OF bound] by (auto simp: distinct_map inj_on_def)
    ultimately have volumes: "ss_volumes s = rs_volume_graph resolved"
      using spec(2) by (auto simp: storage_of_def starts_def)
    have "op_machine_id operation \<in> set (active_machines operations)"
      using op assms(4,5) by (auto simp: active_machines_iff op_mounts_def)
    then obtain preparation where "preparation \<in> set preparations" "preparation_of vplan (op_machine_id operation) preparation"
      using preparations unfolding list_all2_conv_all_nth in_set_conv_nth by metis
    then obtain assigned where assigned: "bt_get (vp_assignments vplan) (op_machine_id operation) = Some assigned"
      and preparation: "PrepareVolumes (op_machine_id operation)
        (filter (\<lambda>spec. has_mounted_provisioned_volume (ss_volumes spec)) (bt_values assigned)) \<in> set preparations"
      by (auto simp: preparation_of_def)
    have "bt_get assigned (rq_name spec) = Some s"
      using s assigned by (simp add: is_assigned_def)
    then have "s \<in> set (filter (\<lambda>spec. has_mounted_provisioned_volume (ss_volumes spec)) (bt_values assigned))"
      using imageI [OF bt_get_in_set, of assigned "rq_name spec" s snd] volumes assms(5) by simp
    moreover have "map op_machine_id preparations = active_machines operations"
      using preparations by (auto simp: list_all2_conv_all_nth preparation_of_def intro!: nth_equalityI)
    ultimately show ?thesis
      using preparation volumes ops op budgets planned(2,3) active_machines_distinct [of operations]
      by (metis Un_iff set_append)
  qed
qed

theorem plan_prepares_volumes_witness:
  "\<exists>plan preparations rest specs. plan_deploy example_ext example_deploy example_snapshot = Inr plan
     \<and> pl_operations plan = preparations @ rest \<and> PrepareVolumes ''m1'' specs \<in> set preparations
     \<and> specs \<noteq> [] \<and> list_all2 (budget_admitted example_snapshot) preparations (dp_storage (pl_preview plan))"
proof -
  obtain plan operation where plan: "plan_deploy example_ext example_deploy example_snapshot = Inr plan"
    "operation \<in> set (pl_operations plan)" "starts_volume_service operation"
    by (rule example_plan_deploy)
  then obtain resolved where resolved: "op_spec operation = Some resolved"
    "has_mounted_provisioned_volume (rs_volume_graph resolved)" "op_machine_id operation = ''m1''"
    by (cases operation) auto
  from plan_prepares_volumes [OF plan(1) example_wf(2) plan(2) resolved(1,2)] plan(1) resolved(3) show ?thesis
    by (metis list.set_cases list.discI)
qed

section \<open>Hostnames\<close>

text \<open>The claims on hostnames of a list of Services, and when they agree with each other and with
  the observed owners.\<close>

definition hostname_requests ::
  "namespace \<Rightarrow> requested_service_spec list \<Rightarrow> (ingress_host \<times> qualified_service) list" where
  "hostname_requests namespace requested =
     concat (map (\<lambda>spec. map (\<lambda>hostname. (hostname, QualifiedService namespace (rq_name spec)))
       (explicit_ingress_hosts (rq_ports spec))) requested)"

definition claims_agree ::
  "(ingress_host, qualified_service) btree \<Rightarrow> (ingress_host \<times> qualified_service) list \<Rightarrow> bool" where
  "claims_agree owners claims \<longleftrightarrow>
     (\<forall>(hostname, identity) \<in> set claims. bt_get owners hostname \<in> {None, Some identity}
        \<and> (\<forall>other. (hostname, other) \<in> set claims \<longrightarrow> other = identity))"

definition claims_result ::
  "(ingress_host, qualified_service) btree \<Rightarrow> (ingress_host \<times> qualified_service) list
     \<Rightarrow> (plan_error, (ingress_host, qualified_service) btree) result \<Rightarrow> bool" where
  "claims_result owners claims result \<longleftrightarrow>
     (case result of
        Inr claimed \<Rightarrow> claims_agree owners claims
          \<and> (\<forall>hostname identity. bt_get claimed hostname = Some identity \<longleftrightarrow> (hostname, identity) \<in> set claims)
      | Inl error \<Rightarrow> (\<exists>hostname identity owner. error = HostnameConflict hostname owner \<and> owner \<noteq> identity
          \<and> (hostname, identity) \<in> set claims
          \<and> (bt_get owners hostname = Some owner \<or> (hostname, owner) \<in> set claims)))"

lemma rfold_concat_map:
  "rfold (\<lambda>a. rfold (\<lambda>b. f (g a b)) (h a)) xs s = rfold f (concat (map (\<lambda>a. map (g a) (h a)) xs)) s"
  by (induction xs arbitrary: s) (simp_all add: rfold_append rfold_map rbind_def split: sum.split)

lemma claim_hosts_result:
  "claims_result owners claims (rfold (\<lambda>(hostname, identity). claim_host owners identity hostname) claims [])"
proof (induction claims rule: rev_induct)
  case Nil
  show ?case
    by (simp add: claims_result_def claims_agree_def)
next
  case (snoc claim claims)
  obtain hostname identity where claim: "claim = (hostname, identity)"
    by (cases claim)
  show ?case
  proof (cases "rfold (\<lambda>(hostname, identity). claim_host owners identity hostname) claims []")
    case (Inl e)
    with snoc.IH show ?thesis
      by (auto simp: claims_result_def rfold_append)
  next
    case (Inr claimed)
    then have agree: "claims_agree owners claims"
      and claimed: "\<And>h i. bt_get claimed h = Some i \<longleftrightarrow> (h, i) \<in> set claims"
      using snoc.IH by (simp_all add: claims_result_def)
    have step: "rfold (\<lambda>(hostname, identity). claim_host owners identity hostname) (claims @ [claim]) []
        = claim_host owners identity hostname claimed"
      using Inr by (cases "claim_host owners identity hostname claimed") (simp_all add: rfold_append claim)
    have fresh: "bt_get claimed h = None \<longleftrightarrow> (\<forall>i. (h, i) \<notin> set claims)" for h
      using claimed [of h] by (metis not_None_eq)
    show ?thesis
    proof (cases "bt_get claimed hostname")
      case None
      then have new: "\<forall>i. (hostname, i) \<notin> set claims"
        by (simp add: fresh)
      show ?thesis
        unfolding step unfolding claims_result_def claims_agree_def claim_host_def or_else_def
        using agree [unfolded claims_agree_def] new claimed None
        by (auto simp: claim map_simps bt_or_insert_def split: option.splits)
    next
      case (Some owner)
      then have old: "(hostname, owner) \<in> set claims"
        by (simp add: claimed)
      show ?thesis
      proof (cases "owner = identity")
        case True
        have "set (claims @ [claim]) = set claims"
          using old True claim by auto
        then have "claims_agree owners (claims @ [claim]) = claims_agree owners claims"
          unfolding claims_agree_def by simp
        moreover have "claim_host owners identity hostname claimed = Inr claimed"
          using Some True by (simp add: claim_host_def or_else_def bt_or_insert_def)
        ultimately show ?thesis
          unfolding step using agree claimed True old by (auto simp: claims_result_def claim)
      next
        case False
        then show ?thesis
          unfolding step unfolding claims_result_def claim_host_def or_else_def
          using Some old by (auto simp: claim)
      qed
    qed
  qed
qed

text \<open>
  Claim C15. The hostname check of a plan is exact. It passes when every hostname that an applied
  Service publishes is published by no other applied Service and has no other owner among the
  observed containers that stay; the map that it returns then holds exactly the requested
  hostnames. Otherwise it fails with a conflict on a requested hostname, and names an owner that
  does claim it and is not the Service that requested it.
\<close>

theorem reject_hostname_conflicts_exact:
  "claims_result (remaining_owners snapshot retiring) (hostname_requests namespace requested)
     (reject_hostname_conflicts namespace requested snapshot retiring)"
proof -
  have "reject_hostname_conflicts namespace requested snapshot retiring =
      rfold (\<lambda>(hostname, identity). claim_host (remaining_owners snapshot retiring) identity hostname)
        (hostname_requests namespace requested) []"
    unfolding reject_hostname_conflicts_def hostname_requests_def rfold_concat_map [symmetric] by simp
  then show ?thesis
    by (simp only: claim_hosts_result)
qed

section \<open>Removal of a Namespace\<close>

lemma plan_nothing:
  "plan_operations x (apply_all namespace [] plan_options_default) snapshot = Inr
     \<lparr> pd_operations = (if is_observer_complete snapshot \<and> \<not> namespace_is_reserved namespace
         then removal_operations (services_in snapshot namespace) (map so_identity (services_in snapshot namespace))
         else []),
       pd_volumes = \<lparr> plv_creates = [], plv_budgets = [] \<rparr>,
       pd_would_remove = (if namespace_is_reserved namespace then [] else map so_identity (services_in snapshot namespace)),
       pd_preserved_volumes = preserved_owned_volumes namespace [] snapshot,
       pd_prune_refusal = (if is_observer_complete snapshot then None else Some IncompleteSnapshot),
       pd_warnings = [] \<rparr>"
proof -
  have "component_loop [] = []"
    by (subst component_loop.simps) simp
  moreover have "removal_operations services [] = []" for services
    by (simp add: removal_operations_def)
  moreover have "vp_assignments plan = [] \<Longrightarrow> volumes_to_create plan operations = []" for plan operations
    by (simp add: volumes_to_create_def used_volumes_def assigned_volumes_def bt_extend_def List.map_filter_simps)
  ultimately show ?thesis
    by (simp add: plan_operations_def bind_def order_included_def apply_all_def intent_new_def applied_names_def
        target_names_def plan_options_default_def index_target_def assemble_plan_def Let_def hostname_policy_for_def
        reject_hostname_conflicts_def volume_plan_new_def reject_mixed_volume_modes_def managed_volume_uses_def
        validate_provisioned_volume_definitions_def reserve_shared_def shared_volume_components_def
        storage_eligibility_warnings_def volume_finish_def active_machines_def
        prune_refusal_def obsolete_services_def bs_extend_def List.map_filter_simps)
qed

lemma prepare_namespace_removal_eq:
  "prepare_namespace_removal x namespace snapshot fate = Inr (seal_plan
     \<lparr> pd_operations = (if is_observer_complete snapshot \<and> \<not> namespace_is_reserved namespace
         then removal_operations (services_in snapshot namespace) (map so_identity (services_in snapshot namespace))
         else [])
         @ (if fate = Destroy \<and> is_observer_complete snapshot
            then map (\<lambda>volume. RemoveVolume (pv_id volume)) (preserved_owned_volumes namespace [] snapshot) else []),
       pd_volumes = \<lparr> plv_creates = [], plv_budgets = [] \<rparr>,
       pd_would_remove = (if namespace_is_reserved namespace then [] else map so_identity (services_in snapshot namespace)),
       pd_preserved_volumes = (if fate = Destroy \<and> is_observer_complete snapshot then []
         else preserved_owned_volumes namespace [] snapshot),
       pd_prune_refusal = (if is_observer_complete snapshot then None else Some IncompleteSnapshot),
       pd_warnings = [] \<rparr> snapshot namespace)"
  unfolding prepare_namespace_removal_def plan_nothing
  by (cases "is_observer_complete snapshot"; cases "fate = Destroy") (simp_all add: Let_def)

lemma removed_containers:
  "set (concat (map (\<lambda>service. containers_for service Action_Remove) (services_in snapshot namespace)))
     = {c \<in> set (ds_containers snapshot). co_namespace c = namespace}"
proof (intro equalityI subsetI)
  fix c
  assume "c \<in> set (concat (map (\<lambda>service. containers_for service Action_Remove) (services_in snapshot namespace)))"
  then obtain service where service: "service \<in> set (services_in snapshot namespace)"
    "c \<in> set (containers_for service Action_Remove)"
    by auto
  then show "c \<in> {c \<in> set (ds_containers snapshot). co_namespace c = namespace}"
    using services_in_member [OF service(1)] by (auto simp: containers_for_def)
next
  fix c
  assume c: "c \<in> {c \<in> set (ds_containers snapshot). co_namespace c = namespace}"
  let ?cs = "filter (\<lambda>container. co_namespace container = namespace) (ds_containers snapshot)"
  have "co_identity c \<in> set (map so_identity (derive_services ?cs))"
    unfolding derive_services_identities add_observation_keys using c by simp
  then obtain service where service: "service \<in> set (services_in snapshot namespace)" "so_identity service = co_identity c"
    by (auto simp: services_in_def)
  then have "c \<in> set (containers_for service Action_Remove)"
    using services_in_member [OF service(1)] c by (cases "co_kind c") (auto simp: containers_for_def)
  with service(1) show "c \<in> set (concat (map (\<lambda>service. containers_for service Action_Remove) (services_in snapshot namespace)))"
    by auto
qed

lemma removal_operations_all:
  "removal_operations services (map so_identity services) =
     map (\<lambda>container. RemoveContainer (co_machine_id container) (co_container_id container))
       (concat (map (\<lambda>service. containers_for service Action_Remove) services))"
proof -
  have "filter (\<lambda>service. so_identity service \<in> set (bs_collect (map so_identity services))) services = services"
    by (simp add: filter_id_conv)
  then show ?thesis
    by (simp only: removal_operations_def)
qed

lemma map_filter_pending_rows:
  "List.map_filter (\<lambda>row. f (row_operation row)) (pending_rows operations snapshot) = List.map_filter f operations"
proof -
  have "map row_operation (pending_rows operations snapshot) = operations"
    by (simp add: pending_rows_def pending_row_def row_pending_def o_def case_prod_beta Let_def)
  moreover have "List.map_filter (\<lambda>row. f (row_operation row)) rows = List.map_filter f (map row_operation rows)" for rows
    by (induction rows) (simp_all add: List.map_filter_simps split: option.split)
  ultimately show ?thesis
    by metis
qed

definition owned_volume_ids :: "namespace \<Rightarrow> deploy_snapshot \<Rightarrow> docker_volume_id set" where
  "owned_volume_ids namespace snapshot =
     {dv_id volume | volume. volume \<in> set (vsn_observations (ds_volume_snapshot snapshot))
        \<and> owned_volume_namespace (dv_labels volume) = Some namespace}"

lemma preserved_owned_ids:
  "pv_id ` set (preserved_owned_volumes namespace [] snapshot) = owned_volume_ids namespace snapshot"
  by (auto simp: preserved_owned_volumes_def declared_physical_names_def owned_volume_ids_def List.map_filter_simps
      image_image)

lemma namespace_removal_refusal:
  "prepare_namespace_removal x namespace snapshot fate = Inr plan
     \<Longrightarrow> dp_prune_refusal (pl_preview plan) = (if is_observer_complete snapshot then None else Some IncompleteSnapshot)"
  unfolding prepare_namespace_removal_eq by (auto simp: seal_plan_def)

lemma namespace_removal_plan:
  "\<exists>plan containers volumes. prepare_namespace_removal x namespace snapshot fate = Inr plan
     \<and> pl_operations plan = map (\<lambda>c. RemoveContainer (co_machine_id c) (co_container_id c)) containers
         @ map RemoveVolume volumes
     \<and> set containers = (if is_observer_complete snapshot \<and> \<not> namespace_is_reserved namespace
         then {c \<in> set (ds_containers snapshot). co_namespace c = namespace} else {})
     \<and> set volumes = (if fate = Destroy \<and> is_observer_complete snapshot then owned_volume_ids namespace snapshot else {})
     \<and> set volumes \<union> pv_id ` set (dp_preserved_volumes (pl_preview plan)) = owned_volume_ids namespace snapshot
     \<and> set volumes \<inter> pv_id ` set (dp_preserved_volumes (pl_preview plan)) = {}
     \<and> data_loss_from_plan (pl_preview plan) = map DataLoss_DockerVolume volumes"
proof -
  define removes where "removes = (is_observer_complete snapshot \<and> \<not> namespace_is_reserved namespace)"
  define destroys where "destroys = (fate = Destroy \<and> is_observer_complete snapshot)"
  define containers where "containers = (if removes then concat (map (\<lambda>service. containers_for service Action_Remove)
      (services_in snapshot namespace)) else [])"
  define volumes where "volumes = (if destroys then map pv_id (preserved_owned_volumes namespace [] snapshot) else [])"
  define kept where "kept = (if destroys then [] else preserved_owned_volumes namespace [] snapshot)"
  define operations where "operations = map (\<lambda>c. RemoveContainer (co_machine_id c) (co_container_id c)) containers
      @ map RemoveVolume volumes"
  obtain plan where plan: "prepare_namespace_removal x namespace snapshot fate = Inr plan"
    and operations: "pl_operations plan = operations" and preserved: "dp_preserved_volumes (pl_preview plan) = kept"
    and rows: "dp_operations (pl_preview plan) = pending_rows (pl_operations plan) snapshot"
    unfolding prepare_namespace_removal_eq removal_operations_all destroys_def [symmetric] removes_def [symmetric]
    by (simp add: seal_plan_def containers_def volumes_def kept_def operations_def o_def)
  have "data_loss_from_plan (pl_preview plan) = List.map_filter remove_volume_loss (pl_operations plan)"
    unfolding data_loss_from_plan_def rows by (rule map_filter_pending_rows)
  moreover have "List.map_filter remove_volume_loss (map (\<lambda>c. RemoveContainer (co_machine_id c) (co_container_id c)) cs
      @ map RemoveVolume vs) = map DataLoss_DockerVolume vs" for cs vs
    by (induction cs) (induction vs, simp_all add: List.map_filter_simps remove_volume_loss_def)
  ultimately have "data_loss_from_plan (pl_preview plan) = map DataLoss_DockerVolume volumes"
    by (simp only: operations operations_def)
  moreover have "set containers = (if removes then {c \<in> set (ds_containers snapshot). co_namespace c = namespace} else {})"
    unfolding containers_def using removed_containers by simp
  moreover have "set volumes = (if destroys then owned_volume_ids namespace snapshot else {})"
    by (simp add: volumes_def preserved_owned_ids)
  moreover have "pv_id ` set kept = (if destroys then {} else owned_volume_ids namespace snapshot)"
    by (simp add: kept_def preserved_owned_ids)
  ultimately show ?thesis
    unfolding removes_def [symmetric] destroys_def [symmetric]
    by (intro exI [of _ plan] exI [of _ containers] exI [of _ volumes])
      (simp add: plan operations operations_def preserved)
qed

text \<open>
  Claim C14. The removal of a Namespace never fails, and removes exactly what it owns. Its plan is
  removals of containers followed by removals of Volumes. The containers are all the observed ones
  of the Namespace, hooks included, when the snapshot is complete and the Namespace is not reserved,
  and none otherwise. The Volumes are the observed ones that carry the label of the Namespace when
  they are to be destroyed and the snapshot is complete, and none otherwise; the Volumes that are
  not removed are reported as preserved. The data loss that the user confirms is exactly the removed
  Volumes.
\<close>

theorem namespace_removal_exact:
  "\<exists>plan containers volumes. prepare_namespace_removal x namespace snapshot fate = Inr plan
     \<and> pl_operations plan = map (\<lambda>c. RemoveContainer (co_machine_id c) (co_container_id c)) containers
         @ map RemoveVolume volumes
     \<and> set containers = (if is_observer_complete snapshot \<and> \<not> namespace_is_reserved namespace
         then {c \<in> set (ds_containers snapshot). co_namespace c = namespace} else {})
     \<and> set volumes = (if fate = Destroy \<and> is_observer_complete snapshot then owned_volume_ids namespace snapshot else {})
     \<and> set volumes \<union> pv_id ` set (dp_preserved_volumes (pl_preview plan)) = owned_volume_ids namespace snapshot
     \<and> set volumes \<inter> pv_id ` set (dp_preserved_volumes (pl_preview plan)) = {}
     \<and> data_loss_from_plan (pl_preview plan) = map DataLoss_DockerVolume volumes"
  by (rule namespace_removal_plan)

section \<open>Volume placement\<close>

text \<open>
  Claim C16. The Machines on which a Service may run its Volumes respect where the Volumes are.
  Of the candidates, placement keeps at least one; on each of them no Volume of the Service is
  present with incompatible options, and the Machine reported its Volumes; a replicated Service runs
  only where an already located Volume is; and a replicated Service with a Volume that exists
  nowhere yet is confined to a single Machine, so that its replicas share one Volume.
\<close>

theorem volume_place_respects_locality:
  assumes "volume_place spec machines plan = Inr ((spec', placed), plan')"
  shows "placed \<noteq> [] \<and> set placed \<subseteq> set machines
    \<and> (\<forall>machine \<in> set placed. \<forall>volume \<in> set (mounted_managed_volumes (rq_volume_graph spec)).
         volume_allows plan (rq_mode spec) volume (mid machine)
         \<and> machine_gap (ds_volume_snapshot (vp_snapshot plan)) (mid machine) = None)
    \<and> (\<forall>volume \<in> set (mounted_managed_volumes (rq_volume_graph spec)). volume_absent plan (rq_mode spec) volume
         \<longrightarrow> (\<forall>machine \<in> set placed. \<forall>machine' \<in> set placed. mid machine = mid machine'))"
proof -
  note placed = volume_place_Inr [OF assms]
  have "mid machine = mid machine'"
    if "volume \<in> set (mounted_managed_volumes (rq_volume_graph spec))" "volume_absent plan (rq_mode spec) volume"
      "machine \<in> set placed" "machine' \<in> set placed" for volume machine machine'
    using that by (rule placed(5))
  moreover have "volume_allows plan (rq_mode spec) volume (mid machine)
      \<and> machine_gap (ds_volume_snapshot (vp_snapshot plan)) (mid machine) = None"
    if "machine \<in> set placed" "volume \<in> set (mounted_managed_volumes (rq_volume_graph spec))" for machine volume
    using that by (rule placed(4))
  ultimately show ?thesis
    using placed(2,3) by blast
qed

theorem volume_place_respects_locality_witness:
  "\<exists>spec spec' placed plan'. scope_requested ''prod'' example_db = Inr spec
     \<and> volume_place spec (ds_machines example_snapshot)
       \<lparr> vp_snapshot = example_snapshot, vp_namespace = ''prod'', vp_assignments = [] \<rparr> = Inr ((spec', placed), plan')
     \<and> placed \<noteq> [] \<and> set placed \<subseteq> set (ds_machines example_snapshot)"
proof -
  have "is_ok (rbind (scope_requested ''prod'' example_db) (\<lambda>spec. volume_place spec (ds_machines example_snapshot)
       \<lparr> vp_snapshot = example_snapshot, vp_namespace = ''prod'', vp_assignments = [] \<rparr>))"
    by code_simp
  then obtain spec spec' placed plan' where "scope_requested ''prod'' example_db = Inr spec"
    and placed: "volume_place spec (ds_machines example_snapshot)
       \<lparr> vp_snapshot = example_snapshot, vp_namespace = ''prod'', vp_assignments = [] \<rparr> = Inr ((spec', placed), plan')"
    by (cases "scope_requested ''prod'' example_db") (auto simp: is_ok_def split: sum.splits)
  with volume_place_respects_locality [OF placed] placed show ?thesis
    by blast
qed

end
