(* ===== verification/Execution_Correct.thy ===== *)
theory Execution_Correct
  imports Exec_Live Plan_Guarantees
begin

text \<open>
  The theorems on the execution of a plan: it ends, its outcome divides the plan, and the rows and the
  events agree with the outcome.
\<close>

section \<open>A simulated Cluster\<close>

text \<open>Machines that answer every call: a created container runs and is healthy, the clock advances with
  the timers, and nothing cancels the Deploy. The laws of the contract hold of it.\<close>

record sim =
  sim_time :: int
  sim_created :: nat

definition sim_runtime :: "sim runtime" where
  "sim_runtime =
     \<lparr> rt_now = (\<lambda>w. Some (sim_time w, w)),
       rt_is_cancelled = (\<lambda>w. Some (False, w)),
       rt_sleep = (\<lambda>wake w. Some (False, w\<lparr> sim_time := max (sim_time w) wake \<rparr>)),
       rt_sleep_before = (\<lambda>deadline wake w.
         Some (if wake < deadline then Branch_Ready else Branch_Deadline, w\<lparr> sim_time := max (sim_time w) wake \<rparr>)),
       rt_call_before = (\<lambda>deadline w. Some (if sim_time w < deadline then Branch_Ready else Branch_Deadline, w)) \<rparr>"

definition sim_container :: "machine_id \<Rightarrow> container_id \<Rightarrow> container_observation" where
  "sim_container machine_id container_id =
     example_observation container_id machine_id 0 (example_resolved ''web'' (Replicated 1) [])"

definition sim_operations :: "sim machine_operations" where
  "sim_operations =
     \<lparr> call_prepare_volumes = (\<lambda>_ _ w. Some (Inr [], w)),
       call_wait_for_container_observations = (\<lambda>_ _ _ w. Some (Inr (), w)),
       call_service_containers = (\<lambda>service w. Some (Inr [sim_container ''m1'' ''c1''], w)),
       call_create_container = (\<lambda>_ _ _ _ _ w.
         Some (Inr \<lparr> cc_container_id = replicate (sim_created w) CHR ''n'', cc_display_name = ''new'' \<rparr>,
           w\<lparr> sim_created := Suc (sim_created w) \<rparr>)),
       call_start_container = (\<lambda>_ _ w. Some (Inr (), w)),
       call_inspect_container = (\<lambda>machine_id container_id w. Some (Inr (sim_container machine_id container_id), w)),
       call_stop_container = (\<lambda>_ _ _ w. Some (Inr (), w)),
       call_remove_container = (\<lambda>_ _ w. Some (Inr (), w)),
       call_remove_volume = (\<lambda>_ w. Some (Inr (), w)) \<rparr>"

lemma returns_const: "(\<And>w. clk w \<le> clk (g w)) \<Longrightarrow> returns clk (\<lambda>w. Some (f w, g w))"
  by (simp add: returns_def)

interpretation sim: machine_calls sim_runtime sim_time sim_operations
  by unfold_locales (auto simp: sim_runtime_def sim_operations_def returns_const)

interpretation tolerant_sim: machine_calls sim_runtime sim_time "restart_tolerant sim_runtime sim_operations"
  by (rule sim.restart_tolerant_calls)

section \<open>Plans\<close>

definition planned_plan :: "deploy_plan \<Rightarrow> bool" where
  "planned_plan plan \<longleftrightarrow>
     (\<exists>x intent snapshot. plan_deploy x intent snapshot = Inr plan)
     \<or> (\<exists>x namespace snapshot fate. prepare_namespace_removal x namespace snapshot fate = Inr plan)"

lemma pending_rows_operations: "map row_operation (pending_rows operations snapshot) = operations"
  by (simp add: pending_rows_def pending_row_def row_pending_def o_def case_prod_beta Let_def)

lemma seal_plan_rows:
  "dp_operations (pl_preview (seal_plan planned snapshot namespace)) = pending_rows (pd_operations planned) snapshot"
  "pl_operations (seal_plan planned snapshot namespace) = pd_operations planned"
  by (simp_all add: seal_plan_def)

lemma planned_plan_rows:
  assumes "planned_plan plan"
  shows "length (dp_operations (pl_preview plan)) = length (pl_operations plan)"
proof -
  have "length (pending_rows operations snapshot) = length operations" for operations snapshot
    by (simp add: pending_rows_def)
  then show ?thesis
    using assms unfolding planned_plan_def
    by (elim disjE exE) (auto simp: plan_deploy_def prepare_namespace_removal_eq rbind_eq_Inr Let_def seal_plan_rows)
qed

lemma plan_pending_rows_facts:
  assumes "length (dp_operations (pl_preview plan)) = length (pl_operations plan)"
  shows "map row_operation (plan_pending_rows plan) = pl_operations plan"
    and "\<forall>row \<in> set (plan_pending_rows plan). row_status row = Row_Pending"
  using assms
  by (auto simp: plan_pending_rows_def row_pending_def o_def case_prod_beta in_set_enumerate_eq
      intro!: nth_equalityI simp: nth_enumerate_eq)

lemma rows_at_start:
  assumes "planned_plan plan"
  shows "rows_at [] (pl_operations plan) (emit (progress_new (plan_pending_rows plan) tx))"
  using plan_pending_rows_facts [OF planned_plan_rows [OF assms]]
  by (auto simp: rows_at_def progress_new_def)

lemma execution_returns:
  assumes "machine_calls rt clk ops"
  shows "\<exists>r t. execute_operation_sequence rt ops plan tx w = Some (r, t)"
proof -
  have "machine_calls rt clk (restart_tolerant rt ops)"
    using assms by (rule machine_calls.restart_tolerant_calls)
  from machine_calls.execute_from_returns [OF this] show ?thesis
    unfolding execute_operation_sequence_def Let_def returns_def by blast
qed

lemma execution_divides:
  assumes "planned_plan plan"
    and "execute_operation_sequence rt ops plan tx w = Some (r, t)"
  shows "sequence_result (pl_operations plan)
    \<lparr> xc_world = w, xc_progress = emit (progress_new (plan_pending_rows plan) tx) \<rparr> r t"
proof -
  have "execute_from rt (restart_tolerant rt ops) (dp_namespace (pl_preview plan)) ([] @ pl_operations plan)
      (length ([] :: deploy_operation list)) (pl_operations plan)
      \<lparr> xc_world = w, xc_progress = emit (progress_new (plan_pending_rows plan) tx) \<rparr> = Some (r, t)"
    using assms(2) by (simp add: execute_operation_sequence_def)
  from execute_from_result [OF this] rows_at_start [OF assms(1)] show ?thesis
    by simp
qed

text \<open>
  Claim C11. The execution of a plan always ends. When the calls to the Machines return, the clock
  does not go backwards and timers do not fire early, every polling loop (a health wait, the wait
  for a dependency, the wait for a hook, the wait for a daemon restart) is bounded by its deadline,
  and the sequence returns.
\<close>

theorem execution_always_ends:
  assumes "machine_calls rt clk ops"
  shows "\<exists>r t. execute_operation_sequence rt ops plan tx w = Some (r, t)"
  using execution_returns [OF assms] .

theorem execution_always_ends_witness:
  "machine_calls sim_runtime sim_time sim_operations
     \<and> (\<exists>plan r t. prepare_namespace_removal example_ext ''prod'' example_snapshot Destroy = Inr plan
          \<and> execute_operation_sequence sim_runtime sim_operations plan None \<lparr> sim_time = 0, sim_created = 0 \<rparr> = Some (r, t))"
  using sim.machine_calls_axioms execution_always_ends [OF sim.machine_calls_axioms]
  by (auto simp: prepare_namespace_removal_eq)

text \<open>
  Claim C3. The outcome of an execution divides the plan, and the rows and events say the same. No
  assertion of the executor fails. The outcome is success with all operations completed, or the
  completed operations, the failed one and the operations that were not executed, in the order of
  the plan. At the end the status of every row agrees with the outcome. An observer receives first
  all rows pending, and last the outcome.
\<close>

theorem execution_divides_plan:
  assumes "planned_plan plan"
    and "execute_operation_sequence rt ops plan (Some []) w = Some (r, t)"
  shows "\<exists>outcome sent. r = Inr outcome \<and> outcome_operations outcome = pl_operations plan
    \<and> map row_operation (pg_rows (xc_progress t)) = pl_operations plan
    \<and> map row_status (pg_rows (xc_progress t)) = outcome_statuses outcome
    \<and> pg_tx (xc_progress t) = Some (Event_Progress 0 (row_number (length (pl_operations plan))) (plan_pending_rows plan)
        # sent @ [Event_Outcome outcome])"
proof -
  let ?p = "emit (progress_new (plan_pending_rows plan) (Some []))"
  note rows = plan_pending_rows_facts [OF planned_plan_rows [OF assms(1)]]
  have "filter (\<lambda>row. row_status row = Row_Completed) (plan_pending_rows plan) = []"
    using rows(2) by (auto simp: filter_empty_conv)
  moreover have "length (plan_pending_rows plan) = length (pl_operations plan)"
    using rows(1) by (metis length_map)
  ultimately have start: "pg_tx ?p = Some [Event_Progress 0 (row_number (length (pl_operations plan))) (plan_pending_rows plan)]"
    by (simp add: emit_def send_event_def progress_new_def row_number_def)
  have "sequence_result (pl_operations plan) \<lparr> xc_world = w, xc_progress = ?p \<rparr> r t"
    using assms by (rule execution_divides)
  then show ?thesis
    unfolding sequence_result_def using start by auto
qed

theorem execution_divides_plan_witness:
  "\<exists>plan outcome t. planned_plan plan \<and> length (pl_operations plan) = 3
     \<and> execute_operation_sequence sim_runtime sim_operations plan (Some []) \<lparr> sim_time = 0, sim_created = 0 \<rparr>
         = Some (Inr outcome, t)
     \<and> outcome_operations outcome = pl_operations plan
     \<and> map row_status (pg_rows (xc_progress t)) = outcome_statuses outcome"
proof -
  have "case prepare_namespace_removal example_ext ''prod'' example_snapshot Destroy of
      Inl _ \<Rightarrow> False | Inr plan \<Rightarrow> length (pl_operations plan) = 3"
    by code_simp
  then obtain plan where plan: "prepare_namespace_removal example_ext ''prod'' example_snapshot Destroy = Inr plan"
    and len: "length (pl_operations plan) = 3"
    by (auto split: sum.splits)
  from plan have planned: "planned_plan plan"
    unfolding planned_plan_def by blast
  obtain r t where run: "execute_operation_sequence sim_runtime sim_operations plan (Some []) \<lparr> sim_time = 0, sim_created = 0 \<rparr>
      = Some (r, t)"
    using execution_returns [OF sim.machine_calls_axioms] by blast
  from execution_divides_plan [OF planned run] run planned len show ?thesis
    by blast
qed

end
