(* ===== verification/Replacement_Correct.thy ===== *)
theory Replacement_Correct
  imports Exec_Trace Execution_Correct
begin

text \<open>
  The theorems on the calls of a replacement: it gives the old container up only when the new one
  serves, and when it fails after a stop it brings the old container back.
\<close>

section \<open>Containers that a step creates\<close>

fun stops :: "container_id \<Rightarrow> machine_call \<Rightarrow> bool" where
  "stops c (Called_Stop _ c' _) \<longleftrightarrow> c' = c"
| "stops _ _ \<longleftrightarrow> False"

fun removes :: "container_id \<Rightarrow> machine_call \<Rightarrow> bool" where
  "removes c (Called_Remove _ c' _) \<longleftrightarrow> c' = c"
| "removes _ _ \<longleftrightarrow> False"

text \<open>The creations of a client never return the id \<open>c\<close>.\<close>

definition never_creates :: "'w machine_operations \<Rightarrow> container_id \<Rightarrow> bool" where
  "never_creates ops c \<longleftrightarrow>
     (\<forall>machine_id kind namespace spec replacing w created w'.
        call_create_container ops machine_id kind namespace spec replacing w = Some (Inr created, w')
          \<longrightarrow> cc_container_id created \<noteq> c)"

lemma created_by_client:
  assumes "call_create_container (traced_client rt ops) machine_id kind namespace spec replacing w = Some (Inr created, w')"
    and "never_creates ops c"
  shows "cc_container_id created \<noteq> c"
proof -
  obtain v where "call_create_container ops machine_id kind namespace spec replacing (fst w) = Some (Inr created, v)"
    using assms(1) by (auto simp: restart_tolerant_def traced_operations_def traced_call_def split: option.splits)
  with assms(2) show ?thesis
    unfolding never_creates_def by blast
qed

lemma create_and_start_avoids:
  assumes "never_creates ops c" and "\<And>created. P (Called_Create machine_id kind namespace spec replacing created)"
    and "\<And>c' ok. c' \<noteq> c \<Longrightarrow> P (Called_Start machine_id c' ok)" and "\<And>c' ok. c' \<noteq> c \<Longrightarrow> P (Called_Remove machine_id c' ok)"
  shows "gives (logs P)
    (create_and_start (traced_runtime rt) (traced_client rt ops) index machine_id kind namespace spec replacing)
    (\<lambda>r. \<forall>created. r = Inr created \<longrightarrow> cc_container_id created \<noteq> c)"
proof -
  let ?create = "xworld (call_create_container (traced_client rt ops) machine_id kind namespace spec replacing)"
  have "keeps (logs P) ?create"
    using assms(2) by (intro keeps_logs_xworld client_call_logs)
  moreover have "\<forall>created. r = Inr created \<longrightarrow> cc_container_id created \<noteq> c" if "?create s = Some (r, t)" for r s t
    using that created_by_client assms(1) unfolding xworld_eq_Some by blast
  ultimately have create: "gives (logs P) ?create (\<lambda>r. \<forall>created. r = Inr created \<longrightarrow> cc_container_id created \<noteq> c)"
    unfolding gives_def keeps_def by blast
  show ?thesis
    unfolding create_and_start_def
    by (rule logs.gives_after [OF keeps_logs_running], rule logs.gives_xbind [OF create])
      (auto simp: discard_created_def intro!: logs.gives_after logs.gives_xret keeps_logs_xworld client_call_logs assms(3,4)
        split: sum.split)
qed

lemma create_and_start_created:
  assumes "create_and_start (traced_runtime rt) (traced_client rt ops) index machine_id kind namespace spec replacing s
      = Some (Inr created, t)"
  shows "\<exists>made. calls t = calls s @ made
    \<and> Called_Create machine_id kind namespace spec replacing (Some (cc_container_id created)) \<in> set made"
proof -
  let ?entry = "\<lambda>r. Called_Create machine_id kind namespace spec replacing (map_option cc_container_id (ok_value r))"
  let ?create = "xworld (call_create_container (traced_client rt ops) machine_id kind namespace spec replacing)"
  have "\<exists>k. create_and_start (traced_runtime rt) (traced_client rt ops) index machine_id kind namespace spec replacing
        = xbind (running index CreatingContainer) (\<lambda>_. xbind ?create k)
      \<and> (\<forall>q. gives (logs (\<lambda>_. True)) (k q) (\<lambda>r. \<forall>created. r = Inr created \<longrightarrow> q = Inr created))"
    unfolding create_and_start_def
    by (intro exI conjI, rule HOL.refl)
      (auto simp: discard_created_def intro!: logs.gives_after logs.gives_xret keeps_logs_xworld client_call_logs split: sum.split)
  then obtain k where eq: "create_and_start (traced_runtime rt) (traced_client rt ops) index machine_id kind namespace spec replacing
        = xbind (running index CreatingContainer) (\<lambda>_. xbind ?create k)"
    and gives: "\<And>q. gives (logs (\<lambda>_. True)) (k q) (\<lambda>r. \<forall>created. r = Inr created \<longrightarrow> q = Inr created)"
    by blast
  obtain s1 q s2 where s1: "running index CreatingContainer s = Some ((), s1)" and q: "?create s1 = Some (q, s2)"
    and k: "k q s2 = Some (Inr created, t)"
    using assms unfolding eq xbind_eq_Some by auto
  have started: "q = Inr created" "logs (\<lambda>_. True) s2 t"
    using givesD [OF gives k] by simp_all
  have "calls s2 = calls s1 @ [?entry q]"
    using q by (auto simp: xworld_eq_Some restart_tolerant_def traced_operations_def traced_call_def split: option.splits)
  moreover have "calls s1 = calls s"
    using s1 by (auto simp: running_def xprogress_eq_Some)
  moreover obtain made where "calls t = calls s2 @ made"
    using started(2) unfolding world_logs_def by blast
  ultimately show ?thesis
    using started(1) by (simp add: ok_value_def)
qed

lemma wait_serving_log:
  assumes "wait_serving (traced_client rt ops) c token s = Some (r, t)"
  shows "calls t = calls s @ [Called_Wait [c] Condition_Serving token (is_ok r)]"
proof -
  obtain q w where r: "r = map_err (machine_error Action_InspectContainer) q"
    and q: "call_wait_for_container_observations (traced_client rt ops) [c] Condition_Serving token (xc_world s) = Some (q, w)"
    and t: "t = s\<lparr> xc_world := w \<rparr>"
    using assms unfolding wait_serving_def acting_def xmap_eq_Some xworld_eq_Some by blast
  have "snd w = calls s @ [Called_Wait [c] Condition_Serving token (is_ok q)]"
    using q by (auto simp: restart_tolerant_def traced_operations_def traced_call_def split: option.splits)
  moreover have "is_ok r = is_ok q"
    unfolding r by (cases q) simp_all
  ultimately show ?thesis
    by (simp add: t)
qed

lemma serve_log:
  assumes "serve (traced_runtime rt) (traced_client rt ops) index machine_id c spec skip s = Some (Inr u, t)"
  shows "\<exists>made. calls t = calls s @ made @ [Called_Wait [c] Condition_Serving Deploy_Token True]
    \<and> (\<forall>call \<in> set made. observing call)"
proof -
  obtain s1 where s1: "(if \<not> skip then monitor_container (traced_runtime rt) (traced_client rt ops) index machine_id c spec
           else xret (Inr ())) s = Some (Inr (), s1)"
    and wait: "wait_serving (traced_client rt ops) c Deploy_Token s1 = Some (Inr u, t)"
    using assms by (auto simp: serve_def xtry_eq_Some)
  have "keeps (logs observing) (if \<not> skip then monitor_container (traced_runtime rt) (traced_client rt ops) index machine_id c spec
           else xret (Inr ()))"
    by auto
  from keepsD [OF this s1] wait_serving_log [OF wait] show ?thesis
    by (auto simp: world_logs_def)
qed

lemma client_stop_log:
  assumes "xworld (call_stop_container (traced_client rt ops) m c grace) s = Some (u, t)"
  shows "\<exists>failed. calls t = calls s @ failed @ [Called_Stop m c (is_ok u)] \<and> (\<forall>call \<in> set failed. call = Called_Stop m c False)"
  using assms wait_out_restart_log [of rt "\<lambda>r. Called_Stop m c (is_ok r)" "call_stop_container ops m c grace" "xc_world s" u]
  by (auto simp: xworld_eq_Some restart_tolerant_def traced_operations_def)

lemma client_start_log:
  assumes "xworld (call_start_container (traced_client rt ops) m c) s = Some (u, t)"
  shows "\<exists>failed. calls t = calls s @ failed @ [Called_Start m c (is_ok u)] \<and> (\<forall>call \<in> set failed. call = Called_Start m c False)"
  using assms wait_out_restart_log [of rt "\<lambda>r. Called_Start m c (is_ok r)" "call_start_container ops m c" "xc_world s" u]
  by (auto simp: xworld_eq_Some restart_tolerant_def traced_operations_def)

section \<open>The phases of a replacement\<close>

abbreviation spares :: "container_id \<Rightarrow> machine_call \<Rightarrow> bool" where
  "spares c call \<equiv> \<not> stops c call \<and> \<not> removes c call"

lemma observing_spares: "observing call \<Longrightarrow> spares c call"
  by (cases call) simp_all

lemma start_new_trace:
  assumes "start_new (traced_runtime rt) (traced_client rt ops) index operation namespace s = Some (r, t)"
    and "never_creates ops (rep_old_container_id operation)"
  shows "case r of
      Inl (new_container, _) \<Rightarrow> new_container \<noteq> Some (rep_old_container_id operation)
        \<and> logs (spares (rep_old_container_id operation)) s t
    | Inr _ \<Rightarrow> \<exists>new made. calls t = calls s @ made @ [Called_Wait [new] Condition_Serving Deploy_Token True]
        \<and> Called_Create (rep_machine_id operation) ServiceContainer namespace (rep_spec operation)
            (Some (rep_old_container_id operation)) (Some new) \<in> set made
        \<and> (\<forall>call \<in> set made. spares (rep_old_container_id operation) call)"
proof -
  let ?spares = "spares (rep_old_container_id operation)"
  obtain q s1 where q: "create_and_start (traced_runtime rt) (traced_client rt ops) index (rep_machine_id operation) ServiceContainer
      namespace (rep_spec operation) (Some (rep_old_container_id operation)) s = Some (q, s1)"
    and rest: "(case q of
       Inl error \<Rightarrow> xret (Inl (None, error))
     | Inr created \<Rightarrow>
         xmap (map_err (Pair (Some (cc_container_id created))))
           (serve (traced_runtime rt) (traced_client rt ops) index (rep_machine_id operation) (cc_container_id created)
              (rep_spec operation) (rep_skip_health_monitor operation))) s1 = Some (r, t)"
    using assms(1) unfolding start_new_def xbind_eq_Some by blast
  have "logs ?spares s s1 \<and> (\<forall>created. q = Inr created \<longrightarrow> cc_container_id created \<noteq> rep_old_container_id operation)"
    by (rule givesD [OF create_and_start_avoids [OF assms(2)] q]) auto
  then have log1: "logs ?spares s s1"
    and new: "\<And>created. q = Inr created \<Longrightarrow> cc_container_id created \<noteq> rep_old_container_id operation"
    by blast+
  show ?thesis
  proof (cases q)
    case (Inl error)
    then show ?thesis
      using rest log1 by simp
  next
    case (Inr created)
    then obtain u where serve: "serve (traced_runtime rt) (traced_client rt ops) index (rep_machine_id operation)
        (cc_container_id created) (rep_spec operation) (rep_skip_health_monitor operation) s1 = Some (u, t)"
      and r: "r = map_err (Pair (Some (cc_container_id created))) u"
      using rest by (auto simp: xmap_eq_Some)
    have "logs observing s1 t"
      using serve by (rule keepsD [OF reads.keeps_serve])
    then have log2: "logs ?spares s1 t"
      by (rule world_logs_mono) (rule observing_spares)
    show ?thesis
    proof (cases u)
      case (Inl error)
      then show ?thesis
        using r new [OF Inr] world_logs_trans [OF log1 log2] by simp
    next
      case (Inr v)
      then obtain made where "calls t = calls s1 @ made @ [Called_Wait [cc_container_id created] Condition_Serving Deploy_Token True]"
        "\<forall>call \<in> set made. observing call"
        using serve_log [of rt ops index _ _ _ _ s1 v t] serve by blast
      moreover obtain made1 where "calls s1 = calls s @ made1" "\<forall>call \<in> set made1. ?spares call"
        using log1 unfolding world_logs_def by blast
      moreover from this(1) have "Called_Create (rep_machine_id operation) ServiceContainer namespace (rep_spec operation)
          (Some (rep_old_container_id operation)) (Some (cc_container_id created)) \<in> set made1"
        using create_and_start_created [of rt ops index _ _ _ _ _ s created s1] q \<open>q = Inr created\<close> by fastforce
      ultimately show ?thesis
        using r Inr observing_spares
        by (auto intro!: exI [of _ "cc_container_id created"] exI [of _ "made1 @ made"])
    qed
  qed
qed

lemma compensate_spares:
  assumes "new_container \<noteq> Some (rep_old_container_id operation)"
  shows "keeps (logs (spares (rep_old_container_id operation)))
    (compensate (traced_client rt ops) index operation old_stopped new_container error)"
  unfolding compensate_def stop_new_container_def restore_old_container_def acting_def acting_if_found_def wait_serving_def
  using assms by (auto intro!: keeps_logs_xworld client_call_logs split: option.split)

lemma stop_old_first_log:
  assumes "stop_old_first (traced_client rt ops) index operation s = Some (r, t)"
  shows "\<exists>made. calls t = calls s @ made \<and> (\<forall>call \<in> set made. \<not> removes (rep_old_container_id operation) call)
    \<and> (r \<noteq> Inr True \<longrightarrow> (\<forall>m c. Called_Stop m c True \<notin> set made))"
proof -
  let ?old = "rep_old_container_id operation" and ?m = "rep_machine_id operation"
  obtain q s1 where q: "xworld (call_inspect_container (traced_client rt ops) ?m ?old) s = Some (q, s1)"
    and rest: "(r \<noteq> Inr True \<and> t = s1) \<or> (\<exists>s2 u. running index StoppingContainer s1 = Some ((), s2)
      \<and> xworld (call_stop_container (traced_client rt ops) ?m ?old None) s2 = Some (u, t)
      \<and> r = (case u of
             Inr _ \<Rightarrow> Inr True
           | Inl error \<Rightarrow>
               if rpc_code error = NotFound then Inr False else Inl (machine_error Action_StopContainer error)))"
    using assms unfolding stop_old_first_def Let_def xbind_eq_Some
    by (elim exE conjE) (auto simp: xbind_eq_Some xmap_eq_Some simp del: split_paired_Ex split: sum.split_asm if_split_asm)
  have "keeps (logs observing) (xworld (call_inspect_container (traced_client rt ops) ?m ?old))"
    by auto
  from keepsD [OF this q] obtain made1 where made1: "calls s1 = calls s @ made1" "\<forall>call \<in> set made1. observing call"
    unfolding world_logs_def by blast
  then have quiet: "\<forall>call \<in> set made1. \<not> removes ?old call" "\<forall>m c. Called_Stop m c True \<notin> set made1"
    using observing_spares by fastforce+
  from rest show ?thesis
  proof (elim disjE exE conjE)
    assume "t = s1"
    with made1(1) quiet show ?thesis
      by auto
  next
    fix s2 u
    assume s2: "running index StoppingContainer s1 = Some ((), s2)"
      and u: "xworld (call_stop_container (traced_client rt ops) ?m ?old None) s2 = Some (u, t)"
      and r: "r = (case u of
             Inr _ \<Rightarrow> Inr True
           | Inl error \<Rightarrow>
               if rpc_code error = NotFound then Inr False else Inl (machine_error Action_StopContainer error))"
    have ok: "is_ok u \<longleftrightarrow> r = Inr True"
      unfolding r by (cases u) simp_all
    have "calls s2 = calls s1"
      using s2 by (auto simp: running_def xprogress_eq_Some)
    moreover obtain failed where "calls t = calls s2 @ failed @ [Called_Stop ?m ?old (is_ok u)]"
      "\<forall>c \<in> set failed. c = Called_Stop ?m ?old False"
      using client_stop_log [OF u] by blast
    ultimately show ?thesis
      using made1(1) quiet ok
      by (intro exI [of _ "made1 @ failed @ [Called_Stop ?m ?old (is_ok u)]"]) auto
  qed
qed

lemma restore_old_container_log:
  assumes "restore_old_container (traced_client rt ops) operation s = Some (restarted, t)"
  shows "\<exists>made. calls t = calls s @ made \<and> (\<exists>ok. Called_Start (rep_machine_id operation) (rep_old_container_id operation) ok \<in> set made)
    \<and> made \<noteq> []
    \<and> (restarted = Restarted \<longleftrightarrow> last made = Called_Wait [rep_old_container_id operation] Condition_Serving Fresh_Token True)"
proof -
  let ?old = "rep_old_container_id operation" and ?m = "rep_machine_id operation"
  obtain r u s1 where start: "xworld (call_start_container (traced_client rt ops) ?m ?old) s = Some (u, s1)"
    and restarted: "restarted = restart_attempt_from r"
    and rest: "(case map_err (machine_error Action_StartContainer) u of
        Inl e \<Rightarrow> xret (Inl e) | Inr a \<Rightarrow> wait_serving (traced_client rt ops) ?old Fresh_Token) s1 = Some (r, t)"
    using assms unfolding restore_old_container_def xtry_def acting_def xmap_eq_Some xbind_eq_Some by blast
  obtain failed where log: "calls s1 = calls s @ failed @ [Called_Start ?m ?old (is_ok u)]"
    using client_start_log [OF start] by blast
  show ?thesis
  proof (cases u)
    case (Inl e)
    then show ?thesis
      using log rest restarted by (auto simp: restart_attempt_from_def intro!: exI [of _ "failed @ [Called_Start ?m ?old False]"])
  next
    case (Inr v)
    then have "calls t = calls s1 @ [Called_Wait [?old] Condition_Serving Fresh_Token (is_ok r)]"
      using rest wait_serving_log by simp
    moreover have "restarted = Restarted \<longleftrightarrow> is_ok r"
      unfolding restarted restart_attempt_from_def by (cases r) simp_all
    ultimately show ?thesis
      using log Inr
      by (auto intro!: exI [of _ "failed @ [Called_Start ?m ?old True, Called_Wait [?old] Condition_Serving Fresh_Token (is_ok r)]"])
  qed
qed

lemma compensate_restores:
  assumes "compensate (traced_client rt ops) index operation True new_container error s = Some (failure, t)"
  shows "\<exists>made stopped restarted. failure = Replacement_Failure error (OldStopped stopped restarted)
    \<and> calls t = calls s @ made \<and> made \<noteq> []
    \<and> (\<exists>ok. Called_Start (rep_machine_id operation) (rep_old_container_id operation) ok \<in> set made)
    \<and> (restarted = Restarted \<longleftrightarrow> last made = Called_Wait [rep_old_container_id operation] Condition_Serving Fresh_Token True)"
proof -
  obtain s1 s2 stopped restarted where s1: "running index Compensating s = Some ((), s1)"
    and s2: "stop_new_container (traced_client rt ops) operation new_container s1 = Some (stopped, s2)"
    and restore: "restore_old_container (traced_client rt ops) operation s2 = Some (restarted, t)"
    and failure: "failure = Replacement_Failure error (OldStopped stopped restarted)"
    using assms by (auto simp: compensate_def xbind_eq_Some simp del: split_paired_Ex)
  have "keeps (logs (\<lambda>_. True)) (stop_new_container (traced_client rt ops) operation new_container)"
    unfolding stop_new_container_def acting_if_found_def
    by (auto intro!: keeps_logs_xworld client_call_logs split: option.split)
  from keepsD [OF this s2] obtain made1 where "calls s2 = calls s1 @ made1"
    unfolding world_logs_def by blast
  moreover have "calls s1 = calls s"
    using s1 by (auto simp: running_def xprogress_eq_Some)
  moreover obtain made2 where "calls t = calls s2 @ made2" "made2 \<noteq> []"
    "\<exists>ok. Called_Start (rep_machine_id operation) (rep_old_container_id operation) ok \<in> set made2"
    "restarted = Restarted \<longleftrightarrow> last made2 = Called_Wait [rep_old_container_id operation] Condition_Serving Fresh_Token True"
    using restore_old_container_log [OF restore] by blast
  ultimately show ?thesis
    using failure by (intro exI [of _ "made1 @ made2"] exI [of _ stopped] exI [of _ restarted]) auto
qed

section \<open>The order of a replacement\<close>

lemma later_than_prefix: "xs @ ys = before @ x # after \<Longrightarrow> x \<notin> set xs \<Longrightarrow> \<exists>zs. before = xs @ zs"
  by (auto simp: append_eq_append_conv2 append_eq_Cons_conv)

lemma earlier_than_suffix: "xs @ ys = before @ x # after \<Longrightarrow> x \<notin> set ys \<Longrightarrow> \<exists>zs. after = zs @ ys"
  by (auto simp: append_eq_append_conv2 append_eq_Cons_conv)

text \<open>The new container of a replacement was created and serves.\<close>

definition replacement_serves :: "namespace \<Rightarrow> replacement_operation \<Rightarrow> machine_call list \<Rightarrow> bool" where
  "replacement_serves namespace operation made \<longleftrightarrow>
     (\<exists>new. Called_Create (rep_machine_id operation) ServiceContainer namespace (rep_spec operation)
          (Some (rep_old_container_id operation)) (Some new) \<in> set made
        \<and> Called_Wait [new] Condition_Serving Deploy_Token True \<in> set made)"

text \<open>A failed replacement brings the old container back: it starts it and says whether it serves again.\<close>

definition replacement_restores ::
  "replacement_operation \<Rightarrow> (operation_failure, unit) result \<Rightarrow> machine_call list \<Rightarrow> bool" where
  "replacement_restores operation r made \<longleftrightarrow>
     (\<exists>error stopped restarted. r = Inl (Replacement_Failure error (OldStopped stopped restarted))
        \<and> made \<noteq> [] \<and> (\<exists>ok. Called_Start (rep_machine_id operation) (rep_old_container_id operation) ok \<in> set made)
        \<and> (restarted = Restarted
             \<longleftrightarrow> last made = Called_Wait [rep_old_container_id operation] Condition_Serving Fresh_Token True))"

lemma start_then_finish_log:
  assumes "xbind (start_new (traced_runtime rt) (traced_client rt ops) index operation namespace) (\<lambda>started.
      case started of
        Inl (new_container, error) \<Rightarrow>
          xmap Inl (compensate (traced_client rt ops) index operation old_stopped new_container error)
      | Inr _ \<Rightarrow> xmap (map_err Ordinary) (remove_old (traced_client rt ops) index operation stop_first)) s = Some (r, t)"
    and fresh: "never_creates ops (rep_old_container_id operation)"
  defines "old \<equiv> rep_old_container_id operation"
  obtains made rest where "calls t = calls s @ made @ rest" and "\<forall>call \<in> set made. spares old call"
    and "replacement_serves namespace operation made
      \<or> (\<forall>call \<in> set rest. spares old call) \<and> (old_stopped \<longrightarrow> replacement_restores operation r rest)"
proof -
  obtain started s1 where started: "start_new (traced_runtime rt) (traced_client rt ops) index operation namespace s = Some (started, s1)"
    and finish: "(case started of
        Inl (new_container, error) \<Rightarrow>
          xmap Inl (compensate (traced_client rt ops) index operation old_stopped new_container error)
      | Inr _ \<Rightarrow> xmap (map_err Ordinary) (remove_old (traced_client rt ops) index operation stop_first)) s1 = Some (r, t)"
    using assms(1) unfolding xbind_eq_Some by blast
  note trace = start_new_trace [OF started fresh, folded old_def]
  show ?thesis
  proof (cases started)
    case (Inl failed)
    obtain new_container error where failed: "failed = (new_container, error)"
      by (cases failed)
    obtain failure where failure: "compensate (traced_client rt ops) index operation old_stopped new_container error s1 = Some (failure, t)"
      and r: "r = Inl failure"
      using finish Inl failed by (auto simp: xmap_eq_Some)
    have new: "new_container \<noteq> Some (rep_old_container_id operation)" and "logs (spares old) s s1"
      using trace Inl failed unfolding old_def by simp_all
    then obtain made where made: "calls s1 = calls s @ made" "\<forall>call \<in> set made. spares old call"
      unfolding world_logs_def by blast
    obtain rest where rest: "calls t = calls s1 @ rest" "\<forall>call \<in> set rest. spares old call"
      using keepsD [OF compensate_spares [OF new] failure] unfolding world_logs_def old_def by blast
    have "old_stopped \<longrightarrow> replacement_restores operation r rest"
      using compensate_restores [of rt ops index operation new_container error s1 failure t] failure rest(1) r
      unfolding replacement_restores_def by auto
    with made rest show ?thesis
      by (intro that [of made rest]) auto
  next
    case (Inr v)
    let ?wait = "\<lambda>new. Called_Wait [new] Condition_Serving Deploy_Token True"
    obtain new made where made: "calls s1 = calls s @ made @ [?wait new]" "\<forall>call \<in> set made. spares old call"
      "Called_Create (rep_machine_id operation) ServiceContainer namespace (rep_spec operation) (Some old) (Some new) \<in> set made"
      using trace Inr by auto
    have "keeps (logs (\<lambda>_. True)) (remove_old (traced_client rt ops) index operation stop_first)"
      unfolding remove_old_def acting_if_found_def wait_dropped_def acting_def
      by (auto intro!: keeps_logs_xworld client_call_logs)
    then obtain rest where rest: "calls t = calls s1 @ rest"
      using finish Inr by (auto simp: xmap_eq_Some world_logs_def dest!: keepsD)
    have "replacement_serves namespace operation (made @ [?wait new])"
      using made(3) unfolding replacement_serves_def old_def by auto
    with made rest show ?thesis
      by (intro that [of "made @ [?wait new]" rest]) auto
  qed
qed

text \<open>The log of a replacement in its phases: the stop that comes first, the start of the new container,
  and then the compensation or the removal of the old container.\<close>

lemma replace_container_log:
  assumes "replace_container (traced_runtime rt) (traced_client rt ops) index operation namespace s = Some (r, t)"
    and fresh: "never_creates ops (rep_old_container_id operation)"
  defines "old \<equiv> rep_old_container_id operation"
  obtains stopping made rest where "calls t = calls s @ stopping @ made @ rest"
    and "\<forall>call \<in> set stopping. \<not> removes old call"
    and "ru_order (rs_update (rep_spec operation)) = StartFirst \<longrightarrow> stopping = []"
    and "\<forall>call \<in> set made. spares old call"
    and "replacement_serves namespace operation made
      \<or> (\<forall>call \<in> set rest. spares old call)
        \<and> (\<forall>m. Called_Stop m old True \<in> set stopping \<longrightarrow> replacement_restores operation r rest)"
proof -
  let ?stop_first = "ru_order (rs_update (rep_spec operation)) = StopFirst"
  obtain q s1 where q: "(if ?stop_first then stop_old_first (traced_client rt ops) index operation else xret (Inr False)) s
      = Some (q, s1)"
    and finish: "(case q of
        Inl error \<Rightarrow> xret (Inl (Ordinary error))
      | Inr old_stopped \<Rightarrow>
          xbind (start_new (traced_runtime rt) (traced_client rt ops) index operation namespace) (\<lambda>started.
          case started of
            Inl (new_container, error) \<Rightarrow>
              xmap Inl (compensate (traced_client rt ops) index operation old_stopped new_container error)
          | Inr _ \<Rightarrow> xmap (map_err Ordinary) (remove_old (traced_client rt ops) index operation ?stop_first))) s1 = Some (r, t)"
    using assms(1) unfolding replace_container_def Let_def xbind_eq_Some by blast
  obtain stopping where stopping: "calls s1 = calls s @ stopping" "\<forall>call \<in> set stopping. \<not> removes old call"
    "ru_order (rs_update (rep_spec operation)) = StartFirst \<longrightarrow> stopping = []"
    "q \<noteq> Inr True \<Longrightarrow> \<forall>m. Called_Stop m old True \<notin> set stopping"
    using stop_old_first_log [of rt ops index operation s q s1] q that unfolding old_def
    by (cases ?stop_first) auto
  show ?thesis
  proof (cases q)
    case (Inl error)
    then show ?thesis
      using finish stopping by (intro that [of stopping "[]" "[]"]) auto
  next
    case (Inr old_stopped)
    with finish obtain made rest where "calls t = calls s1 @ made @ rest" "\<forall>call \<in> set made. spares old call"
      "replacement_serves namespace operation made
      \<or> (\<forall>call \<in> set rest. spares old call) \<and> (old_stopped \<longrightarrow> replacement_restores operation r rest)"
      using fresh unfolding old_def by (auto elim!: start_then_finish_log)
    then show ?thesis
      using stopping Inr by (intro that [of stopping made rest]) auto
  qed
qed

text \<open>A replacement on the simulated Cluster, and a Cluster on which no new container starts.\<close>

definition example_replacement :: "update_order \<Rightarrow> replacement_operation" where
  "example_replacement order =
     \<lparr> rep_machine_id = ''m1'', rep_old_container_id = ''c1'',
       rep_spec = (example_resolved ''web'' (Replicated 1) [])\<lparr> rs_update := \<lparr> ru_order = order, ru_monitor_millis = None \<rparr> \<rparr>,
       rep_skip_health_monitor = False \<rparr>"

definition sim_start :: "sim traced execution" where
  "sim_start = \<lparr> xc_world = (\<lparr> sim_time = 0, sim_created = 0 \<rparr>, []), xc_progress = progress_new [] None \<rparr>"

definition failing_operations :: "sim machine_operations" where
  "failing_operations = sim_operations
     \<lparr> call_start_container := (\<lambda>_ container_id w.
         Some (if container_id = ''c1'' then Inr ()
           else Inl \<lparr> rpc_code = Internal, rpc_message = ''no such image'', rpc_details = JNull \<rparr>, w)) \<rparr>"

lemma sim_never_creates: "never_creates sim_operations ''c1''" "never_creates failing_operations ''c1''"
proof -
  have "replicate n CHR ''n'' \<noteq> ''c1''" for n
    by (cases n) auto
  then show "never_creates sim_operations ''c1''" "never_creates failing_operations ''c1''"
    by (auto simp: never_creates_def sim_operations_def failing_operations_def)
qed

lemma replacement_serves_mono:
  "replacement_serves namespace operation made \<Longrightarrow> set made \<subseteq> insert (Called_Stop m c ok) (set made')
     \<Longrightarrow> replacement_serves namespace operation made'"
  unfolding replacement_serves_def by blast

text \<open>
  Claim C4. A replacement gives up the old container only when the new one serves. Let no creation
  return the id of the old container. Every call of a replacement that removes the old container,
  and in the order start first every call that stops it, comes after the creation of the new
  container and after a wait that saw the new container serve.
\<close>

theorem replacement_keeps_serving:
  assumes "never_creates ops (rep_old_container_id operation)"
    and "replace_container (traced_runtime rt) (traced_client rt ops) index operation namespace s = Some (r, t)"
    and "calls t = calls s @ before @ call # after"
    and "removes (rep_old_container_id operation) call
      \<or> ru_order (rs_update (rep_spec operation)) = StartFirst \<and> stops (rep_old_container_id operation) call"
  shows "replacement_serves namespace operation before"
proof -
  obtain stopping made rest where log: "calls t = calls s @ stopping @ made @ rest"
    and stopping: "\<forall>call \<in> set stopping. \<not> removes (rep_old_container_id operation) call"
      "ru_order (rs_update (rep_spec operation)) = StartFirst \<longrightarrow> stopping = []"
    and made: "\<forall>call \<in> set made. spares (rep_old_container_id operation) call"
    and rest: "replacement_serves namespace operation made \<or> (\<forall>call \<in> set rest. spares (rep_old_container_id operation) call)"
    using replace_container_log [OF assms(2,1)] by metis
  have split: "(stopping @ made) @ rest = before @ call # after"
    using log assms(3) by simp
  have "call \<notin> set (stopping @ made)"
    using stopping made assms(4) by auto
  moreover from this have "call \<in> set rest"
    using arg_cong [OF split, of set] by auto
  ultimately have "replacement_serves namespace operation made" "set made \<subseteq> set before"
    using later_than_prefix [OF split] rest assms(4) by auto
  then show ?thesis
    using replacement_serves_mono by blast
qed

theorem replacement_keeps_serving_witness:
  "\<exists>r t before after. replace_container (traced_runtime sim_runtime) (traced_client sim_runtime sim_operations) 0
        (example_replacement StartFirst) ''prod'' sim_start = Some (r, t)
     \<and> calls t = calls sim_start @ before @ Called_Remove ''m1'' ''c1'' True # after
     \<and> replacement_serves ''prod'' (example_replacement StartFirst) before"
proof -
  obtain r t where run: "replace_container (traced_runtime sim_runtime) (traced_client sim_runtime sim_operations) 0
      (example_replacement StartFirst) ''prod'' sim_start = Some (r, t)"
    and removed: "Called_Remove ''m1'' ''c1'' True \<in> set (calls t)"
  proof -
    have "case replace_container (traced_runtime sim_runtime) (traced_client sim_runtime sim_operations) 0
        (example_replacement StartFirst) ''prod'' sim_start of
        None \<Rightarrow> False | Some (r, t) \<Rightarrow> Called_Remove ''m1'' ''c1'' True \<in> set (calls t)"
      by code_simp
    then show ?thesis
      using that by (auto split: option.splits)
  qed
  from removed obtain before after where split: "calls t = calls sim_start @ before @ Called_Remove ''m1'' ''c1'' True # after"
    by (auto simp: sim_start_def dest: split_list)
  have "never_creates sim_operations (rep_old_container_id (example_replacement StartFirst))"
    by (simp add: example_replacement_def sim_never_creates)
  from replacement_keeps_serving [OF this run split] run split show ?thesis
    by (auto simp: example_replacement_def)
qed

text \<open>
  Claim C6. A replacement that stopped the old container and fails brings it back. Let no creation
  return the id of the old container. When the old container was stopped and the new one was not
  seen to serve, the replacement reports a failure that carries the compensation: the old container
  is started again after the stop, and it is reported as restarted exactly when the last call saw it
  serve.
\<close>

theorem failed_replacement_restores:
  assumes "never_creates ops (rep_old_container_id operation)"
    and "replace_container (traced_runtime rt) (traced_client rt ops) index operation namespace s = Some (r, t)"
    and "calls t = calls s @ before @ Called_Stop m (rep_old_container_id operation) True # after"
    and "\<not> replacement_serves namespace operation (before @ after)"
  shows "replacement_restores operation r after"
proof -
  let ?stop = "Called_Stop m (rep_old_container_id operation) True"
  obtain stopping made rest where log: "calls t = calls s @ stopping @ made @ rest"
    and made: "\<forall>call \<in> set made. spares (rep_old_container_id operation) call"
    and rest: "replacement_serves namespace operation made \<or> (\<forall>call \<in> set rest. spares (rep_old_container_id operation) call)
      \<and> (\<forall>m. Called_Stop m (rep_old_container_id operation) True \<in> set stopping \<longrightarrow> replacement_restores operation r rest)"
    using replace_container_log [OF assms(2,1)] by metis
  have split: "stopping @ made @ rest = before @ ?stop # after"
    using log assms(3) by simp
  have "set made \<subseteq> insert ?stop (set (before @ after))"
    using arg_cong [OF split, of set] by auto
  with assms(4) have "\<not> replacement_serves namespace operation made"
    using replacement_serves_mono by blast
  with rest have spared: "\<forall>call \<in> set rest. spares (rep_old_container_id operation) call"
    and restores: "?stop \<in> set stopping \<Longrightarrow> replacement_restores operation r rest"
    by auto
  have "?stop \<notin> set (made @ rest)"
    using made spared by fastforce
  moreover from this have "?stop \<in> set stopping"
    using arg_cong [OF split, of set] by auto
  ultimately show ?thesis
    using earlier_than_suffix [OF split] restores unfolding replacement_restores_def by auto
qed

theorem failed_replacement_restores_witness:
  "\<exists>r t before after. replace_container (traced_runtime sim_runtime) (traced_client sim_runtime failing_operations) 0
        (example_replacement StopFirst) ''prod'' sim_start = Some (r, t)
     \<and> calls t = calls sim_start @ before @ Called_Stop ''m1'' ''c1'' True # after
     \<and> replacement_restores (example_replacement StopFirst) r after"
proof -
  obtain r t where run: "replace_container (traced_runtime sim_runtime) (traced_client sim_runtime failing_operations) 0
      (example_replacement StopFirst) ''prod'' sim_start = Some (r, t)"
    and stopped: "Called_Stop ''m1'' ''c1'' True \<in> set (calls t)"
    and unserved: "\<forall>c. Called_Wait [c] Condition_Serving Deploy_Token True \<notin> set (calls t)"
  proof -
    have "case replace_container (traced_runtime sim_runtime) (traced_client sim_runtime failing_operations) 0
        (example_replacement StopFirst) ''prod'' sim_start of
        None \<Rightarrow> False
      | Some (r, t) \<Rightarrow> Called_Stop ''m1'' ''c1'' True \<in> set (calls t)
          \<and> list_all (\<lambda>call. case call of Called_Wait _ _ Deploy_Token _ \<Rightarrow> False | _ \<Rightarrow> True) (calls t)"
      by code_simp
    then show ?thesis
      using that by (fastforce simp: list_all_iff split: option.splits)
  qed
  from stopped obtain before after where split: "calls t = calls sim_start @ before @ Called_Stop ''m1'' ''c1'' True # after"
    by (auto simp: sim_start_def dest: split_list)
  have old: "rep_old_container_id (example_replacement StopFirst) = ''c1''"
    by (simp add: example_replacement_def)
  have "\<not> replacement_serves ''prod'' (example_replacement StopFirst) (before @ after)"
    using unserved split by (auto simp: replacement_serves_def)
  from failed_replacement_restores [OF _ run _ this, unfolded old, OF sim_never_creates(2) split] run split show ?thesis
    by blast
qed

end
