(* ===== verification/Owned_Calls.thy ===== *)
theory Owned_Calls
  imports Replacement_Correct
begin

text \<open>
  The planner and the executor together: the execution of a Deploy plan stops and removes only the
  containers that the plan owns, and those that the execution itself created before.
\<close>

section \<open>Logs that keep to the owned containers\<close>

fun destroys :: "machine_call \<Rightarrow> (machine_id \<times> container_id) set" where
  "destroys (Called_Stop m c _) = {(m, c)}"
| "destroys (Called_Remove m c _) = {(m, c)}"
| "destroys _ = {}"

fun removes_volume :: "machine_call \<Rightarrow> bool" where
  "removes_volume (Called_RemoveVolume _ _) \<longleftrightarrow> True"
| "removes_volume _ \<longleftrightarrow> False"

definition created_in :: "machine_call list \<Rightarrow> (machine_id \<times> container_id) set" where
  "created_in log = {(m, c). \<exists>kind namespace spec replacing. Called_Create m kind namespace spec replacing (Some c) \<in> set log}"

definition allowed :: "(machine_id \<times> container_id) set \<Rightarrow> machine_call \<Rightarrow> bool" where
  "allowed owned call \<longleftrightarrow> destroys call \<subseteq> owned \<and> \<not> removes_volume call"

definition owned_log :: "(machine_id \<times> container_id) set \<Rightarrow> machine_call list \<Rightarrow> bool" where
  "owned_log owned log \<longleftrightarrow> (\<forall>before call after. log = before @ call # after \<longrightarrow> allowed (owned \<union> created_in before) call)"

lemma created_in_append: "created_in (log @ log') = created_in log \<union> created_in log'"
  by (auto simp: created_in_def)

lemma created_in_create: "(m, c) \<in> created_in [Called_Create m kind namespace spec replacing (Some c)]"
  by (simp add: created_in_def)

lemma owned_log_Nil: "owned_log owned []"
  by (simp add: owned_log_def)

lemma owned_log_append:
  assumes "owned_log owned log" and "\<forall>call \<in> set made. allowed (owned \<union> created_in log) call"
  shows "owned_log owned (log @ made)"
  unfolding owned_log_def
proof (intro allI impI)
  fix before call after
  assume split: "log @ made = before @ call # after"
  show "allowed (owned \<union> created_in before) call"
  proof (cases "\<exists>zs. before = log @ zs")
    case True
    then have "call \<in> set made" "created_in log \<subseteq> created_in before"
      using split by (auto simp: created_in_append)
    then show ?thesis
      using assms(2) by (auto simp: allowed_def)
  next
    case False
    then obtain zs where "log = before @ call # zs"
      using split by (auto simp: append_eq_append_conv2 append_eq_Cons_conv)
    then show ?thesis
      using assms(1) unfolding owned_log_def by blast
  qed
qed

text \<open>The log grows, and keeps to the owned containers.\<close>

definition guards :: "(machine_id \<times> container_id) set \<Rightarrow> 'w traced execution \<Rightarrow> 'w traced execution \<Rightarrow> bool" where
  "guards owned s t \<longleftrightarrow> (\<exists>made. calls t = calls s @ made) \<and> (owned_log owned (calls s) \<longrightarrow> owned_log owned (calls t))"

interpretation guards: exec_relation "guards owned" for owned
  by unfold_locales (auto simp: guards_def simp del: split_paired_All)

lemma logs_guards: "logs (allowed (owned \<union> created_in (calls s))) s t \<Longrightarrow> guards owned s t"
  unfolding guards_def world_logs_def using owned_log_append by force

lemma keeps_logs_guards: "keeps (logs (allowed owned)) m \<Longrightarrow> keeps (guards owned) m"
  unfolding keeps_def
proof (intro allI impI)
  fix s a t
  assume "\<forall>s a t. m s = Some (a, t) \<longrightarrow> logs (allowed owned) s t" "m s = Some (a, t)"
  then have "logs (allowed owned) s t"
    by blast
  then show "guards owned s t"
    by (intro logs_guards, elim world_logs_mono) (auto simp: allowed_def)
qed

lemma guards_running: "keeps (guards owned) (running index phase)"
  by (intro keeps_logs_guards keeps_logs_running)

text \<open>A computation that ends with the containers \<open>K a\<close> created, and a rest that may stop and remove them.\<close>

definition creating ::
  "(machine_id \<times> container_id) set \<Rightarrow> ('w traced execution, 'a) exec \<Rightarrow> ('a \<Rightarrow> (machine_id \<times> container_id) set) \<Rightarrow> bool" where
  "creating owned m K \<longleftrightarrow> (\<forall>s a t. m s = Some (a, t) \<longrightarrow> guards owned s t \<and> K a \<subseteq> created_in (calls t))"

lemma creating_keeps: "creating owned m K \<Longrightarrow> keeps (guards owned) m"
  unfolding creating_def keeps_def by blast

lemma creating_none: "keeps (guards owned) m \<Longrightarrow> creating owned m (\<lambda>_. {})"
  unfolding creating_def keeps_def by blast

lemma creating_xbind:
  assumes "creating owned m K" and "\<And>a. keeps (logs (allowed (owned \<union> K a))) (k a)"
    and "\<And>a b s t. k a s = Some (b, t) \<Longrightarrow> K' b \<subseteq> K a"
  shows "creating owned (xbind m k) K'"
  unfolding creating_def
proof (intro allI impI)
  fix s b t
  assume "xbind m k s = Some (b, t)"
  then obtain a s1 where a: "m s = Some (a, s1)" and b: "k a s1 = Some (b, t)"
    unfolding xbind_eq_Some by blast
  have guards: "guards owned s s1" and K: "K a \<subseteq> created_in (calls s1)"
    using assms(1) a unfolding creating_def by blast+
  have logs: "logs (allowed (owned \<union> K a)) s1 t"
    using keepsD [OF assms(2) b] .
  then have "logs (allowed (owned \<union> created_in (calls s1))) s1 t"
    by (rule world_logs_mono) (use K in \<open>auto simp: allowed_def\<close>)
  then have "guards owned s1 t"
    by (rule logs_guards)
  moreover have "created_in (calls s1) \<subseteq> created_in (calls t)"
    using logs by (auto simp: world_logs_def created_in_append)
  ultimately show "guards owned s t \<and> K' b \<subseteq> created_in (calls t)"
    using guards.trans [OF guards] assms(3) [OF b] K by blast
qed

lemma creating_xtry:
  assumes "creating owned m K" and "\<And>a. keeps (logs (allowed (owned \<union> K (Inr a)))) (k a)"
  shows "keeps (guards owned) (xtry m k)"
  unfolding xtry_def
  by (rule creating_keeps, rule creating_xbind [OF assms(1), where K' = "\<lambda>_. {}"])
    (auto split: sum.split simp: assms(2) logs.keeps_xret)

section \<open>The executor keeps to the owned containers\<close>

lemma observing_allowed: "observing call \<Longrightarrow> allowed owned call"
  by (cases call) (simp_all add: allowed_def)

interpretation allowed: exec_reads "logs (allowed owned)" "traced_runtime rt" "traced_client rt ops" index
  for owned rt ops index
  by unfold_locales (auto intro!: keeps_logs_xworld client_call_logs simp: allowed_def)

lemma allowed_calls:
  "keeps (logs (allowed owned)) (xworld (call_prepare_volumes (traced_client rt ops) m specs))"
  "keeps (logs (allowed owned)) (xworld (call_start_container (traced_client rt ops) m c))"
  "(m, c) \<in> owned \<Longrightarrow> keeps (logs (allowed owned)) (xworld (call_stop_container (traced_client rt ops) m c grace))"
  "(m, c) \<in> owned \<Longrightarrow> keeps (logs (allowed owned)) (xworld (call_remove_container (traced_client rt ops) m c))"
  "keeps (logs (allowed owned)) (xworld (rt_sleep_before (traced_runtime rt) deadline wake))"
  "keeps (logs (allowed owned)) (xworld (rt_call_before (traced_runtime rt) deadline))"
  by (auto intro!: keeps_logs_xworld client_call_logs simp: allowed_def)

lemma allowed_acting:
  "keeps (logs (allowed owned)) (xworld call) \<Longrightarrow> keeps (logs (allowed owned)) (acting action call)"
  "keeps (logs (allowed owned)) (xworld call') \<Longrightarrow> keeps (logs (allowed owned)) (acting_if_found action call')"
  unfolding acting_def acting_if_found_def by auto

lemmas allowed_intros = allowed_calls allowed_acting

definition the_created :: "machine_id \<Rightarrow> ('e, container_created) result \<Rightarrow> (machine_id \<times> container_id) set" where
  "the_created m r = (case r of Inl _ \<Rightarrow> {} | Inr created \<Rightarrow> {(m, cc_container_id created)})"

lemma creating_call:
  "creating owned (xworld (call_create_container (traced_client rt ops) m kind namespace spec replacing)) (the_created m)"
proof -
  have "keeps (logs (allowed owned)) (xworld (call_create_container (traced_client rt ops) m kind namespace spec replacing))"
    by (auto intro!: keeps_logs_xworld client_call_logs simp: allowed_def)
  then have "guards owned s t"
    if "xworld (call_create_container (traced_client rt ops) m kind namespace spec replacing) s = Some (r, t)" for s r t
    using that by (rule keepsD [OF keeps_logs_guards])
  moreover have "the_created m r \<subseteq> created_in (calls t)"
    if "xworld (call_create_container (traced_client rt ops) m kind namespace spec replacing) s = Some (r, t)" for s r t
    using that
    by (auto simp: xworld_eq_Some restart_tolerant_def traced_operations_def traced_call_def created_in_append
        created_in_create the_created_def ok_value_def split: option.splits sum.splits)
  ultimately show ?thesis
    unfolding creating_def by blast
qed

lemma creating_create_and_start:
  "creating owned (create_and_start (traced_runtime rt) (traced_client rt ops) index m kind namespace spec replacing) (the_created m)"
proof -
  let ?start = "create_and_start (traced_runtime rt) (traced_client rt ops) index m kind namespace spec replacing"
  have "keeps (guards owned) ?start"
    unfolding create_and_start_def discard_created_def
    by (rule guards.keeps_xbind, rule keeps_logs_guards, rule keeps_logs_running, rule creating_keeps,
        rule creating_xbind [OF creating_call, where K' = "\<lambda>_. {}"])
      (auto split: sum.split simp: the_created_def intro!: allowed_intros)
  moreover have "the_created m r \<subseteq> created_in (calls t)" if "?start s = Some (r, t)" for s r t
  proof (cases r)
    case (Inr created)
    then show ?thesis
      using create_and_start_created [of rt ops index m kind namespace spec replacing s created t] that
      by (force simp: the_created_def created_in_def)
  qed (simp add: the_created_def)
  ultimately show ?thesis
    unfolding creating_def keeps_def by blast
qed

lemma guards_run_container:
  "keeps (guards owned) (run_container (traced_runtime rt) (traced_client rt ops) index m namespace spec skip)"
  unfolding run_container_def by (rule creating_xtry [OF creating_create_and_start]) auto

lemma map_err_eq_Inl: "map_err f r = Inl e \<longleftrightarrow> (\<exists>e'. r = Inl e' \<and> e = f e')"
  by (cases r) auto

lemma creating_start_new:
  "creating owned (start_new (traced_runtime rt) (traced_client rt ops) index operation namespace)
     (\<lambda>r. case r of Inl (Some c, _) \<Rightarrow> {(rep_machine_id operation, c)} | _ \<Rightarrow> {})"
  unfolding start_new_def
  by (rule creating_xbind [OF creating_create_and_start])
    (auto split: sum.splits option.splits simp: the_created_def xmap_eq_Some map_err_eq_Inl simp del: split_paired_Ex)

lemma guards_replace_container:
  assumes "(rep_machine_id operation, rep_old_container_id operation) \<in> owned"
  shows "keeps (guards owned) (replace_container (traced_runtime rt) (traced_client rt ops) index operation namespace)"
proof -
  have "keeps (logs (allowed owned)) (stop_old_first (traced_client rt ops) index operation)"
    using assms unfolding stop_old_first_def Let_def by (auto split: sum.split intro!: allowed_intros)
  then have stop: "keeps (guards owned) (stop_old_first (traced_client rt ops) index operation)"
    by (rule keeps_logs_guards)
  have remove: "keeps (logs (allowed (owned \<union> K))) (remove_old (traced_client rt ops) index operation stop_first)" for K stop_first
    using assms unfolding remove_old_def by (auto intro!: allowed_intros)
  have compensate: "keeps (logs (allowed (owned \<union> (case new_container of Some c \<Rightarrow> {(rep_machine_id operation, c)} | None \<Rightarrow> {}))))
      (compensate (traced_client rt ops) index operation old_stopped new_container error)" for old_stopped new_container error
    unfolding compensate_def stop_new_container_def restore_old_container_def
    by (auto split: option.split intro!: allowed_intros)
  have "keeps (guards owned) (xbind (start_new (traced_runtime rt) (traced_client rt ops) index operation namespace) (\<lambda>started.
          case started of
            Inl (new_container, error) \<Rightarrow>
              xmap Inl (compensate (traced_client rt ops) index operation old_stopped new_container error)
          | Inr _ \<Rightarrow> xmap (map_err Ordinary) (remove_old (traced_client rt ops) index operation stop_first)))" for old_stopped stop_first
  proof (rule creating_keeps, rule creating_xbind [OF creating_start_new, where K' = "\<lambda>_. {}"])
    fix started :: "(container_id option \<times> execution_error, unit) result"
    show "keeps (logs (allowed (owned \<union> (case started of Inl (Some c, _) \<Rightarrow> {(rep_machine_id operation, c)} | _ \<Rightarrow> {}))))
        (case started of
            Inl (new_container, error) \<Rightarrow>
              xmap Inl (compensate (traced_client rt ops) index operation old_stopped new_container error)
          | Inr _ \<Rightarrow> xmap (map_err Ordinary) (remove_old (traced_client rt ops) index operation stop_first))"
      using compensate remove [of "{}" stop_first] by (auto split: sum.split prod.split)
  qed simp
  with stop show ?thesis
    unfolding replace_container_def Let_def by (intro guards.keeps_xbind) (auto split: sum.split)
qed

lemma guards_run_hook:
  assumes "set old \<subseteq> owned"
  shows "keeps (guards owned) (run_hook (traced_runtime rt) (traced_client rt ops) index m namespace spec old)"
proof -
  have "keeps (logs (allowed owned)) (remove_old_hooks (traced_client rt ops) old)"
    using assms by (induction old) (auto intro!: allowed_intros)
  then have "keeps (guards owned) (remove_old_hooks (traced_client rt ops) old)"
    by (rule keeps_logs_guards)
  moreover have "keeps (logs (allowed (owned \<union> {(m, c)})))
      (hook_step (traced_runtime rt) (traced_client rt ops) index m c started timeout st)" for c started timeout st
    unfolding hook_step_def interrupt_hook_def Let_def
    by (auto split: sum.split select_branch.split container_runtime_observation.split intro!: allowed_intros)
  ultimately show ?thesis
    unfolding run_hook_def Let_def
    by (intro guards.keeps_xbind [OF guards_running] guards.keeps_xtry creating_xtry [OF creating_create_and_start])
      (auto simp: the_created_def)
qed

lemma guards_execute_operation:
  assumes "op_touches operation \<subseteq> owned" and "\<forall>v. operation \<noteq> RemoveVolume v"
  shows "keeps (guards owned) (execute_operation (traced_runtime rt) (traced_client rt ops) index namespace operation)"
proof (cases operation)
  case (RunContainer m spec skip)
  then show ?thesis
    unfolding execute_operation_def Let_def
    by (intro guards.keeps_xbind [OF guards_running]) (auto intro!: guards.keeps_xmap guards_run_container)
next
  case (ReplaceContainer r)
  then show ?thesis
    using assms unfolding execute_operation_def Let_def
    by (intro guards.keeps_xbind [OF guards_running]) (auto intro!: guards_replace_container)
next
  case (RunHook m spec old)
  then show ?thesis
    using assms unfolding execute_operation_def Let_def
    by (intro guards.keeps_xbind [OF guards_running]) (auto intro!: guards.keeps_xmap guards_run_hook)
qed (use assms in \<open>auto simp: execute_operation_def Let_def intro!: keeps_logs_guards allowed_intros\<close>)

lemma guards_xprogress: "keeps (guards owned) (xprogress f)"
  by (intro keeps_logs_guards keeps_logs_xprogress)

lemma guards_finish_failed: "keeps (guards owned) (finish_failed index error outcome)"
  unfolding finish_failed_def
  by (intro guards.keeps_xbind [OF guards_xprogress])
    (auto split: option.split intro!: guards.keeps_xbind guards_xprogress)

lemma guards_execute_from:
  assumes "\<forall>operation \<in> set rest. op_touches operation \<subseteq> owned \<and> (\<forall>v. operation \<noteq> RemoveVolume v)"
  shows "keeps (guards owned) (execute_from (traced_runtime rt) (traced_client rt ops) namespace operations index rest)"
  using assms
proof (induction rest arbitrary: index)
  case Nil
  then show ?case
    by (auto simp: Let_def intro!: guards.keeps_xbind guards_xprogress)
next
  case (Cons operation rest)
  have "keeps (guards owned) (xworld (rt_is_cancelled (traced_runtime rt)))"
    by (rule keeps_logs_guards) auto
  moreover have "keeps (guards owned) (execute_operation (traced_runtime rt) (traced_client rt ops) index namespace operation)"
    using Cons.prems by (intro guards_execute_operation) auto
  ultimately show ?case
    using Cons by (auto simp: guards_finish_failed split: sum.split operation_failure.split intro!: guards.keeps_xbind guards_xprogress)
qed

section \<open>The execution of a Deploy plan\<close>

definition owned_locations :: "deploy_intent \<Rightarrow> deploy_snapshot \<Rightarrow> (machine_id \<times> container_id) set" where
  "owned_locations intent snapshot =
     location ` {container. applied_container intent snapshot container \<or> retired_container intent snapshot container}"

text \<open>
  Claim C5. Planner and executor together: the execution of a Deploy plan destroys nothing that is
  not its own. Whatever the Machines answer, every call that stops or removes a container, retries
  and compensation included, names a container that the snapshot shows in the intent's Namespace and
  that belongs to an applied or a retired Service, or a container that the same execution created on
  that Machine before the call. No call removes a Volume.
\<close>

theorem execution_touches_only_owned:
  assumes "plan_deploy x intent snapshot = Inr plan" and "snapshot_wf snapshot"
    and "execute_operation_sequence (traced_runtime rt) (traced_operations ops) plan tx (w, []) = Some (r, t)"
    and "calls t = before @ call # after"
  shows "destroys call \<subseteq> owned_locations intent snapshot \<union> created_in before \<and> \<not> removes_volume call"
proof -
  let ?owned = "owned_locations intent snapshot"
  have "\<forall>operation \<in> set (pl_operations plan). op_touches operation \<subseteq> ?owned \<and> (\<forall>v. operation \<noteq> RemoveVolume v)"
  proof
    fix operation
    assume "operation \<in> set (pl_operations plan)"
    note owned = plan_owned [OF assms(1,2) this, unfolded owned_operation_def]
    have "touched \<in> ?owned" if "touched \<in> op_touches operation" for touched
    proof -
      obtain container where "location container = touched"
        "applied_container intent snapshot container \<or> retired_container intent snapshot container"
        using owned \<open>touched \<in> op_touches operation\<close> by metis
      then show ?thesis
        unfolding owned_locations_def by blast
    qed
    with owned show "op_touches operation \<subseteq> ?owned \<and> (\<forall>v. operation \<noteq> RemoveVolume v)"
      by blast
  qed
  note keeps = guards_execute_from [OF this, of rt ops "dp_namespace (pl_preview plan)" "pl_operations plan" 0]
  have "guards ?owned \<lparr> xc_world = (w, []), xc_progress = emit (progress_new (plan_pending_rows plan) tx) \<rparr> t"
    using assms(3) unfolding execute_operation_sequence_def Let_def by (rule keepsD [OF keeps])
  then have "owned_log ?owned (calls t)"
    by (simp add: guards_def owned_log_Nil)
  then show ?thesis
    using assms(4) unfolding owned_log_def allowed_def by blast
qed

definition retiring_deploy :: deploy_intent where
  "retiring_deploy = apply_all ''prod'' [] plan_options_default"

theorem execution_touches_only_owned_witness:
  "\<exists>plan r t before call after. plan_deploy example_ext retiring_deploy example_snapshot = Inr plan
     \<and> execute_operation_sequence (traced_runtime sim_runtime) (traced_operations sim_operations) plan None
         (\<lparr> sim_time = 0, sim_created = 0 \<rparr>, []) = Some (r, t)
     \<and> calls t = before @ call # after \<and> destroys call = {(''m1'', ''c2'')}
     \<and> destroys call \<subseteq> owned_locations retiring_deploy example_snapshot \<union> created_in before"
proof -
  let ?run = "\<lambda>plan. execute_operation_sequence (traced_runtime sim_runtime) (traced_operations sim_operations) plan None
      (\<lparr> sim_time = 0, sim_created = 0 \<rparr>, [])"
  have "case plan_deploy example_ext retiring_deploy example_snapshot of
      Inl _ \<Rightarrow> False
    | Inr plan \<Rightarrow> (case ?run plan of None \<Rightarrow> False | Some (_, t) \<Rightarrow> Called_Remove ''m1'' ''c2'' True \<in> set (calls t))"
    by code_simp
  then obtain plan r t where plan: "plan_deploy example_ext retiring_deploy example_snapshot = Inr plan"
    and run: "?run plan = Some (r, t)" and removed: "Called_Remove ''m1'' ''c2'' True \<in> set (calls t)"
    by (auto split: sum.splits option.splits)
  from removed obtain before after where split: "calls t = before @ Called_Remove ''m1'' ''c2'' True # after"
    by (meson split_list)
  have "destroys (Called_Remove ''m1'' ''c2'' True) = {(''m1'', ''c2'')}"
    by simp
  with execution_touches_only_owned [OF plan example_wf(2) run split] plan run split show ?thesis
    by blast
qed

end
