(* ===== verification/Health_Gate.thy ===== *)
theory Health_Gate
  imports Owned_Calls
begin

text \<open>
  What a completed operation has seen: a started container was ready before it was waited for, no
  inspection in between saw it crash, and a dependency was healthy in all its containers.
\<close>

section \<open>Ready containers\<close>

text \<open>The health check that applies to a container reports no health.\<close>

definition no_check :: "healthcheck_spec option \<Rightarrow> container_observation \<Rightarrow> bool" where
  "no_check check observed \<longleftrightarrow>
     (case check of
        None \<Rightarrow> Option.bind (co_effective_healthcheck observed) as_configured = None
      | Some Healthcheck_Disabled \<Rightarrow> True
      | Some _ \<Rightarrow> False)"

definition ready :: "healthcheck_spec option \<Rightarrow> container_observation \<Rightarrow> bool" where
  "ready check observed \<longleftrightarrow>
     co_runtime observed = Running Healthy \<or> co_runtime observed = Running NotConfigured \<and> no_check check observed"

definition crashed :: "container_observation \<Rightarrow> bool" where
  "crashed observed \<longleftrightarrow> co_runtime observed = Restarting \<or> (\<exists>code. co_runtime observed = Exited code)"

text \<open>The calls of a monitor that passed: only inspections, none saw a crash, and the last saw the
  container ready.\<close>

definition no_crash :: "machine_id \<Rightarrow> container_id \<Rightarrow> machine_call list \<Rightarrow> bool" where
  "no_crash m c made \<longleftrightarrow>
     (\<forall>call \<in> set made. call = Called_Inspect m c None
        \<or> (\<exists>observed. call = Called_Inspect m c (Some observed) \<and> \<not> crashed observed))"

definition passes :: "machine_id \<Rightarrow> container_id \<Rightarrow> healthcheck_spec option \<Rightarrow> machine_call list \<Rightarrow> bool" where
  "passes m c check made \<longleftrightarrow>
     no_crash m c made \<and> (\<exists>observed. made \<noteq> [] \<and> last made = Called_Inspect m c (Some observed) \<and> ready check observed)"

lemma classify_ready:
  "classify_health (co_runtime observed) now deadline (health_deadline_for check observed started) ContainerReady = Poll_Complete
     \<Longrightarrow> ready check observed \<and> \<not> crashed observed"
  by (cases "co_runtime observed")
    (auto simp: classify_health_def Let_def pending_or_failed_def health_deadline_for_def ready_def no_check_def crashed_def
      split: health_observation.splits option.splits if_splits healthcheck_spec.splits)

lemma classify_crashed:
  "classify_health (co_runtime observed) now deadline health_deadline ContainerReady = PendingUntil wake \<Longrightarrow> \<not> crashed observed"
  by (cases "co_runtime observed") (auto simp: classify_health_def Let_def crashed_def)

lemma classify_dependency_complete:
  "classify_dependency started monitor_deadline now observed = Poll_Complete \<Longrightarrow> co_runtime observed = Running Healthy"
  by (cases "co_runtime observed")
    (auto simp: classify_dependency_def Let_def classify_health_def pending_or_failed_def
      split: health_observation.splits option.splits if_splits)

section \<open>The logs of the waits\<close>

lemma no_calls: "keeps (logs (\<lambda>_. False)) m \<Longrightarrow> m s = Some (a, t) \<Longrightarrow> calls t = calls s"
  by (drule (1) keepsD) (simp add: world_logs_def)

lemma quiet:
  "xworld (rt_is_cancelled (traced_runtime rt)) s = Some (a, t) \<Longrightarrow> calls t = calls s"
  "xworld (rt_now (traced_runtime rt)) s = Some (now, t) \<Longrightarrow> calls t = calls s"
  "xworld (rt_sleep (traced_runtime rt) wake) s = Some (a, t) \<Longrightarrow> calls t = calls s"
  "xworld (elapsed_ms (traced_runtime rt) started) s = Some (elapsed, t) \<Longrightarrow> calls t = calls s"
  "xprogress f s = Some (u, t) \<Longrightarrow> calls t = calls s"
  "running index phase s = Some (u, t) \<Longrightarrow> calls t = calls s"
  by (erule no_calls [rotated], auto intro!: keeps_logs_xworld)+

lemma client_inspect_log:
  assumes "inspect (traced_client rt ops) m c s = Some (r, t)"
  shows "\<exists>failed. calls t = calls s @ failed @ [Called_Inspect m c (ok_value r)] \<and> (\<forall>call \<in> set failed. call = Called_Inspect m c None)"
proof -
  obtain q where q: "xworld (call_inspect_container (traced_client rt ops) m c) s = Some (q, t)"
    and r: "r = map_err (machine_error Action_InspectContainer) q"
    using assms unfolding inspect_def xmap_eq_Some by blast
  have "ok_value r = ok_value q"
    unfolding r by (cases q) (simp_all add: ok_value_def)
  then show ?thesis
    using q wait_out_restart_log [of rt "\<lambda>r. Called_Inspect m c (ok_value r)" "call_inspect_container ops m c" "xc_world s" q]
    by (auto simp: xworld_eq_Some restart_tolerant_def traced_operations_def ok_value_def)
qed

lemma monitor_step_log:
  assumes "monitor_step (traced_runtime rt) (traced_client rt ops) index m c check started monitor_deadline st s = Some (step, t)"
    and "step = Inl () \<or> step = Inr (Inr ())"
  shows "\<exists>made. calls t = calls s @ made \<and> no_crash m c made \<and> (step = Inr (Inr ()) \<longrightarrow> passes m c check made)"
proof -
  obtain s1 s2 r where s1: "xworld (rt_is_cancelled (traced_runtime rt)) s = Some (False, s1)"
    and r: "inspect (traced_client rt ops) m c s1 = Some (r, s2)"
    and rest: "(case r of
        Inl error \<Rightarrow> xret (Inr (Inl error))
      | Inr observed \<Rightarrow>
          xbind (xworld (rt_now (traced_runtime rt))) (\<lambda>now.
          let health_deadline = health_deadline_for check observed started in
          xbind (xworld (elapsed_ms (traced_runtime rt) started)) (\<lambda>elapsed.
          xbind (xprogress (set_running index (WaitingForHealth c (observed_health (co_runtime observed))
              elapsed (millis_u64 (max 0 (unwrap_or monitor_deadline health_deadline - started)))))) (\<lambda>_.
          case classify_health (co_runtime observed) now
              (if is_http check then unwrap_or monitor_deadline health_deadline else monitor_deadline)
              health_deadline ContainerReady of
            Poll_Complete \<Rightarrow> xret (Inr (Inr ()))
          | Poll_Failed failure \<Rightarrow> xret (Inr (Inl (health_error c failure)))
          | PendingUntil wake_deadline \<Rightarrow>
              xbind (xworld (rt_sleep (traced_runtime rt) (min (now + POLL_INTERVAL) wake_deadline))) (\<lambda>is_cancelled.
              xret (if is_cancelled then Inr (Inl (health_error c Health_Cancelled)) else Inl ())))))) s2 = Some (step, t)"
    using assms unfolding monitor_step_def Let_def xbind_eq_Some
    by (elim exE conjE) (auto simp: xbind_eq_Some simp del: split_paired_Ex split: if_split_asm)
  obtain observed where observed: "r = Inr observed"
    using rest assms(2) by (cases r) auto
  obtain now s3 elapsed s4 u s5 where quiet3: "xworld (rt_now (traced_runtime rt)) s2 = Some (now, s3)"
    "xworld (elapsed_ms (traced_runtime rt) started) s3 = Some (elapsed, s4)"
    "xprogress (set_running index (WaitingForHealth c (observed_health (co_runtime observed))
              elapsed (millis_u64 (max 0 (unwrap_or monitor_deadline (health_deadline_for check observed started) - started)))))
       s4 = Some (u, s5)"
    and poll: "(case classify_health (co_runtime observed) now
              (if is_http check then unwrap_or monitor_deadline (health_deadline_for check observed started) else monitor_deadline)
              (health_deadline_for check observed started) ContainerReady of
            Poll_Complete \<Rightarrow> xret (Inr (Inr ()))
          | Poll_Failed failure \<Rightarrow> xret (Inr (Inl (health_error c failure)))
          | PendingUntil wake_deadline \<Rightarrow>
              xbind (xworld (rt_sleep (traced_runtime rt) (min (now + POLL_INTERVAL) wake_deadline))) (\<lambda>is_cancelled.
              xret (if is_cancelled then Inr (Inl (health_error c Health_Cancelled)) else Inl ()))) s5 = Some (step, t)"
    using rest unfolding observed Let_def sum.case xbind_eq_Some by blast
  have "calls t = calls s5 \<and> \<not> crashed observed \<and> (step = Inr (Inr ()) \<longrightarrow> ready check observed)"
    using poll assms(2)
    by (auto simp: xbind_eq_Some simp del: split_paired_Ex split: health_poll.splits if_splits
        dest: quiet classify_ready classify_crashed)
  moreover have "calls s5 = calls s2" "calls s1 = calls s"
    using quiet3 s1 by (auto dest!: quiet)
  moreover obtain failed where "calls s2 = calls s1 @ failed @ [Called_Inspect m c (Some observed)]"
    "\<forall>call \<in> set failed. call = Called_Inspect m c None"
    using client_inspect_log [OF r] observed by (auto simp: ok_value_def)
  ultimately show ?thesis
    by (intro exI [of _ "failed @ [Called_Inspect m c (Some observed)]"]) (auto simp: no_crash_def passes_def)
qed

lemma no_crash_append: "no_crash m c (xs @ ys) \<longleftrightarrow> no_crash m c xs \<and> no_crash m c ys"
  by (auto simp: no_crash_def)

lemma passes_append: "no_crash m c xs \<Longrightarrow> passes m c check ys \<Longrightarrow> passes m c check (xs @ ys)"
  by (auto simp: passes_def no_crash_append)

lemma monitor_loop_log:
  assumes "xloop (monitor_step (traced_runtime rt) (traced_client rt ops) index m c check started monitor_deadline) () s
      = Some (Inr (), t)"
  shows "\<exists>made. calls t = calls s @ made \<and> passes m c check made"
proof -
  have "Inr () = (Inr () :: (execution_error, unit) result) \<longrightarrow> (\<exists>made. calls t = calls s @ made \<and> passes m c check made)"
    using assms
  proof (rule xloop_invariant [where P = "\<lambda>_ u. \<exists>made. calls u = calls s @ made \<and> no_crash m c made"
      and Q = "\<lambda>r u. r = Inr () \<longrightarrow> (\<exists>made. calls u = calls s @ made \<and> passes m c check made)"])
    show "\<exists>made. calls s = calls s @ made \<and> no_crash m c made"
      by (simp add: no_crash_def)
  next
    fix st u st' v
    assume "\<exists>made. calls u = calls s @ made \<and> no_crash m c made"
      and "monitor_step (traced_runtime rt) (traced_client rt ops) index m c check started monitor_deadline st u = Some (Inl st', v)"
    then show "\<exists>made. calls v = calls s @ made \<and> no_crash m c made"
      using monitor_step_log [of rt ops index m c check started monitor_deadline st u "Inl st'" v] no_crash_append by fastforce
  next
    fix st u r v
    assume "\<exists>made. calls u = calls s @ made \<and> no_crash m c made"
      and "monitor_step (traced_runtime rt) (traced_client rt ops) index m c check started monitor_deadline st u = Some (Inr r, v)"
    then show "r = Inr () \<longrightarrow> (\<exists>made. calls v = calls s @ made \<and> passes m c check made)"
      using monitor_step_log [of rt ops index m c check started monitor_deadline st u "Inr r" v] passes_append by fastforce
  qed
  then show ?thesis
    by simp
qed

lemma monitor_container_log:
  assumes "monitor_container (traced_runtime rt) (traced_client rt ops) index m c spec s = Some (Inr (), t)"
  shows "\<exists>made. calls t = calls s @ made \<and> passes m c (healthcheck (rs_container spec)) made"
proof -
  have "\<exists>phase window deadline. monitor_container (traced_runtime rt) (traced_client rt ops) index m c spec =
      xbind (xworld (rt_now (traced_runtime rt))) (\<lambda>started.
      xbind (xprogress phase) (\<lambda>_.
      xtry (window started) (\<lambda>_ :: unit.
      xloop (monitor_step (traced_runtime rt) (traced_client rt ops) index m c (healthcheck (rs_container spec)) started
        (deadline started)) ())))
    \<and> (\<forall>started. keeps (logs (\<lambda>_. False)) (window started))"
    unfolding monitor_container_def Let_def
    by (intro exI conjI, rule HOL.refl) (auto simp: window_step_def intro!: keeps_logs_xworld)
  then obtain phase window deadline where eq: "monitor_container (traced_runtime rt) (traced_client rt ops) index m c spec =
      xbind (xworld (rt_now (traced_runtime rt))) (\<lambda>started.
      xbind (xprogress phase) (\<lambda>_.
      xtry (window started) (\<lambda>_ :: unit.
      xloop (monitor_step (traced_runtime rt) (traced_client rt ops) index m c (healthcheck (rs_container spec)) started
        (deadline started)) ())))"
    and window: "\<And>started. keeps (logs (\<lambda>_. False)) (window started)"
    by blast
  obtain started s1 u s2 v s3 where "xworld (rt_now (traced_runtime rt)) s = Some (started, s1)" "xprogress phase s1 = Some (u, s2)"
    and "window started s2 = Some (Inr v, s3)"
    and loop: "xloop (monitor_step (traced_runtime rt) (traced_client rt ops) index m c (healthcheck (rs_container spec)) started
        (deadline started)) () s3 = Some (Inr (), t)"
    using assms unfolding eq xbind_eq_Some xtry_eq_Some by blast
  then have "calls s3 = calls s"
    using no_calls [OF window] by (auto dest!: quiet)
  with monitor_loop_log [OF loop] show ?thesis
    by simp
qed

text \<open>The listing that ended the wait for a dependency.\<close>

definition dependency_healthy :: "qualified_service \<Rightarrow> container_observation list \<Rightarrow> bool" where
  "dependency_healthy dependency listed \<longleftrightarrow>
     filter (is_of_service dependency) listed \<noteq> []
     \<and> (\<forall>observed \<in> set (filter (is_of_service dependency) listed). co_runtime observed = Running Healthy)"

lemma poll_dependency_keeps_pending:
  "poll_dependency dependency started deadline now containers pending = Inr None
     \<Longrightarrow> pending = None \<and> (\<forall>observed \<in> set containers. classify_dependency started deadline now observed = Poll_Complete)"
proof (induction containers arbitrary: pending)
  case (Cons observed containers)
  then show ?case
    by (cases "classify_dependency started deadline now observed") (fastforce split: option.splits if_splits)+
qed simp

lemma wait_healthy_step_log:
  assumes "wait_healthy_step (traced_runtime rt) (traced_client rt ops) index dependency started st s = Some (Inr (Inr ()), t)"
  shows "\<exists>made listed. calls t = calls s @ made @ [Called_List dependency (Some listed)] \<and> dependency_healthy dependency listed"
proof -
  obtain s1 s2 r where s1: "xworld (rt_is_cancelled (traced_runtime rt)) s = Some (False, s1)"
    and r: "xworld (call_service_containers (traced_client rt ops) dependency) s1 = Some (r, s2)"
    and rest: "(case r of
        Inl error \<Rightarrow> xret (Inr (Inl (dependency_health_error dependency (Dependency_Observation error))))
      | Inr listed \<Rightarrow>
          if filter (is_of_service dependency) listed = []
          then xret (Inr (Inl (dependency_health_error dependency NoContainers))) else
          xbind (xworld (rt_now (traced_runtime rt))) (\<lambda>now.
          case poll_dependency dependency started (started + DEFAULT_HEALTH_MONITOR) now
              (filter (is_of_service dependency) listed) None of
            Inl error \<Rightarrow> xret (Inr (Inl error))
          | Inr None \<Rightarrow> xret (Inr (Inr ()))
          | Inr (Some (container_id, health, deadline)) \<Rightarrow>
              xbind (xworld (elapsed_ms (traced_runtime rt) started)) (\<lambda>elapsed.
              xbind (xprogress (set_running index (WaitingForHealth container_id health elapsed
                  (millis_u64 (max 0 (deadline - started)))))) (\<lambda>_.
              xbind (xworld (rt_sleep (traced_runtime rt) (min (now + POLL_INTERVAL) deadline))) (\<lambda>is_cancelled.
              xret (if is_cancelled then Inr (Inl (dependency_health_error dependency Dependency_Cancelled)) else Inl ())))))) s2
        = Some (Inr (Inr ()), t)"
    using assms unfolding wait_healthy_step_def Let_def xbind_eq_Some
    by (elim exE conjE) (auto simp: xbind_eq_Some simp del: split_paired_Ex split: if_split_asm)
  obtain listed where listed: "r = Inr listed" "filter (is_of_service dependency) listed \<noteq> []"
    using rest by (cases r) (auto split: if_splits)
  let ?poll = "\<lambda>now. poll_dependency dependency started (started + DEFAULT_HEALTH_MONITOR) now
      (filter (is_of_service dependency) listed) None"
  obtain now s3 where s3: "xworld (rt_now (traced_runtime rt)) s2 = Some (now, s3)"
    and polled: "(case ?poll now of
            Inl error \<Rightarrow> xret (Inr (Inl error))
          | Inr None \<Rightarrow> xret (Inr (Inr ()))
          | Inr (Some (container_id, health, deadline)) \<Rightarrow>
              xbind (xworld (elapsed_ms (traced_runtime rt) started)) (\<lambda>elapsed.
              xbind (xprogress (set_running index (WaitingForHealth container_id health elapsed
                  (millis_u64 (max 0 (deadline - started)))))) (\<lambda>_.
              xbind (xworld (rt_sleep (traced_runtime rt) (min (now + POLL_INTERVAL) deadline))) (\<lambda>is_cancelled.
              xret (if is_cancelled then Inr (Inl (dependency_health_error dependency Dependency_Cancelled)) else Inl ()))))) s3
        = Some (Inr (Inr ()), t)"
    using rest listed unfolding listed(1) sum.case if_not_P [OF listed(2)] xbind_eq_Some by blast
  have "?poll now = Inr None \<and> t = s3"
  proof (cases "?poll now")
    case (Inl error)
    then show ?thesis
      using polled by simp
  next
    case (Inr pending)
    then show ?thesis
      using polled by (cases pending) (auto simp: xbind_eq_Some simp del: split_paired_Ex split: if_splits)
  qed
  then have poll: "?poll now = Inr None" and t: "t = s3"
    by blast+
  have "dependency_healthy dependency listed"
    using poll_dependency_keeps_pending [OF poll] listed(2) classify_dependency_complete
    unfolding dependency_healthy_def by blast
  moreover have "calls t = calls s2" "calls s1 = calls s"
    using t s3 s1 by (auto dest!: quiet)
  moreover obtain failed where "calls s2 = calls s1 @ failed @ [Called_List dependency (Some listed)]"
    using r listed(1) wait_out_restart_log [of rt "\<lambda>r. Called_List dependency (ok_value r)" "call_service_containers ops dependency"
        "xc_world s1" r]
    by (auto simp: xworld_eq_Some restart_tolerant_def traced_operations_def ok_value_def)
  ultimately show ?thesis
    by auto
qed

lemma wait_healthy_log:
  assumes "wait_healthy (traced_runtime rt) (traced_client rt ops) index dependency s = Some (Inr (), t)"
  shows "\<exists>made listed. calls t = calls s @ made @ [Called_List dependency (Some listed)] \<and> dependency_healthy dependency listed"
proof -
  obtain started s1 where s1: "xworld (rt_now (traced_runtime rt)) s = Some (started, s1)"
    and loop: "xloop (wait_healthy_step (traced_runtime rt) (traced_client rt ops) index dependency started) () s1 = Some (Inr (), t)"
    using assms unfolding wait_healthy_def xbind_eq_Some by blast
  let ?Q = "\<lambda>(r :: (execution_error, unit) result) u. r = Inr () \<longrightarrow> (\<exists>made listed. calls u = calls s @ made @ [Called_List dependency (Some listed)]
      \<and> dependency_healthy dependency listed)"
  have observes: "keeps (logs observing) (wait_healthy_step (traced_runtime rt) (traced_client rt ops) index dependency started st)" for st
    unfolding wait_healthy_step_def Let_def by (auto split: sum.split option.split)
  from loop have "?Q (Inr ()) t"
  proof (rule xloop_invariant [where P = "\<lambda>_ u. \<exists>made. calls u = calls s @ made" and Q = ?Q])
    show "\<exists>made. calls s1 = calls s @ made"
      using s1 by (auto dest!: quiet)
  next
    fix st u st' v
    assume "\<exists>made. calls u = calls s @ made"
      and "wait_healthy_step (traced_runtime rt) (traced_client rt ops) index dependency started st u = Some (Inl st', v)"
    then show "\<exists>made. calls v = calls s @ made"
      by (auto dest!: keepsD [OF observes] simp: world_logs_def)
  next
    fix st u r v
    assume "\<exists>made. calls u = calls s @ made"
      and "wait_healthy_step (traced_runtime rt) (traced_client rt ops) index dependency started st u = Some (Inr r, v)"
    then show "?Q r v"
      using wait_healthy_step_log [of rt ops index dependency started st u v] by (metis append.assoc)
  qed
  then show ?thesis
    by simp
qed

section \<open>Completed operations\<close>

interpretation all_logs: exec_steps "logs (\<lambda>_. True)" "traced_runtime rt" "traced_client rt ops" index for rt ops index
  by unfold_locales (auto intro!: keeps_logs_xworld client_call_logs)

text \<open>A container was started and waited for: after it was created and started, the monitor passed, and
  then it was seen to serve.\<close>

definition gated_start :: "machine_id \<Rightarrow> resolved_service_spec \<Rightarrow> bool \<Rightarrow> machine_call list \<Rightarrow> bool" where
  "gated_start m spec skip log \<longleftrightarrow>
     (\<exists>c before gate after. log = before @ Called_Start m c True # gate @ Called_Wait [c] Condition_Serving Deploy_Token True # after
        \<and> (m, c) \<in> created_in before \<and> (if skip then gate = [] else passes m c (healthcheck (rs_container spec)) gate))"

lemma serve_gate:
  assumes "serve (traced_runtime rt) (traced_client rt ops) index m c spec skip s = Some (Inr (), t)"
  shows "\<exists>gate. calls t = calls s @ gate @ [Called_Wait [c] Condition_Serving Deploy_Token True]
    \<and> (if skip then gate = [] else passes m c (healthcheck (rs_container spec)) gate)"
proof -
  obtain s1 where s1: "(if \<not> skip then monitor_container (traced_runtime rt) (traced_client rt ops) index m c spec
           else xret (Inr ())) s = Some (Inr (), s1)"
    and wait: "wait_serving (traced_client rt ops) c Deploy_Token s1 = Some (Inr (), t)"
    using assms by (auto simp: serve_def xtry_eq_Some)
  obtain gate where "calls s1 = calls s @ gate" "if skip then gate = [] else passes m c (healthcheck (rs_container spec)) gate"
    using s1 monitor_container_log [of rt ops index m c spec s s1] by (cases skip) auto
  with wait_serving_log [OF wait] show ?thesis
    by auto
qed

lemma create_and_start_log:
  assumes "create_and_start (traced_runtime rt) (traced_client rt ops) index m kind namespace spec replacing s = Some (Inr created, t)"
  shows "\<exists>made. calls t = calls s @ made @ [Called_Start m (cc_container_id created) True]
    \<and> (m, cc_container_id created) \<in> created_in made"
proof -
  obtain s1 q s2 where s1: "running index CreatingContainer s = Some ((), s1)"
    and q: "xworld (call_create_container (traced_client rt ops) m kind namespace spec replacing) s1 = Some (q, s2)"
    and rest: "(case q of
       Inl error \<Rightarrow>
         xbind (xworld (rt_is_cancelled (traced_runtime rt))) (\<lambda>cancelled.
         xret (Inl (if cancelled then Cancelled else machine_error Action_CreateContainer error)))
     | Inr created \<Rightarrow>
         xbind (xworld (rt_is_cancelled (traced_runtime rt))) (\<lambda>cancelled.
         if cancelled then
           xbind (discard_created (traced_client rt ops) m kind spec (cc_container_id created)) (\<lambda>_.
           xret (Inl Cancelled))
         else
           xbind (xprogress (set_display_name index (cc_display_name created))) (\<lambda>_.
           xbind (running index StartingContainer) (\<lambda>_.
           xbind (xworld (call_start_container (traced_client rt ops) m (cc_container_id created))) (\<lambda>r.
           case r of
             Inl error \<Rightarrow>
               xbind (discard_created (traced_client rt ops) m kind spec (cc_container_id created)) (\<lambda>_.
               xret (Inl (machine_error Action_StartContainer error)))
           | Inr _ \<Rightarrow> xret (Inr created)))))) s2 = Some (Inr created, t)"
    using assms unfolding create_and_start_def xbind_eq_Some by auto
  obtain created' where created': "q = Inr created'"
    using rest by (cases q) (auto simp: xbind_eq_Some)
  obtain cancelled s3 where s3: "xworld (rt_is_cancelled (traced_runtime rt)) s2 = Some (cancelled, s3)"
    and rest: "(if cancelled then
           xbind (discard_created (traced_client rt ops) m kind spec (cc_container_id created')) (\<lambda>_.
           xret (Inl Cancelled))
         else
           xbind (xprogress (set_display_name index (cc_display_name created'))) (\<lambda>_.
           xbind (running index StartingContainer) (\<lambda>_.
           xbind (xworld (call_start_container (traced_client rt ops) m (cc_container_id created'))) (\<lambda>r.
           case r of
             Inl error \<Rightarrow>
               xbind (discard_created (traced_client rt ops) m kind spec (cc_container_id created')) (\<lambda>_.
               xret (Inl (machine_error Action_StartContainer error)))
           | Inr _ \<Rightarrow> xret (Inr created'))))) s3 = Some (Inr created, t)"
    using rest unfolding created' sum.case xbind_eq_Some by blast
  have "\<not> cancelled"
    using rest by (auto simp: xbind_eq_Some split: if_splits)
  then obtain u s4 v s5 r s6 where s4: "xprogress (set_display_name index (cc_display_name created')) s3 = Some (u, s4)"
    and s5: "running index StartingContainer s4 = Some (v, s5)"
    and start: "xworld (call_start_container (traced_client rt ops) m (cc_container_id created')) s5 = Some (r, s6)"
    and rest: "(case r of
             Inl error \<Rightarrow>
               xbind (discard_created (traced_client rt ops) m kind spec (cc_container_id created')) (\<lambda>_.
               xret (Inl (machine_error Action_StartContainer error)))
           | Inr _ \<Rightarrow> xret (Inr created')) s6 = Some (Inr created, t)"
    using rest unfolding if_not_P [OF \<open>\<not> cancelled\<close>] xbind_eq_Some by blast
  have ended: "is_ok r" "created' = created" "t = s6"
    using rest by (cases r; auto simp: xbind_eq_Some)+
  have "calls s2 = calls s1 @ [Called_Create m kind namespace spec replacing (Some (cc_container_id created))]"
    using q created' ended(2) by (auto simp: xworld_eq_Some restart_tolerant_def traced_operations_def traced_call_def ok_value_def
        split: option.splits)
  moreover have "calls s5 = calls s2" "calls s1 = calls s"
    using s1 s3 s4 s5 by (auto dest!: quiet)
  moreover obtain failed where "calls t = calls s5 @ failed @ [Called_Start m (cc_container_id created) True]"
    using client_start_log [OF start] ended by auto
  moreover have "(m, cc_container_id created)
      \<in> created_in ([Called_Create m kind namespace spec replacing (Some (cc_container_id created))] @ failed)" for failed
    unfolding created_in_append using created_in_create by blast
  ultimately show ?thesis
    by (intro exI [of _ "[Called_Create m kind namespace spec replacing (Some (cc_container_id created))] @ failed"] conjI) auto
qed

lemma gated_startI:
  assumes "create_and_start (traced_runtime rt) (traced_client rt ops) index m kind namespace spec replacing s = Some (Inr created, s1)"
    and "serve (traced_runtime rt) (traced_client rt ops) index m (cc_container_id created) spec skip s1 = Some (Inr (), t)"
  shows "\<exists>made. calls t = calls s @ made \<and> gated_start m spec skip made"
proof -
  obtain before where before: "calls s1 = calls s @ before @ [Called_Start m (cc_container_id created) True]"
    "(m, cc_container_id created) \<in> created_in before"
    using create_and_start_log [OF assms(1)] by blast
  obtain gate where gate: "calls t = calls s1 @ gate @ [Called_Wait [cc_container_id created] Condition_Serving Deploy_Token True]"
    "if skip then gate = [] else passes m (cc_container_id created) (healthcheck (rs_container spec)) gate"
    using serve_gate [OF assms(2)] by blast
  let ?made = "before @ Called_Start m (cc_container_id created) True # gate
      @ [Called_Wait [cc_container_id created] Condition_Serving Deploy_Token True]"
  have "gated_start m spec skip ?made"
    unfolding gated_start_def using before(2) gate(2) by blast
  moreover have "calls t = calls s @ ?made"
    using before(1) gate(1) by simp
  ultimately show ?thesis
    by blast
qed

lemma gated_start_context:
  assumes "gated_start m spec skip made"
  shows "gated_start m spec skip (xs @ made @ ys)"
proof -
  obtain c before gate after where "made = before @ Called_Start m c True # gate @ Called_Wait [c] Condition_Serving Deploy_Token True # after"
    "(m, c) \<in> created_in before" "if skip then gate = [] else passes m c (healthcheck (rs_container spec)) gate"
    using assms unfolding gated_start_def by blast
  then show ?thesis
    unfolding gated_start_def
    by (intro exI [of _ c] exI [of _ "xs @ before"] exI [of _ gate] exI [of _ "after @ ys"]) (auto simp: created_in_append)
qed

lemma run_container_gated:
  assumes "run_container (traced_runtime rt) (traced_client rt ops) index m namespace spec skip s = Some (Inr c, t)"
  shows "\<exists>made. calls t = calls s @ made \<and> gated_start m spec skip made"
proof -
  obtain created s1 where "create_and_start (traced_runtime rt) (traced_client rt ops) index m ServiceContainer namespace spec None s
      = Some (Inr created, s1)"
    "serve (traced_runtime rt) (traced_client rt ops) index m (cc_container_id created) spec skip s1 = Some (Inr (), t)"
    using assms by (auto simp: run_container_def xtry_eq_Some)
  then show ?thesis
    by (rule gated_startI)
qed

lemma start_new_gated:
  assumes "start_new (traced_runtime rt) (traced_client rt ops) index operation namespace s = Some (Inr u, t)"
  shows "\<exists>made. calls t = calls s @ made
    \<and> gated_start (rep_machine_id operation) (rep_spec operation) (rep_skip_health_monitor operation) made"
proof -
  obtain q s1 where q: "create_and_start (traced_runtime rt) (traced_client rt ops) index (rep_machine_id operation) ServiceContainer
      namespace (rep_spec operation) (Some (rep_old_container_id operation)) s = Some (q, s1)"
    and rest: "(case q of
       Inl error \<Rightarrow> xret (Inl (None, error))
     | Inr created \<Rightarrow>
         xmap (map_err (Pair (Some (cc_container_id created))))
           (serve (traced_runtime rt) (traced_client rt ops) index (rep_machine_id operation) (cc_container_id created)
              (rep_spec operation) (rep_skip_health_monitor operation))) s1 = Some (Inr u, t)"
    using assms unfolding start_new_def xbind_eq_Some by blast
  then obtain created where created: "q = Inr created"
    by (cases q) auto
  have "serve (traced_runtime rt) (traced_client rt ops) index (rep_machine_id operation) (cc_container_id created)
              (rep_spec operation) (rep_skip_health_monitor operation) s1 = Some (Inr (), t)"
    using rest unfolding created sum.case xmap_eq_Some by (auto simp: map_err_eq_Inr dest: sym)
  with q created show ?thesis
    using gated_startI by blast
qed

lemma replace_container_gated:
  assumes "replace_container (traced_runtime rt) (traced_client rt ops) index operation namespace s = Some (Inr (), t)"
  shows "\<exists>made. calls t = calls s @ made
    \<and> gated_start (rep_machine_id operation) (rep_spec operation) (rep_skip_health_monitor operation) made"
proof -
  let ?stop_first = "ru_order (rs_update (rep_spec operation)) = StopFirst"
  obtain q s1 where q: "(if ?stop_first then stop_old_first (traced_client rt ops) index operation else xret (Inr False)) s
      = Some (q, s1)"
    and finish: "(case q of
        Inl error \<Rightarrow> xret (Inl (Ordinary error))
      | Inr old_stopped \<Rightarrow>
          xbind (start_new (traced_runtime rt) (traced_client rt ops) index operation namespace) (\<lambda>started.
          case started of
            Inl (new_container, error) \<Rightarrow>
              xmap Inl (compensate (traced_client rt ops) index operation old_stopped new_container error)
          | Inr _ \<Rightarrow> xmap (map_err Ordinary) (remove_old (traced_client rt ops) index operation ?stop_first))) s1 = Some (Inr (), t)"
    using assms unfolding replace_container_def Let_def xbind_eq_Some by blast
  obtain old_stopped where "q = Inr old_stopped"
    using finish by (cases q) auto
  then obtain u s2 where started: "start_new (traced_runtime rt) (traced_client rt ops) index operation namespace s1 = Some (u, s2)"
    and removed: "(case u of
            Inl (new_container, error) \<Rightarrow>
              xmap Inl (compensate (traced_client rt ops) index operation old_stopped new_container error)
          | Inr _ \<Rightarrow> xmap (map_err Ordinary) (remove_old (traced_client rt ops) index operation ?stop_first)) s2 = Some (Inr (), t)"
    using finish unfolding xbind_eq_Some by (auto simp: xbind_eq_Some)
  obtain v where v: "u = Inr v"
    using removed by (cases u) (auto simp: xmap_eq_Some)
  have any: "keeps (logs (\<lambda>_. True)) (if ?stop_first then stop_old_first (traced_client rt ops) index operation else xret (Inr False))"
    "keeps (logs (\<lambda>_. True)) (xmap (map_err Ordinary) (remove_old (traced_client rt ops) index operation ?stop_first))"
    by auto
  obtain xs ys where "calls s1 = calls s @ xs" "calls t = calls s2 @ ys"
    using keepsD [OF any(1) q] keepsD [OF any(2) removed [unfolded v sum.case]] unfolding world_logs_def by blast
  with start_new_gated [OF started [unfolded v]] gated_start_context show ?thesis
    by fastforce
qed

lemma Inr_eq_map:
  "Inr y = map_err f r \<longleftrightarrow> r = Inr y" "Inr y = map_sum g h q \<longleftrightarrow> (\<exists>x. q = Inr x \<and> y = h x)"
  by ((cases r; auto), (cases q; auto))



end
