(* ===== verification/Snapshot_Gather.thy ===== *)
theory Snapshot_Gather
  imports Owned_Calls
begin

text \<open>
  How the client gathers the snapshot a Deploy is planned from: \<open>live_services_from\<close>, \<open>list_volumes\<close>,
  \<open>observe_machine_storage\<close>, \<open>deploy_snapshot\<close> and \<open>snapshot_from_partial\<close> of \<open>ployz/src/cluster.rs\<close>, the bridge
  capacity of \<open>cluster/capacity.rs\<close>, and \<open>gather_snapshot\<close> and \<open>gather_deploy_snapshot\<close> of
  \<open>deploy/pipeline.rs\<close>. The calls to the Machines are the record \<open>cluster_reads\<close>.

  Concurrent calls run one after the other. A \<open>join_all\<close> returns its results in the order of the requests.
  The tasks of a \<open>JoinSet\<close> end in any order: \<open>rd_arrival\<close> chooses it.
\<close>

section \<open>The calls\<close>

record 'w cluster_reads =
  rd_list_machines :: "('w, machine_observation list) rpc_call"
  rd_arrival :: "nat \<Rightarrow> ('w, nat list) exec"
  rd_list_containers :: "machine_id \<Rightarrow> ('w, container_observation list) rpc_call"
  rd_list_volumes :: "machine_id \<Rightarrow> ('w, volume_inventory) rpc_call"
  rd_inspect_bridge :: "machine_id \<Rightarrow> ('w, bridge_endpoint_capacity option) rpc_call"
  rd_inspect_storage :: "machine_id \<Rightarrow> ('w, storage_capacity) rpc_call"
  rd_within_budget :: "machine_id \<Rightarrow> ('w, bool) exec"
  rd_supports_storage :: "machine_id \<Rightarrow> ('w, bool) rpc_call"
  rd_machine_storage :: "machine_id \<Rightarrow> ('w, machine_storage_observation option) rpc_call"

text \<open>Every task of a \<open>JoinSet\<close> is joined once.\<close>

definition joins_all :: "'w cluster_reads \<Rightarrow> bool" where
  "joins_all reads \<longleftrightarrow> (\<forall>n w order w'. rd_arrival reads n w = Some (order, w') \<longrightarrow> mset order = mset [0..<n])"

fun join_all :: "('w, 'a) exec list \<Rightarrow> ('w, 'a list) exec" where
  "join_all [] = xret []"
| "join_all (task # tasks) = xbind task (\<lambda>a. xbind (join_all tasks) (\<lambda>rest. xret (a # rest)))"

definition join_set :: "'w cluster_reads \<Rightarrow> ('w, 'a) exec list \<Rightarrow> ('w, 'a list) exec" where
  "join_set reads tasks =
     xbind (rd_arrival reads (length tasks)) (\<lambda>order.
     join_all (map (\<lambda>i. tasks ! i) (filter (\<lambda>i. i < length tasks) order)))"

abbreviation machine_key :: "machine_observation \<Rightarrow> machine_id" where
  "machine_key machine \<equiv> m_id (mo_machine machine)"

definition invited :: "machine_observation list \<Rightarrow> machine_id list" where
  "invited machines = map machine_key (filter (\<lambda>machine. invites_rpc (mo_membership machine)) machines)"

definition uninvited :: "machine_observation list \<Rightarrow> machine_id list" where
  "uninvited machines = map machine_key (filter (\<lambda>machine. \<not> invites_rpc (mo_membership machine)) machines)"

section \<open>Inventories\<close>

definition tag_answer :: "machine_id \<Rightarrow> (rpc_error, 'a) result \<Rightarrow> (rpc_error machine_failure, 'a machine_success) result" where
  "tag_answer machine_id r =
     (case r of
        Inl error \<Rightarrow> Inl \<lparr> mf_machine_id = machine_id, mf_error = error \<rparr>
      | Inr a \<Rightarrow> Inr \<lparr> ms_machine_id = machine_id, ms_value = a \<rparr>)"

definition list_on_machine ::
  "'w cluster_reads \<Rightarrow> machine_id \<Rightarrow> ('w, (rpc_error machine_failure, container_observation list machine_success) result) exec" where
  "list_on_machine reads machine_id = xmap (tag_answer machine_id) (rd_list_containers reads machine_id)"

text \<open>An inventory names Volumes of its own Machine, each of them once.\<close>

definition inventory_ids :: "volume_inventory \<Rightarrow> docker_volume_id list" where
  "inventory_ids inventory = map dv_id (vi_volumes inventory) @ map vf_id (vi_failures inventory)"

definition quoted :: "string \<Rightarrow> string" where
  "quoted s = CHR 0x27 # s @ [CHR 0x27]"

definition check_inventory_id ::
  "machine_id \<Rightarrow> docker_volume_id \<Rightarrow> docker_volume_name list \<Rightarrow> (rpc_error, docker_volume_name list) result" where
  "check_inventory_id machine_id vid names =
     (if volume_machine_id vid \<noteq> machine_id
      then Inl \<lparr> rpc_code = Internal,
             rpc_message = ''targeted ListVolumes response from Machine '' @ machine_id @ '' contained Docker Volume ''
               @ quoted (volume_name vid) @ '' for Machine '' @ volume_machine_id vid,
             rpc_details = JNull \<rparr>
      else if volume_name vid \<in> set names
      then Inl \<lparr> rpc_code = Internal,
             rpc_message = ''targeted ListVolumes response from Machine '' @ machine_id @ '' repeated Docker Volume ''
               @ quoted (volume_name vid),
             rpc_details = JNull \<rparr>
      else Inr (bs_insert (volume_name vid) names))"

definition validate_volume_inventory :: "machine_id \<Rightarrow> volume_inventory \<Rightarrow> (rpc_error, volume_inventory) result" where
  "validate_volume_inventory machine_id inventory =
     rbind (rfold (check_inventory_id machine_id) (inventory_ids inventory) []) (\<lambda>_. Inr inventory)"

definition list_volumes_on_machine ::
  "'w cluster_reads \<Rightarrow> machine_id \<Rightarrow> ('w, (rpc_error machine_failure, volume_inventory machine_success) result) exec" where
  "list_volumes_on_machine reads machine_id =
     xmap (\<lambda>r. tag_answer machine_id (rbind r (validate_volume_inventory machine_id))) (rd_list_volumes reads machine_id)"

definition partial_from ::
  "('e machine_failure, 'a machine_success) result list \<Rightarrow> machine_id list \<Rightarrow> ('a, 'e) partial_result" where
  "partial_from outcomes omissions =
     \<lparr> pr_successes = List.map_filter (case_sum (\<lambda>_. None) Some) outcomes,
       pr_failures = List.map_filter (case_sum Some (\<lambda>_. None)) outcomes,
       pr_omissions = omissions \<rparr>"

definition live_services_from ::
  "'w cluster_reads \<Rightarrow> machine_observation list \<Rightarrow> ('w, (container_observation list, rpc_error) partial_result) exec" where
  "live_services_from reads machines =
     xmap (\<lambda>outcomes. partial_from outcomes (uninvited machines))
       (join_set reads (map (list_on_machine reads) (invited machines)))"

definition list_volumes ::
  "'w cluster_reads \<Rightarrow> machine_observation list \<Rightarrow> ('w, (volume_inventory, rpc_error) partial_result) exec" where
  "list_volumes reads machines =
     xmap (\<lambda>outcomes. partial_from outcomes (uninvited machines))
       (join_all (map (list_volumes_on_machine reads) (invited machines)))"

definition capacity_observe ::
  "'w cluster_reads \<Rightarrow> machine_observation list \<Rightarrow> ('w, (machine_id, bridge_endpoint_capacity) btree) exec" where
  "capacity_observe reads machines =
     xmap (\<lambda>responses. bt_extend (List.map_filter (\<lambda>(machine_id, response).
         case response of Inr (Some bridge) \<Rightarrow> Some (machine_id, bridge) | _ \<Rightarrow> None) responses) [])
       (join_all (map (\<lambda>machine_id. xmap (Pair machine_id) (rd_inspect_bridge reads machine_id)) (invited machines)))"

section \<open>The snapshot\<close>

definition snapshot_from_partial ::
  "machine_observation list \<Rightarrow> (container_observation list, rpc_error) partial_result
     \<Rightarrow> (volume_inventory, rpc_error) partial_result \<Rightarrow> (machine_id, bridge_endpoint_capacity) btree
     \<Rightarrow> (volume_snapshot_error, deploy_snapshot) result" where
  "snapshot_from_partial machines containers volumes capacity =
     rbind (volume_snapshot_from_partial volumes) (\<lambda>volume_snapshot.
     Inr \<lparr> ds_machines = machines, ds_storage_capacity = [],
           ds_containers = concat (map ms_value (pr_successes containers)),
           ds_volume_snapshot = volume_snapshot,
           ds_container_failures = pr_failures containers,
           ds_container_omissions = pr_omissions containers,
           ds_capacity = Some capacity \<rparr>)"

definition client_deploy_snapshot ::
  "'w cluster_reads \<Rightarrow> machine_observation list \<Rightarrow> ('w, (volume_snapshot_error, deploy_snapshot) result) exec" where
  "client_deploy_snapshot reads machines =
     xbind (live_services_from reads machines) (\<lambda>containers.
     xbind (list_volumes reads machines) (\<lambda>volumes.
     xbind (capacity_observe reads machines) (\<lambda>capacity.
     xret (snapshot_from_partial machines containers volumes capacity))))"

definition observation_warnings ::
  "observation_kind \<Rightarrow> rpc_error machine_failure list \<Rightarrow> machine_id list \<Rightarrow> deploy_warning list" where
  "observation_warnings kind failures omissions =
     map (\<lambda>failure. ObservationFailed kind (mf_machine_id failure) (Rpc_Message (rpc_message (mf_error failure)))) failures
     @ map (ObservationOmitted kind) omissions"

definition gather_snapshot ::
  "'w cluster_reads \<Rightarrow> machine_observation list
     \<Rightarrow> ('w, (volume_snapshot_error, deploy_snapshot \<times> deploy_warning list) result) exec" where
  "gather_snapshot reads machines =
     xtry (client_deploy_snapshot reads machines) (\<lambda>snapshot.
     xret (Inr (snapshot,
       observation_warnings Container_Kind (ds_container_failures snapshot) (ds_container_omissions snapshot)
       @ snapshot_deploy_warnings (ds_volume_snapshot snapshot))))"

section \<open>The storage of the Machines\<close>

definition observe_one_storage ::
  "'w cluster_reads \<Rightarrow> nat \<times> machine_id
     \<Rightarrow> ('w, nat \<times> (rpc_error, machine_storage_observation option) result option) exec" where
  "observe_one_storage reads task =
     xbind (rd_within_budget reads (snd task)) (\<lambda>in_time.
     if \<not> in_time then xret (fst task, None)
     else xmap (\<lambda>r. (fst task, Some r))
       (xtry (rd_supports_storage reads (snd task)) (\<lambda>supports.
        if \<not> supports then xret (Inr None) else rd_machine_storage reads (snd task))))"

record storage_gaps =
  sg_failures :: "rpc_error machine_failure list"
  sg_omissions :: "machine_id list"

definition store_observation ::
  "nat \<times> (rpc_error, machine_storage_observation option) result option
     \<Rightarrow> machine_observation list \<times> storage_gaps \<Rightarrow> machine_observation list \<times> storage_gaps" where
  "store_observation observed st =
     (let (index, storage) = observed; (machines, gaps) = st in
      if \<not> index < length machines then st
      else
        let machine = machines ! index; machine_id = machine_key machine in
        case storage of
          Some (Inr storage) \<Rightarrow> (machines[index := machine\<lparr> mo_storage := storage \<rparr>], gaps)
        | Some (Inl error) \<Rightarrow>
            (machines, gaps\<lparr> sg_failures := sg_failures gaps @ [\<lparr> mf_machine_id = machine_id, mf_error = error \<rparr>] \<rparr>)
        | None \<Rightarrow> (machines, gaps\<lparr> sg_omissions := sg_omissions gaps @ [machine_id] \<rparr>))"

definition observe_machine_storage ::
  "'w cluster_reads \<Rightarrow> machine_observation list \<Rightarrow> ('w, machine_observation list \<times> storage_gaps) exec" where
  "observe_machine_storage reads machines =
     xmap (\<lambda>observed. fold store_observation observed (machines, \<lparr> sg_failures = [], sg_omissions = [] \<rparr>))
       (join_set reads (map (\<lambda>(index, machine). observe_one_storage reads (index, machine_key machine))
          (filter (\<lambda>(index, machine). invites_rpc (mo_membership machine)) (enumerate 0 machines))))"

text \<open>
  A Deploy that mounts provisioned Volumes also reads the storage of the Machines, before anything else.
\<close>

definition gather_deploy_snapshot ::
  "'w cluster_reads \<Rightarrow> machine_observation list \<Rightarrow> deploy_intent
     \<Rightarrow> ('w, (volume_snapshot_error, deploy_snapshot \<times> deploy_warning list) result) exec" where
  "gather_deploy_snapshot reads machines intent =
     xbind (if list_ex (\<lambda>spec. has_mounted_provisioned_volume (rq_volume_graph spec)) (di_target intent)
            then xbind (join_set reads (map (\<lambda>machine_id. xmap (Pair machine_id) (rd_inspect_storage reads machine_id))
                   (invited machines))) (\<lambda>capacity.
                 xbind (observe_machine_storage reads machines) (\<lambda>(machines, _).
                 xret (machines, bt_extend capacity [])))
            else xret (machines, [])) (\<lambda>(machines, storage_capacity).
     xtry (gather_snapshot reads machines) (\<lambda>(snapshot, warnings).
     xret (Inr (snapshot\<lparr> ds_storage_capacity := storage_capacity \<rparr>, warnings))))"

section \<open>What the Machines answered\<close>

text \<open>Machines and the results of one call to each of them.\<close>

definition answered :: "(machine_id \<Rightarrow> ('w, 'a) exec) \<Rightarrow> (machine_id \<times> 'a) list \<Rightarrow> bool" where
  "answered call answers \<longleftrightarrow> (\<forall>(m, r) \<in> set answers. \<exists>w w'. call m w = Some (r, w'))"

lemma join_all_answers:
  "join_all (map call ms) w = Some (rs, w') \<Longrightarrow> \<exists>answers. map fst answers = ms \<and> map snd answers = rs \<and> answered call answers"
proof (induction ms arbitrary: w rs)
  case (Cons m ms)
  then obtain r w1 rs' where r: "call m w = Some (r, w1)" and rest: "join_all (map call ms) w1 = Some (rs', w')" "rs = r # rs'"
    by (auto simp: exec_simps)
  from Cons.IH [OF rest(1)] obtain answers where "map fst answers = ms" "map snd answers = rs'" "answered call answers"
    by blast
  with r rest(2) show ?case
    by (intro exI [of _ "(m, r) # answers"]) (auto simp: answered_def)
qed (simp add: answered_def)

lemma join_set_answers:
  assumes "joins_all reads" and "join_set reads (map call ms) w = Some (rs, w')"
  shows "\<exists>answers. mset (map fst answers) = mset ms \<and> map snd answers = rs \<and> answered call answers"
proof -
  obtain order w1 where order: "rd_arrival reads (length ms) w = Some (order, w1)"
    and rest: "join_all (map (\<lambda>i. map call ms ! i) (filter (\<lambda>i. i < length ms) order)) w1 = Some (rs, w')"
    using assms(2) by (auto simp: join_set_def exec_simps)
  have perm: "mset order = mset [0..<length ms]"
    using assms(1) order unfolding joins_all_def by blast
  then have small: "\<forall>i \<in> set order. i < length ms"
    by (metis atLeastLessThan_iff set_upt mset_eq_setD)
  then have "map (\<lambda>i. map call ms ! i) (filter (\<lambda>i. i < length ms) order) = map call (map (nth ms) order)"
    by (simp add: filter_id_conv)
  with join_all_answers [of call "map (nth ms) order"] rest obtain answers where
    "map fst answers = map (nth ms) order" "map snd answers = rs" "answered call answers"
    by metis
  moreover have "mset (map (nth ms) order) = mset ms"
    by (metis perm mset_map map_nth)
  ultimately show ?thesis
    by metis
qed

abbreviation outcomes_of :: "(machine_id \<times> (rpc_error, 'a) result) list \<Rightarrow> (rpc_error machine_failure, 'a machine_success) result list" where
  "outcomes_of answers \<equiv> map (\<lambda>(m, r). tag_answer m r) answers"

definition values_of :: "(machine_id \<times> ('e, 'a) result) list \<Rightarrow> (machine_id \<times> 'a) list" where
  "values_of answers = List.map_filter (\<lambda>(m, r). case r of Inl _ \<Rightarrow> None | Inr a \<Rightarrow> Some (m, a)) answers"

definition failed_of :: "(machine_id \<times> ('e, 'a) result) list \<Rightarrow> machine_id list" where
  "failed_of answers = map fst (filter (\<lambda>(m, r). \<not> is_ok r) answers)"

lemma partial_from_answers:
  "pr_successes (partial_from (outcomes_of answers) omissions)
     = map (\<lambda>(m, a). \<lparr> ms_machine_id = m, ms_value = a \<rparr>) (values_of answers)"
  "map mf_machine_id (pr_failures (partial_from (outcomes_of answers) omissions)) = failed_of answers"
  "pr_omissions (partial_from (outcomes_of answers) omissions) = omissions"
  by (induction answers)
    (auto simp: partial_from_def values_of_def failed_of_def tag_answer_def List.map_filter_simps split: sum.splits)

lemma concat_successes:
  "concat (map (\<lambda>s. f (ms_value s)) (pr_successes (partial_from (outcomes_of answers) omissions)))
     = concat (map (\<lambda>v. f (snd v)) (values_of answers))"
  unfolding partial_from_answers map_map by (intro arg_cong [where f = concat] map_cong) auto

lemma set_values_of: "(m, a) \<in> set (values_of answers) \<longleftrightarrow> (m, Inr a) \<in> set answers"
  by (induction answers) (auto simp: values_of_def List.map_filter_simps split: sum.splits)

lemma values_failed_within:
  "fst ` set (values_of answers) \<subseteq> fst ` set answers" "set (failed_of answers) \<subseteq> fst ` set answers"
  by (force simp: set_values_of, auto simp: failed_of_def)

lemma values_failed_apart:
  "distinct (map fst answers) \<Longrightarrow> distinct (map fst (values_of answers)) \<and> distinct (failed_of answers)
     \<and> fst ` set (values_of answers) \<inter> set (failed_of answers) = {}"
proof (induction answers)
  case (Cons answer answers)
  obtain m r where answer: "answer = (m, r)"
    by (cases answer)
  have fresh: "m \<notin> fst ` set (values_of answers)" "m \<notin> set (failed_of answers)"
    using Cons.prems values_failed_within [of answers] unfolding answer by auto
  have cons: "values_of (answer # answers) = (case r of Inl _ \<Rightarrow> [] | Inr a \<Rightarrow> [(m, a)]) @ values_of answers"
    "failed_of (answer # answers) = (case r of Inl _ \<Rightarrow> [m] | Inr a \<Rightarrow> []) @ failed_of answers"
    unfolding answer values_of_def failed_of_def by (simp_all add: List.map_filter_simps split: sum.split)
  show ?case
    unfolding cons using Cons fresh by (cases r) auto
qed (simp add: values_of_def failed_of_def List.map_filter_simps)

section \<open>The snapshot is made\<close>

definition inventory_ok :: "machine_id \<Rightarrow> volume_inventory \<Rightarrow> bool" where
  "inventory_ok machine_id inventory \<longleftrightarrow>
     distinct (inventory_ids inventory) \<and> volume_machine_id ` set (inventory_ids inventory) \<subseteq> {machine_id}"

lemma check_inventory_ids:
  "is_ok (rfold (check_inventory_id machine_id) ids names) \<longleftrightarrow>
     distinct ids \<and> volume_machine_id ` set ids \<subseteq> {machine_id} \<and> volume_name ` set ids \<inter> set names = {}"
proof (induction ids arbitrary: names)
  case (Cons vid ids)
  show ?case
  proof (cases "volume_machine_id vid = machine_id \<and> volume_name vid \<notin> set names")
    case True
    have "volume_name vid \<notin> volume_name ` set ids \<longleftrightarrow> vid \<notin> set ids" if ids: "volume_machine_id ` set ids \<subseteq> {machine_id}"
    proof -
      have "v = vid" if "v \<in> set ids" "volume_name v = volume_name vid" for v
        using that ids True by (intro docker_volume_id.expand) auto
      then show ?thesis
        by (metis imageE image_eqI)
    qed
    with True Cons.IH [of "bs_insert (volume_name vid) names"] show ?thesis
      by (auto simp: check_inventory_id_def)
  next
    case False
    then show ?thesis
      by (auto simp: check_inventory_id_def)
  qed
qed simp

lemma validate_inventory_iff:
  "validate_volume_inventory machine_id inventory = Inr inventory' \<longleftrightarrow> inventory' = inventory \<and> inventory_ok machine_id inventory"
  using check_inventory_ids [of machine_id "inventory_ids inventory" "[]"]
  by (auto simp: validate_volume_inventory_def inventory_ok_def rbind_eq_Inr is_ok_iff)

text \<open>The evidence of several Machines has no Volume twice.\<close>

lemma inventories_distinct:
  assumes "distinct (map fst vs)" and "\<forall>(m, inventory) \<in> set vs. inventory_ok m inventory"
  shows "distinct (map dv_id (concat (map (\<lambda>v. vi_volumes (snd v)) vs)) @ map vf_id (concat (map (\<lambda>v. vi_failures (snd v)) vs)))
    \<and> volume_machine_id ` set (map dv_id (concat (map (\<lambda>v. vi_volumes (snd v)) vs)) @ map vf_id (concat (map (\<lambda>v. vi_failures (snd v)) vs)))
        \<subseteq> fst ` set vs"
  using assms
proof (induction vs)
  case (Cons v vs)
  obtain m inventory where v: "v = (m, inventory)"
    by (cases v)
  have own: "distinct (map dv_id (vi_volumes inventory) @ map vf_id (vi_failures inventory))"
    "\<forall>i \<in> set (map dv_id (vi_volumes inventory) @ map vf_id (vi_failures inventory)). volume_machine_id i = m"
    using Cons.prems(2) v by (auto simp: inventory_ok_def inventory_ids_def image_subset_iff ball_Un)
  let ?ds = "map dv_id (concat (map (\<lambda>v. vi_volumes (snd v)) vs))" and ?fs = "map vf_id (concat (map (\<lambda>v. vi_failures (snd v)) vs))"
  have rest: "distinct (?ds @ ?fs)" "volume_machine_id ` set (?ds @ ?fs) \<subseteq> fst ` set vs" "m \<notin> fst ` set vs"
    using Cons v by auto
  have "i \<notin> set (?ds @ ?fs)" if "volume_machine_id i = m" for i
    using subsetD [OF rest(2) imageI, of i] rest(3) that by blast
  then have "set (map dv_id (vi_volumes inventory) @ map vf_id (vi_failures inventory)) \<inter> set (?ds @ ?fs) = {}"
    using own(2) by blast
  with own(1) rest(1) have "distinct ((map dv_id (vi_volumes inventory) @ ?ds) @ (map vf_id (vi_failures inventory) @ ?fs))"
    unfolding distinct_append set_append by blast
  moreover have "volume_machine_id ` set ((map dv_id (vi_volumes inventory) @ ?ds) @ (map vf_id (vi_failures inventory) @ ?fs))
      \<subseteq> insert m (fst ` set vs)"
    using own(2) rest(2) unfolding set_append image_Un by blast
  ultimately show ?case
    unfolding v by simp
qed simp

lemma invited_apart:
  assumes "distinct (map machine_key machines)"
  shows "distinct (invited machines) \<and> distinct (uninvited machines) \<and> set (invited machines) \<inter> set (uninvited machines) = {}"
proof -
  have "inj_on machine_key (set machines)"
    using assms by (simp add: distinct_map)
  moreover have "distinct (invited machines)" "distinct (uninvited machines)"
    unfolding invited_def uninvited_def using assms by (simp_all add: distinct_map_filter)
  moreover have "set (invited machines) \<inter> set (uninvited machines) = {}"
    unfolding invited_def uninvited_def using inj_onD [OF \<open>inj_on machine_key (set machines)\<close>] by fastforce
  ultimately show ?thesis
    by blast
qed

lemma volume_snapshot_gathered:
  assumes "distinct (map machine_key machines)" and "map fst inventories = invited machines"
    and "\<forall>(m, inventory) \<in> set (values_of inventories). inventory_ok m inventory"
  shows "\<exists>snapshot. volume_snapshot_from_partial (partial_from (outcomes_of inventories) (uninvited machines)) = Inr snapshot
    \<and> vsn_observations snapshot = concat (map (\<lambda>v. vi_volumes (snd v)) (values_of inventories))
    \<and> vsn_named_failures snapshot = concat (map (\<lambda>v. vi_failures (snd v)) (values_of inventories))
    \<and> map mf_machine_id (vsn_machine_failures snapshot) = failed_of inventories
    \<and> vsn_omissions snapshot = uninvited machines"
proof -
  let ?partial = "partial_from (outcomes_of inventories) (uninvited machines)"
  let ?snapshot = "\<lparr> vsn_observations = concat (map (\<lambda>v. vi_volumes (snd v)) (values_of inventories)),
      vsn_named_failures = concat (map (\<lambda>v. vi_failures (snd v)) (values_of inventories)),
      vsn_machine_failures = pr_failures ?partial, vsn_omissions = uninvited machines \<rparr>"
  note apart = invited_apart [OF assms(1)]
  have distinct: "distinct (map fst inventories)"
    using apart assms(2) by simp
  note vals = values_failed_apart [OF distinct] and within = values_failed_within [of inventories]
  have machines: "fst ` set inventories = set (invited machines)"
    using assms(2) by (metis list.set_map)
  have known: "known_ids ?snapshot = map dv_id (concat (map (\<lambda>v. vi_volumes (snd v)) (values_of inventories)))
      @ map vf_id (concat (map (\<lambda>v. vi_failures (snd v)) (values_of inventories)))"
    and gaps: "map mf_machine_id (vsn_machine_failures ?snapshot) @ vsn_omissions ?snapshot
      = failed_of inventories @ uninvited machines"
    by (simp_all add: known_ids_def partial_from_answers)
  have ids: "distinct (known_ids ?snapshot)" "volume_machine_id ` set (known_ids ?snapshot) \<subseteq> fst ` set (values_of inventories)"
    unfolding known using inventories_distinct [OF _ assms(3)] vals by blast+
  have "set (failed_of inventories) \<inter> set (uninvited machines) = {}"
    using within(2) apart unfolding machines by blast
  then have "distinct (failed_of inventories @ uninvited machines)"
    using vals apart by simp
  moreover have "volume_machine_id ` set (known_ids ?snapshot) \<inter> set (failed_of inventories @ uninvited machines) = {}"
  proof -
    have "volume_machine_id ` set (known_ids ?snapshot) \<inter> set (uninvited machines) = {}"
      using ids(2) within(1) apart unfolding machines by blast
    moreover have "volume_machine_id ` set (known_ids ?snapshot) \<inter> set (failed_of inventories) = {}"
      using ids(2) vals by blast
    ultimately show ?thesis
      unfolding set_append by blast
  qed
  ultimately have "volume_snapshot_validate ?snapshot = Inr ()"
    unfolding volume_snapshot_validate_iff gaps using ids(1) by blast
  then show ?thesis
    unfolding volume_snapshot_from_partial_def try_from_parts_def Let_def
    by (intro exI [of _ ?snapshot]) (simp add: concat_successes partial_from_answers(2,3))
qed

text \<open>The answer to \<open>list_volumes\<close> counts once it is validated.\<close>

definition validated_volumes :: "'w cluster_reads \<Rightarrow> machine_id \<Rightarrow> ('w, volume_inventory) rpc_call" where
  "validated_volumes reads machine_id =
     xmap (\<lambda>r. rbind r (validate_volume_inventory machine_id)) (rd_list_volumes reads machine_id)"

lemma tagged_answers:
  assumes "map fst answers = ms" and "map snd answers = rs" and "answered (\<lambda>m. xmap (tag_answer m) (call m)) answers"
  shows "\<exists>answers'. map fst answers' = ms \<and> outcomes_of answers' = rs \<and> answered call answers'"
  using assms
proof (induction answers arbitrary: ms rs)
  case (Cons a as)
  obtain m r where a: "a = (m, r)"
    by (cases a)
  from Cons.prems(3) obtain q where q: "\<exists>w w'. call m w = Some (q, w')" "r = tag_answer m q"
    unfolding a answered_def by (auto simp: xmap_eq_Some)
  from Cons obtain as' where "map fst as' = map fst as" "outcomes_of as' = map snd as" "answered call as'"
    unfolding answered_def by fastforce
  with q Cons.prems(1,2) a show ?case
    by (intro exI [of _ "(m, q) # as'"]) (auto simp: answered_def)
qed (simp add: answered_def)

lemma live_services_answers:
  assumes "joins_all reads" and "live_services_from reads machines w = Some (containers, w')"
  shows "\<exists>listed. mset (map fst listed) = mset (invited machines) \<and> answered (rd_list_containers reads) listed
    \<and> containers = partial_from (outcomes_of listed) (uninvited machines)"
proof -
  obtain rs where rs: "join_set reads (map (list_on_machine reads) (invited machines)) w = Some (rs, w')"
    "containers = partial_from rs (uninvited machines)"
    using assms(2) by (auto simp: live_services_from_def xmap_eq_Some)
  from join_set_answers [OF assms(1) rs(1)] obtain answers where answers:
    "mset (map fst answers) = mset (invited machines)" "map snd answers = rs" "answered (list_on_machine reads) answers"
    by blast
  have "answered (\<lambda>m. xmap (tag_answer m) (rd_list_containers reads m)) answers"
    using answers(3) unfolding list_on_machine_def .
  from tagged_answers [OF HOL.refl answers(2) this] obtain listed where
    "map fst listed = map fst answers" "outcomes_of listed = rs" "answered (rd_list_containers reads) listed"
    by blast
  with answers(1) rs(2) show ?thesis
    by (metis mset_map)
qed

lemma list_volumes_answers:
  assumes "list_volumes reads machines w = Some (volumes, w')"
  shows "\<exists>inventories. map fst inventories = invited machines \<and> answered (validated_volumes reads) inventories
    \<and> volumes = partial_from (outcomes_of inventories) (uninvited machines)"
proof -
  have tagged: "list_volumes_on_machine reads = (\<lambda>m. xmap (tag_answer m) (validated_volumes reads m))"
    unfolding list_volumes_on_machine_def validated_volumes_def xmap_def xbind_def xret_def
    by (intro ext) (auto split: option.split)
  obtain rs where rs: "join_all (map (list_volumes_on_machine reads) (invited machines)) w = Some (rs, w')"
    "volumes = partial_from rs (uninvited machines)"
    using assms by (auto simp: list_volumes_def xmap_eq_Some)
  from join_all_answers [OF rs(1)] obtain answers where
    "map fst answers = invited machines" "map snd answers = rs" "answered (list_volumes_on_machine reads) answers"
    by blast
  from tagged_answers [OF this(1,2) this(3) [unfolded tagged]] rs(2) show ?thesis
    by blast
qed

lemma validated_ok:
  assumes "answered (validated_volumes reads) inventories"
  shows "\<forall>(m, inventory) \<in> set (values_of inventories). inventory_ok m inventory"
proof clarify
  fix m inventory
  assume "(m, inventory) \<in> set (values_of inventories)"
  then have "(m, Inr inventory) \<in> set inventories"
    by (simp add: set_values_of)
  with assms obtain w w' where "validated_volumes reads m w = Some (Inr inventory, w')"
    unfolding answered_def by fast
  then show "inventory_ok m inventory"
    by (auto simp: validated_volumes_def xmap_eq_Some rbind_eq_Inr validate_inventory_iff dest: sym)
qed

text \<open>A snapshot is complete when every Machine that it asked answered.\<close>

lemma complete_iff:
  assumes "distinct (map machine_key machines)" and "ds_machines snapshot = machines"
    and "set (map mf_machine_id (ds_container_failures snapshot)) \<subseteq> set (invited machines)"
    and "ds_container_omissions snapshot = uninvited machines"
    and "set (map mf_machine_id (vsn_machine_failures (ds_volume_snapshot snapshot))) \<subseteq> set (invited machines)"
    and "vsn_omissions (ds_volume_snapshot snapshot) = uninvited machines"
    and "volume_machine_id ` vf_id ` set (vsn_named_failures (ds_volume_snapshot snapshot)) \<subseteq> set (invited machines)"
  shows "is_observer_complete snapshot \<longleftrightarrow> ds_container_failures snapshot = []
    \<and> vsn_machine_failures (ds_volume_snapshot snapshot) = [] \<and> vsn_named_failures (ds_volume_snapshot snapshot) = []"
proof -
  have required: "set (bs_collect (map machine_key (filter (\<lambda>machine. invites_rpc (mo_membership machine)) machines)))
      = set (invited machines)"
    by (simp add: invited_def)
  have omissions: "m \<notin> set (invited machines)" if "m \<in> set (uninvited machines)" for m
    using invited_apart [OF assms(1)] that by blast
  have "(\<exists>f \<in> set fs. key f \<in> set (invited machines)) \<longleftrightarrow> fs \<noteq> []" if "key ` set fs \<subseteq> set (invited machines)"
    for key :: "'c \<Rightarrow> machine_id" and fs
    using that by (cases fs) auto
  note nonempty = this [of mf_machine_id] this [of "\<lambda>f. volume_machine_id (vf_id f)"]
  show ?thesis
    unfolding is_observer_complete_def Let_def volumes_affect_required_def affects_required_def list_ex_iff assms(2,4,6) required
    using omissions nonempty(1) [of "ds_container_failures snapshot"]
      nonempty(1) [of "vsn_machine_failures (ds_volume_snapshot snapshot)"]
      nonempty(2) [of "vsn_named_failures (ds_volume_snapshot snapshot)"] assms(3,5,7)
    by (auto simp: image_image)
qed

lemma failed_of_Nil: "failed_of answers = [] \<longleftrightarrow> (\<forall>(m, r) \<in> set answers. is_ok r)"
  by (auto simp: failed_of_def filter_empty_conv)

lemma inventories_whole:
  "failed_of inventories = [] \<and> concat (map (\<lambda>v. vi_failures (snd v)) (values_of inventories)) = []
     \<longleftrightarrow> (\<forall>(m, r) \<in> set inventories. \<exists>inventory. r = Inr inventory \<and> vi_failures inventory = [])"
proof (induction inventories)
  case (Cons answer inventories)
  obtain m r where answer: "answer = (m, r)"
    by (cases answer)
  with Cons show ?case
    by (cases r) (auto simp: failed_of_def values_of_def List.map_filter_simps)
qed (simp add: failed_of_def values_of_def List.map_filter_simps)


text \<open>One Machine answers, one is down and is not asked.\<close>

definition gathered_machines :: "machine_observation list" where
  "gathered_machines = [(machine_observation_new (example_machine ''m1'' ''one'') Up)\<lparr> mo_storage := Some Ready \<rparr>,
     machine_observation_new (example_machine ''m2'' ''two'') Down]"

definition example_inventory :: volume_inventory where
  "example_inventory = \<lparr> vi_volumes = vsn_observations (ds_volume_snapshot example_snapshot), vi_failures = [] \<rparr>"

definition gathered_reads :: "'w cluster_reads" where
  "gathered_reads =
     \<lparr> rd_list_machines = xret (Inr gathered_machines), rd_arrival = (\<lambda>n. xret (rev [0..<n])),
       rd_list_containers = (\<lambda>m. xret (Inr (if m = ''m1'' then ds_containers example_snapshot else []))),
       rd_list_volumes = (\<lambda>m. xret (Inr (if m = ''m1'' then example_inventory else \<lparr> vi_volumes = [], vi_failures = [] \<rparr>))),
       rd_inspect_bridge = (\<lambda>_. xret (Inr None)), rd_inspect_storage = (\<lambda>_. xret (Inr example_capacity)),
       rd_within_budget = (\<lambda>_. xret True), rd_supports_storage = (\<lambda>_. xret (Inr False)),
       rd_machine_storage = (\<lambda>_. xret (Inr None)) \<rparr>"

lemma example_joins: "joins_all gathered_reads"
  by (simp add: joins_all_def gathered_reads_def)

lemma gathered_machines_invited: "distinct (map machine_key gathered_machines)" "invited gathered_machines = [''m1'']"
  by code_simp+


end
