(* ===== verification/Pipeline.thy ===== *)
theory Pipeline
  imports Snapshot_Gather
begin

text \<open>
  The Deploy pipeline, \<open>ployz/src/deploy/pipeline.rs\<close>: snapshot, preview, confirm. A Deploy is gathered,
  planned and executed; the removal of a Namespace also re-reads the data loss and refuses what the
  confirmation does not cover (\<open>ployz-core/src/domain/data_loss.rs\<close>). The code's errors are the branches of
  \<open>pipeline_error\<close>; the DNS probes of the preview are the parameter \<open>hostname_warnings\<close>.
\<close>

section \<open>Data loss\<close>

definition require_confirmed :: "data_loss list \<Rightarrow> data_loss list \<Rightarrow> (data_loss list, unit) result" where
  "require_confirmed observed confirmed =
     (let missing = filter (\<lambda>loss. loss \<notin> set confirmed) observed
      in if missing = [] then Inr () else Inl missing)"

fun data_loss_name :: "data_loss \<Rightarrow> docker_volume_name" where
  "data_loss_name (DataLoss_DockerVolume vid) = volume_name vid"

definition confirm_names :: "data_loss list \<Rightarrow> docker_volume_name list \<Rightarrow> (data_loss list, data_loss list) result" where
  "confirm_names observed names =
     (let confirmed = fold (\<lambda>loss confirmed.
            if data_loss_name loss \<in> set names \<and> loss \<notin> set confirmed then confirmed @ [loss] else confirmed) observed []
      in rbind (require_confirmed observed confirmed) (\<lambda>_. Inr confirmed))"

section \<open>Previews\<close>

datatype pipeline_error =
    Pipeline_Connect rpc_error
  | Pipeline_Snapshot volume_snapshot_error
  | Pipeline_Plan plan_error
  | Pipeline_Reserved namespace
  | Pipeline_NotFound namespace
  | Pipeline_Incomplete prune_refusal_kind "deploy_warning list"
  | Pipeline_Unconfirmed "data_loss list"

type_synonym ('w, 'a) pipeline = "('w, (pipeline_error fault, 'a) result) exec"

definition plan_fault :: "plan_error fault \<Rightarrow> pipeline_error fault" where
  "plan_fault e = (case e of Err error \<Rightarrow> Err (Pipeline_Plan error) | Panic \<Rightarrow> Panic)"

definition refuse_reserved :: "namespace \<Rightarrow> (pipeline_error fault, unit) result" where
  "refuse_reserved namespace = (if namespace_is_reserved namespace then Inl (Err (Pipeline_Reserved namespace)) else Inr ())"

definition client_machines :: "'w cluster_reads \<Rightarrow> ('w, machine_observation list) pipeline" where
  "client_machines reads = xmap (map_err (\<lambda>e. Err (Pipeline_Connect e))) (rd_list_machines reads)"

definition client_preview ::
  "'w cluster_reads \<Rightarrow> (deploy_preview \<Rightarrow> machine_observation list \<Rightarrow> ('w, deploy_warning list) exec) \<Rightarrow> ext \<Rightarrow> deploy_intent
     \<Rightarrow> ('w, deploy_plan) pipeline" where
  "client_preview reads hostname_warnings x intent =
     xtry (client_machines reads) (\<lambda>machines.
     xtry (xmap (map_err (\<lambda>e. Err (Pipeline_Snapshot e))) (gather_deploy_snapshot reads machines intent)) (\<lambda>(snapshot, warnings).
     xtry (xret (map_err plan_fault (plan_deploy x intent snapshot))) (\<lambda>plan.
     xbind (hostname_warnings (pl_preview plan) (ds_machines snapshot)) (\<lambda>hostnames.
     xret (Inr (prepend_warnings (warnings @ hostnames) plan))))))"

definition preview_namespace_removal ::
  "'w cluster_reads \<Rightarrow> ext \<Rightarrow> namespace \<Rightarrow> volume_fate \<Rightarrow> ('w, deploy_plan) pipeline" where
  "preview_namespace_removal reads x namespace volumes =
     xtry (xret (refuse_reserved namespace)) (\<lambda>_.
     xtry (client_machines reads) (\<lambda>machines.
     xtry (xmap (map_err (\<lambda>e. Err (Pipeline_Snapshot e))) (gather_snapshot reads machines)) (\<lambda>(snapshot, warnings).
     xtry (xret (map_err plan_fault (prepare_namespace_removal x namespace snapshot volumes))) (\<lambda>plan.
     xret (Inr (prepend_warnings warnings plan))))))"

definition namespace_not_found :: "deploy_preview \<Rightarrow> bool" where
  "namespace_not_found preview =
     (dp_prune_refusal preview = None \<and> dp_operations preview = [] \<and> dp_preserved_volumes preview = []
        \<and> dp_would_remove preview = [])"

definition require_namespace_present :: "deploy_preview \<Rightarrow> (pipeline_error fault, unit) result" where
  "require_namespace_present preview =
     (if namespace_not_found preview then Inl (Err (Pipeline_NotFound (dp_namespace preview))) else Inr ())"

definition incomplete :: "deploy_preview \<Rightarrow> prune_refusal_kind \<Rightarrow> pipeline_error fault" where
  "incomplete preview reason = Err (Pipeline_Incomplete reason (dp_warnings preview))"

definition observed_destroy_loss :: "deploy_preview \<Rightarrow> volume_fate \<Rightarrow> (pipeline_error fault, data_loss list) result" where
  "observed_destroy_loss preview volumes =
     (case (if volumes = Destroy then dp_prune_refusal preview else None) of
        Some reason \<Rightarrow> Inl (incomplete preview reason)
      | None \<Rightarrow> Inr (data_loss_from_plan preview))"

definition data_loss_if_namespace_destroyed ::
  "'w cluster_reads \<Rightarrow> ext \<Rightarrow> namespace \<Rightarrow> volume_fate \<Rightarrow> ('w, data_loss list) pipeline" where
  "data_loss_if_namespace_destroyed reads x namespace volumes =
     xtry (preview_namespace_removal reads x namespace volumes) (\<lambda>plan.
     xtry (xret (require_namespace_present (pl_preview plan))) (\<lambda>_.
     xret (observed_destroy_loss (pl_preview plan) volumes)))"

section \<open>Execution\<close>

definition prepare_namespace_destroy ::
  "'w cluster_reads \<Rightarrow> ext \<Rightarrow> namespace \<Rightarrow> data_loss list \<Rightarrow> volume_fate \<Rightarrow> ('w, deploy_plan) pipeline" where
  "prepare_namespace_destroy reads x namespace confirmed volumes =
     xtry (preview_namespace_removal reads x namespace volumes) (\<lambda>plan.
     xtry (xret (require_namespace_present (pl_preview plan))) (\<lambda>_.
     xtry (xret (observed_destroy_loss (pl_preview plan) volumes)) (\<lambda>observed.
     xtry (xret (map_err (\<lambda>missing. Err (Pipeline_Unconfirmed missing)) (require_confirmed observed confirmed))) (\<lambda>_.
     xret (case dp_prune_refusal (pl_preview plan) of
             Some reason \<Rightarrow> Inl (incomplete (pl_preview plan) reason)
           | None \<Rightarrow> Inr plan)))))"

text \<open>A panic of the executor is a panic of the pipeline.\<close>

definition confirm ::
  "'w runtime \<Rightarrow> 'w machine_operations \<Rightarrow> deploy_plan \<Rightarrow> deploy_event list option
     \<Rightarrow> ('w, execution_error deploy_outcome \<times> progress) pipeline" where
  "confirm rt ops plan tx w =
     (case execute_operation_sequence rt ops plan tx w of
        None \<Rightarrow> None
      | Some (r, t) \<Rightarrow> Some (map_err (\<lambda>_. Panic) (map_sum id (\<lambda>outcome. (outcome, xc_progress t)) r), xc_world t))"

definition destroy_namespace ::
  "'w cluster_reads \<Rightarrow> 'w runtime \<Rightarrow> 'w machine_operations \<Rightarrow> ext \<Rightarrow> namespace \<Rightarrow> data_loss list \<Rightarrow> volume_fate
     \<Rightarrow> deploy_event list option \<Rightarrow> ('w, execution_error deploy_outcome \<times> progress) pipeline" where
  "destroy_namespace reads rt ops x namespace confirmed volumes tx =
     xtry (prepare_namespace_destroy reads x namespace confirmed volumes) (\<lambda>plan. confirm rt ops plan tx)"

definition run ::
  "'w cluster_reads \<Rightarrow> (deploy_preview \<Rightarrow> machine_observation list \<Rightarrow> ('w, deploy_warning list) exec) \<Rightarrow> 'w runtime
     \<Rightarrow> 'w machine_operations \<Rightarrow> ext \<Rightarrow> deploy_intent \<Rightarrow> deploy_event list option
     \<Rightarrow> ('w, execution_error deploy_outcome \<times> progress) pipeline" where
  "run reads hostname_warnings rt ops x intent tx =
     xtry (client_preview reads hostname_warnings x intent) (\<lambda>plan. confirm rt ops plan tx)"

section \<open>Reads leave no trace\<close>

definition untraced_reads :: "'w cluster_reads \<Rightarrow> 'w traced cluster_reads" where
  "untraced_reads reads =
     \<lparr> rd_list_machines = untraced (rd_list_machines reads), rd_arrival = (\<lambda>n. untraced (rd_arrival reads n)),
       rd_list_containers = (\<lambda>m. untraced (rd_list_containers reads m)),
       rd_list_volumes = (\<lambda>m. untraced (rd_list_volumes reads m)),
       rd_inspect_bridge = (\<lambda>m. untraced (rd_inspect_bridge reads m)),
       rd_inspect_storage = (\<lambda>m. untraced (rd_inspect_storage reads m)),
       rd_within_budget = (\<lambda>m. untraced (rd_within_budget reads m)),
       rd_supports_storage = (\<lambda>m. untraced (rd_supports_storage reads m)),
       rd_machine_storage = (\<lambda>m. untraced (rd_machine_storage reads m)) \<rparr>"

lemma keeps_untraced_reads [intro!]:
  "keeps (world_logs P) (rd_list_machines (untraced_reads reads))"
  "keeps (world_logs P) (rd_arrival (untraced_reads reads) n)"
  "keeps (world_logs P) (rd_list_containers (untraced_reads reads) m)"
  "keeps (world_logs P) (rd_list_volumes (untraced_reads reads) m)"
  "keeps (world_logs P) (rd_inspect_bridge (untraced_reads reads) m)"
  by (simp_all add: untraced_reads_def keeps_untraced)

lemma keeps_join_all: "(\<And>task. task \<in> set tasks \<Longrightarrow> keeps (world_logs P) task) \<Longrightarrow> keeps (world_logs P) (join_all tasks)"
  by (induction tasks) auto

lemma keeps_join_set:
  "(\<And>task. task \<in> set tasks \<Longrightarrow> keeps (world_logs P) task) \<Longrightarrow> keeps (world_logs P) (join_set (untraced_reads reads) tasks)"
  unfolding join_set_def by (auto intro!: keeps_join_all)

lemma keeps_gather_snapshot [intro!]: "keeps (world_logs P) (gather_snapshot (untraced_reads reads) machines)"
  unfolding gather_snapshot_def client_deploy_snapshot_def live_services_from_def list_volumes_def capacity_observe_def
    list_on_machine_def list_volumes_on_machine_def
  by (auto intro!: keeps_join_all keeps_join_set)

lemma keeps_preview_namespace_removal [intro!]:
  "keeps (world_logs P) (preview_namespace_removal (untraced_reads reads) x namespace volumes)"
  unfolding preview_namespace_removal_def client_machines_def by auto

lemma keeps_prepare_namespace_destroy:
  "keeps (world_logs P) (prepare_namespace_destroy (untraced_reads reads) x namespace confirmed volumes)"
  unfolding prepare_namespace_destroy_def by auto

section \<open>The removal of a Namespace\<close>

text \<open>The calls of a removal: containers of \<open>C\<close> are stopped and removed, Volumes of \<open>V\<close> are removed.\<close>

fun removal_call :: "(machine_id \<times> container_id) set \<Rightarrow> docker_volume_id set \<Rightarrow> machine_call \<Rightarrow> bool" where
  "removal_call C V (Called_Stop m c _) \<longleftrightarrow> (m, c) \<in> C"
| "removal_call C V (Called_Remove m c _) \<longleftrightarrow> (m, c) \<in> C"
| "removal_call C V (Called_RemoveVolume vid _) \<longleftrightarrow> vid \<in> V"
| "removal_call C V (Called_Wait _ _ _ _) \<longleftrightarrow> True"
| "removal_call C V _ \<longleftrightarrow> False"

fun removal_operation :: "(machine_id \<times> container_id) set \<Rightarrow> docker_volume_id set \<Rightarrow> deploy_operation \<Rightarrow> bool" where
  "removal_operation C V (RemoveContainer m c) \<longleftrightarrow> (m, c) \<in> C"
| "removal_operation C V (RemoveVolume vid) \<longleftrightarrow> vid \<in> V"
| "removal_operation C V _ \<longleftrightarrow> False"

lemma removal_calls:
  "(m, c) \<in> C \<Longrightarrow> keeps (logs (removal_call C V)) (xworld (call_stop_container (traced_client rt ops) m c grace))"
  "(m, c) \<in> C \<Longrightarrow> keeps (logs (removal_call C V)) (xworld (call_remove_container (traced_client rt ops) m c))"
  "vid \<in> V \<Longrightarrow> keeps (logs (removal_call C V)) (xworld (call_remove_volume (traced_client rt ops) vid))"
  "keeps (logs (removal_call C V)) (xworld (call_wait_for_container_observations (traced_client rt ops) ids condition token))"
  by (auto intro!: keeps_logs_xworld client_call_logs)

lemma keeps_removal_operation:
  "removal_operation C V operation
     \<Longrightarrow> keeps (logs (removal_call C V)) (execute_operation (traced_runtime rt) (traced_client rt ops) index namespace operation)"
  by (cases operation)
    (auto simp: execute_operation_def Let_def acting_if_found_def acting_def wait_dropped_def intro!: removal_calls)

lemma keeps_finish_failed: "keeps (logs P) (finish_failed index error outcome)"
  unfolding finish_failed_def by (auto split: option.split)

lemma keeps_removal:
  "list_all (removal_operation C V) rest
     \<Longrightarrow> keeps (logs (removal_call C V)) (execute_from (traced_runtime rt) (traced_client rt ops) namespace operations index rest)"
proof (induction rest arbitrary: index)
  case (Cons operation rest)
  have "keeps (logs (removal_call C V)) (xworld (rt_is_cancelled (traced_runtime rt)))"
    by (auto intro!: keeps_logs_xworld)
  with Cons show ?case
    by (auto simp: keeps_finish_failed split: sum.split operation_failure.split intro!: keeps_removal_operation)
qed (auto simp: Let_def)

lemma confirm_removal:
  assumes "list_all (removal_operation C V) (pl_operations plan)"
    and "confirm (traced_runtime rt) (traced_operations ops) plan tx (w, log) = Some (r, (w', log'))"
  shows "\<exists>made. log' = log @ made \<and> (\<forall>call \<in> set made. removal_call C V call)"
proof -
  obtain q t where q: "execute_operation_sequence (traced_runtime rt) (traced_operations ops) plan tx (w, log) = Some (q, t)"
    and t: "xc_world t = (w', log')"
    using assms(2) by (auto simp: confirm_def split: option.splits)
  from q have "logs (removal_call C V) \<lparr> xc_world = (w, log), xc_progress = emit (progress_new (plan_pending_rows plan) tx) \<rparr> t"
    unfolding execute_operation_sequence_def Let_def by (rule keepsD [OF keeps_removal [OF assms(1)]])
  with t show ?thesis
    by (simp add: world_logs_def)
qed

text \<open>What the pipeline has read when it executes a removal.\<close>

lemma Inr_eq_map_err: "Inr a = map_err f m \<longleftrightarrow> m = Inr a"
  by (cases m) auto

lemma preview_removal_Inr:
  assumes "preview_namespace_removal reads x namespace fate w = Some (Inr plan, w')"
  shows "\<exists>machines snapshot warnings w1 plan0. rd_list_machines reads w = Some (Inr machines, w1)
    \<and> gather_snapshot reads machines w1 = Some (Inr (snapshot, warnings), w') \<and> \<not> namespace_is_reserved namespace
    \<and> prepare_namespace_removal x namespace snapshot fate = Inr plan0 \<and> plan = prepend_warnings warnings plan0"
  using assms unfolding preview_namespace_removal_def client_machines_def refuse_reserved_def
  by (auto simp: xtry_eq_Some xmap_eq_Some Inr_eq_map_err split: if_splits)

lemma prepare_destroy_Inr:
  assumes "prepare_namespace_destroy reads x namespace confirmed fate w = Some (Inr plan, w')"
  obtains machines snapshot warnings w1 where "rd_list_machines reads w = Some (Inr machines, w1)"
    and "gather_snapshot reads machines w1 = Some (Inr (snapshot, warnings), w')"
    and "\<not> namespace_is_reserved namespace" and "is_observer_complete snapshot"
    and "list_all (removal_operation (location ` {c \<in> set (ds_containers snapshot). co_namespace c = namespace})
      {vid \<in> owned_volume_ids namespace snapshot. fate = Destroy \<and> DataLoss_DockerVolume vid \<in> set confirmed}) (pl_operations plan)"
proof -
  obtain w2 where previewed: "preview_namespace_removal reads x namespace fate w = Some (Inr plan, w2)"
    and refusal: "dp_prune_refusal (pl_preview plan) = None" and w2: "w' = w2"
    and confirmed: "require_confirmed (data_loss_from_plan (pl_preview plan)) confirmed = Inr ()"
    using assms unfolding prepare_namespace_destroy_def observed_destroy_loss_def
    by (auto simp: xtry_eq_Some map_err_eq_Inr Inr_eq_map_err split: option.splits if_splits)
  from preview_removal_Inr [OF previewed] obtain machines snapshot warnings w1 plan0 where
    reads: "rd_list_machines reads w = Some (Inr machines, w1)"
      "gather_snapshot reads machines w1 = Some (Inr (snapshot, warnings), w')"
    and reserved: "\<not> namespace_is_reserved namespace"
    and plan0: "prepare_namespace_removal x namespace snapshot fate = Inr plan0"
    and plan: "plan = prepend_warnings warnings plan0"
    unfolding w2 by blast
  have complete: "is_observer_complete snapshot"
    using refusal namespace_removal_refusal [OF plan0] unfolding plan prepend_warnings_def by (auto split: if_splits)
  have loss: "data_loss_from_plan (pl_preview plan) = data_loss_from_plan (pl_preview plan0)"
    unfolding plan prepend_warnings_def by (simp add: data_loss_from_plan_def)
  obtain containers volumes where operations: "pl_operations plan = map (\<lambda>c. RemoveContainer (co_machine_id c) (co_container_id c)) containers
      @ map RemoveVolume volumes"
    and containers: "set containers \<subseteq> {c \<in> set (ds_containers snapshot). co_namespace c = namespace}"
    and volumes: "set volumes = (if fate = Destroy then owned_volume_ids namespace snapshot else {})"
    and lost: "data_loss_from_plan (pl_preview plan0) = map DataLoss_DockerVolume volumes"
    using namespace_removal_plan [of x namespace snapshot fate] plan0 complete unfolding plan prepend_warnings_def by auto
  have "DataLoss_DockerVolume vid \<in> set confirmed" if "vid \<in> set volumes" for vid
    using confirmed that unfolding loss lost require_confirmed_def by (auto simp: Let_def filter_empty_conv split: if_splits)
  then have "list_all (removal_operation (location ` {c \<in> set (ds_containers snapshot). co_namespace c = namespace})
      {vid \<in> owned_volume_ids namespace snapshot. fate = Destroy \<and> DataLoss_DockerVolume vid \<in> set confirmed}) (pl_operations plan)"
    using containers volumes unfolding operations by (fastforce simp: list_all_iff location_def split: if_splits)
  with reads reserved complete show thesis
    by (rule that)
qed

text \<open>
  Claim C8. The removal of a Namespace, from the reads to the last call: whatever the Machines answer, it
  destroys nothing that the fresh reads do not show and the user did not confirm. A refused or failed
  preparation makes no call. Every call an execution makes waits for observations, stops or removes a
  container that the snapshot just read shows in this Namespace, or removes a Volume that carries the label
  of the Namespace, that was to be destroyed, and whose very identity the confirmation names; and the
  Namespace is not reserved and the snapshot complete.
\<close>

theorem destroy_removes_only_confirmed:
  assumes "destroy_namespace (untraced_reads reads) (traced_runtime rt) (traced_operations ops) x namespace confirmed fate tx (w, [])
    = Some (r, (w', log))"
  shows "(\<forall>e. r = Inl (Err e) \<longrightarrow> log = [])
    \<and> (\<forall>call \<in> set log. \<exists>machines w1 snapshot warnings w2.
        rd_list_machines (untraced_reads reads) (w, []) = Some (Inr machines, w1)
      \<and> gather_snapshot (untraced_reads reads) machines w1 = Some (Inr (snapshot, warnings), w2)
      \<and> \<not> namespace_is_reserved namespace \<and> is_observer_complete snapshot
      \<and> removal_call (location ` {c \<in> set (ds_containers snapshot). co_namespace c = namespace})
          {vid \<in> owned_volume_ids namespace snapshot. fate = Destroy \<and> DataLoss_DockerVolume vid \<in> set confirmed} call)"
proof -
  obtain q v where prepared: "prepare_namespace_destroy (untraced_reads reads) x namespace confirmed fate (w, []) = Some (q, v)"
    and rest: "(case q of Inl e \<Rightarrow> r = Inl e \<and> (w', log) = v
      | Inr plan \<Rightarrow> confirm (traced_runtime rt) (traced_operations ops) plan tx v = Some (r, (w', log)))"
    using assms unfolding destroy_namespace_def xtry_eq_Some
    by (elim disjE exE conjE) (rule that, assumption, simp)+
  obtain u where v: "v = (u, [])"
    using keepsD [OF keeps_prepare_namespace_destroy [where P = "\<lambda>_. False"] prepared] by (cases v) (simp add: world_logs_def)
  show ?thesis
  proof (cases q)
    case (Inl e)
    with rest v show ?thesis
      by simp
  next
    case (Inr plan)
    with rest v have confirmed: "confirm (traced_runtime rt) (traced_operations ops) plan tx (u, []) = Some (r, (w', log))"
      by simp
    obtain machines snapshot warnings w1 where
      reads: "rd_list_machines (untraced_reads reads) (w, []) = Some (Inr machines, w1)"
        "gather_snapshot (untraced_reads reads) machines w1 = Some (Inr (snapshot, warnings), v)"
        "\<not> namespace_is_reserved namespace" "is_observer_complete snapshot"
      and operations: "list_all (removal_operation (location ` {c \<in> set (ds_containers snapshot). co_namespace c = namespace})
        {vid \<in> owned_volume_ids namespace snapshot. fate = Destroy \<and> DataLoss_DockerVolume vid \<in> set confirmed}) (pl_operations plan)"
      by (rule prepare_destroy_Inr [OF prepared [unfolded Inr]])
    have "r \<noteq> Inl (Err e)" for e
      using confirmed by (auto simp: confirm_def map_err_eq_Inl split: option.splits)
    moreover have "\<forall>call \<in> set log. removal_call (location ` {c \<in> set (ds_containers snapshot). co_namespace c = namespace})
        {vid \<in> owned_volume_ids namespace snapshot. fate = Destroy \<and> DataLoss_DockerVolume vid \<in> set confirmed} call"
      using confirm_removal [OF operations confirmed] by simp
    ultimately show ?thesis
      using reads by (metis (no_types, lifting))
  qed
qed

definition confirmed_loss :: "data_loss list" where
  "confirmed_loss = [DataLoss_DockerVolume (DockerVolumeId ''m1'' ''prod_old'')]"

theorem destroy_removes_only_confirmed_witness:
  "\<exists>r w' log snapshot. destroy_namespace (untraced_reads gathered_reads) (traced_runtime sim_runtime) (traced_operations sim_operations)
       example_ext ''prod'' confirmed_loss Destroy None (\<lparr> sim_time = 0, sim_created = 0 \<rparr>, []) = Some (r, (w', log))
     \<and> Called_RemoveVolume (DockerVolumeId ''m1'' ''prod_old'') True \<in> set log
     \<and> is_observer_complete snapshot \<and> DockerVolumeId ''m1'' ''prod_old'' \<in> owned_volume_ids ''prod'' snapshot"
proof -
  let ?run = "destroy_namespace (untraced_reads gathered_reads) (traced_runtime sim_runtime) (traced_operations sim_operations)
       example_ext ''prod'' confirmed_loss Destroy None (\<lparr> sim_time = 0, sim_created = 0 \<rparr>, [])"
  have "case ?run of None \<Rightarrow> False
    | Some (_, _, log) \<Rightarrow> Called_RemoveVolume (DockerVolumeId ''m1'' ''prod_old'') True \<in> set log"
    by code_simp
  then obtain r w' log where run: "?run = Some (r, (w', log))"
    and removed: "Called_RemoveVolume (DockerVolumeId ''m1'' ''prod_old'') True \<in> set log"
    by (auto split: option.splits)
  from destroy_removes_only_confirmed [OF run] removed run show ?thesis
    by fastforce
qed

end
