(* ===== verification/Barrier.thy ===== *)
theory Barrier
  imports Snapshot_Gather
begin

text \<open>
  The barrier over replicated Container Observations, \<open>ployz/src/cluster/container_observations.rs\<close>: the client
  asks the Machines, round after round, until each of them observes the containers serving or dropped. It
  implements \<open>call_wait_for_container_observations\<close> of the executor. The calls are the record \<open>barrier_calls\<close>;
  the runtime's cancellation is that of the token the caller passes.
\<close>

section \<open>Rounds\<close>

record 'w barrier_calls =
  bc_machines :: "('w, machine_observation list) rpc_call"
  bc_supports :: "machine_id \<Rightarrow> ('w, bool) rpc_call"
  bc_observe :: "machine_id \<Rightarrow> container_id list \<Rightarrow> u64 \<Rightarrow> int
    \<Rightarrow> ('w, (container_id, container_observation option) btree) rpc_call"

definition BARRIER_TIMEOUT :: int where "BARRIER_TIMEOUT = 30 * 1000000000"
definition RPC_HOLD :: int where "RPC_HOLD = 2 * 1000000000"
definition TARGET_RPC_TIMEOUT :: int where "TARGET_RPC_TIMEOUT = 10 * 1000000000"

definition barrier_cancelled :: rpc_error where
  "barrier_cancelled = \<lparr> rpc_code = Unavailable, rpc_message = ''container observation wait cancelled'', rpc_details = JNull \<rparr>"

fun comma_separated :: "string list \<Rightarrow> string" where
  "comma_separated [] = []"
| "comma_separated [s] = s"
| "comma_separated (s # rest) = s @ '', '' @ comma_separated rest"

definition timed_out :: "container_id list \<Rightarrow> rpc_error" where
  "timed_out pending =
     \<lparr> rpc_code = Unavailable,
       rpc_message = ''timed out waiting for replicated Container Observations: '' @ comma_separated pending,
       rpc_details = JNull \<rparr>"

definition invalid_response :: "machine_id \<Rightarrow> rpc_error" where
  "invalid_response machine_id =
     \<lparr> rpc_code = Internal,
       rpc_message = ''Machine '' @ machine_id @ '' returned an incomplete replicated Container Observation map'',
       rpc_details = JNull \<rparr>"

text \<open>The containers that an answer shows serving.\<close>

definition serving_in :: "(container_id, container_observation option) btree \<Rightarrow> container_id list" where
  "serving_in response =
     bs_collect (map co_container_id (filter (\<lambda>c. traffic_address c \<noteq> None)
       (service_containers (List.map_filter id (bt_values response)))))"

definition read_response ::
  "container_id list \<Rightarrow> machine_id \<times> (rpc_error, (container_id, container_observation option) btree) result
     \<Rightarrow> (machine_id \<times> (rpc_error, container_id list) result) list
     \<Rightarrow> (rpc_error, (machine_id \<times> (rpc_error, container_id list) result) list) result" where
  "read_response requested answer round =
     (case answer of
        (machine_id, Inr response) \<Rightarrow>
          if bs_collect (bt_keys response) \<noteq> requested then Inl (invalid_response machine_id)
          else Inr (round @ [(machine_id, Inr (serving_in response))])
      | (machine_id, Inl error) \<Rightarrow> Inr (round @ [(machine_id, Inl error)]))"

record votes =
  vo_dropped :: "machine_id list"
  vo_serving :: "(machine_id, container_id list) btree"
  vo_ok_votes :: nat

definition count_vote :: "machine_id \<times> (rpc_error, container_id list) result \<Rightarrow> votes \<Rightarrow> (rpc_error, votes) result" where
  "count_vote answer votes =
     (case answer of
        (machine_id, Inr serving) \<Rightarrow>
          Inr (votes\<lparr> vo_ok_votes := Suc (vo_ok_votes votes), vo_serving := bt_insert machine_id serving (vo_serving votes) \<rparr>)
      | (machine_id, Inl error) \<Rightarrow>
          if rpc_code error = Unsupported then Inr (votes\<lparr> vo_dropped := bs_insert machine_id (vo_dropped votes) \<rparr>)
          else if rpc_code error = Unavailable \<or> rpc_code error = NotFound then Inr votes
          else Inl (error\<lparr> rpc_message := ''Machine '' @ machine_id @ '': '' @ rpc_message error \<rparr>))"

definition satisfies :: "container_observation_condition \<Rightarrow> container_id \<Rightarrow> container_id list \<Rightarrow> bool" where
  "satisfies condition container_id serving =
     (case condition of
        Condition_Serving \<Rightarrow> container_id \<in> set serving
      | Condition_Dropped \<Rightarrow> container_id \<notin> set serving)"

definition apply_round ::
  "machine_id list \<Rightarrow> container_id list \<Rightarrow> container_observation_condition
     \<Rightarrow> (machine_id \<times> (rpc_error, container_id list) result) list
     \<Rightarrow> (rpc_error, nat \<times> machine_id list \<times> container_id list) result" where
  "apply_round capable pending condition responses =
     rbind (rfold count_vote responses \<lparr> vo_dropped = [], vo_serving = [], vo_ok_votes = 0 \<rparr>) (\<lambda>votes.
     let capable = filter (\<lambda>machine_id. machine_id \<notin> set (vo_dropped votes)) capable;
         pending = filter (\<lambda>container_id. list_ex (\<lambda>machine_id.
           case bt_get (vo_serving votes) machine_id of
             None \<Rightarrow> True
           | Some serving \<Rightarrow> \<not> satisfies condition container_id serving) capable) pending
     in Inr (vo_ok_votes votes, capable, pending))"

definition within_deadline ::
  "'w runtime \<Rightarrow> instant \<Rightarrow> container_id list \<Rightarrow> ('w, 'a) rpc_call \<Rightarrow> ('w, 'a) rpc_call" where
  "within_deadline rt deadline pending work =
     xbind (rt_call_before rt deadline) (\<lambda>branch.
     case branch of
       Branch_Cancelled \<Rightarrow> xret (Inl barrier_cancelled)
     | Branch_Deadline \<Rightarrow> xret (Inl (timed_out pending))
     | Branch_Ready \<Rightarrow> work)"

section \<open>The barrier\<close>

type_synonym barrier_state = "machine_id list \<times> container_id list \<times> int"

definition finish_round ::
  "'w runtime \<Rightarrow> instant \<Rightarrow> nat \<times> machine_id list \<times> container_id list \<Rightarrow> ('w, barrier_state + (rpc_error, unit) result) exec" where
  "finish_round rt deadline outcome =
     (case outcome of (ok_votes, capable, pending) \<Rightarrow>
      xbind (rt_now rt) (\<lambda>now.
      let wait = min RPC_HOLD (max 0 (deadline - now)) in
      if pending \<noteq> [] \<and> capable \<noteq> [] \<and> ok_votes = 0 \<and> wait \<noteq> 0
      then xbind (rt_now rt) (\<lambda>now.
           xbind (rt_sleep rt (now + wait)) (\<lambda>cancelled.
           xret (if cancelled then Inr (Inl barrier_cancelled) else Inl (capable, pending, wait))))
      else xret (Inl (capable, pending, wait))))"

definition barrier_step ::
  "'w runtime \<Rightarrow> 'w barrier_calls \<Rightarrow> container_observation_condition \<Rightarrow> instant \<Rightarrow> barrier_state
     \<Rightarrow> ('w, barrier_state + (rpc_error, unit) result) exec" where
  "barrier_step rt rpcs condition deadline st =
     (case st of (capable, pending, wait) \<Rightarrow>
      if pending = [] \<or> capable = [] then xret (Inr (Inr ()))
      else
        xbind (rt_now rt) (\<lambda>now.
        if deadline \<le> now then xret (Inr (Inl (timed_out pending)))
        else
          let timeout = min (deadline - now) TARGET_RPC_TIMEOUT in
          xbind (within_deadline rt deadline pending (xmap Inr (join_all (map (\<lambda>machine_id.
              xmap (Pair machine_id) (bc_observe rpcs machine_id pending (millis_u64 wait) timeout)) capable)))) (\<lambda>responses.
          case rbind responses (\<lambda>responses. rbind (rfold (read_response pending) responses [])
                 (apply_round capable pending condition)) of
            Inl error \<Rightarrow> xret (Inr (Inl error))
          | Inr outcome \<Rightarrow> finish_round rt deadline outcome)))"

definition wait_for_container_observations ::
  "'w runtime \<Rightarrow> 'w barrier_calls \<Rightarrow> container_id list \<Rightarrow> container_observation_condition \<Rightarrow> ('w, unit) rpc_call" where
  "wait_for_container_observations rt rpcs container_ids condition =
     (if container_ids = [] then xret (Inr ())
      else
        xbind (rt_now rt) (\<lambda>now.
        let deadline = now + BARRIER_TIMEOUT; pending = bs_collect container_ids in
        xtry (within_deadline rt deadline pending (bc_machines rpcs)) (\<lambda>machines.
        xtry (within_deadline rt deadline pending (xmap Inr (join_all (map (\<lambda>machine_id.
            xmap (Pair machine_id) (bc_supports rpcs machine_id)) (invited machines))))) (\<lambda>probed.
        let capable = List.map_filter (\<lambda>(machine_id, description).
              if description = Inr True then Some machine_id else None) probed
        in xloop (barrier_step rt rpcs condition deadline) (capable, pending, 0)))))"

section \<open>The barrier ends\<close>

text \<open>
  What the barrier relies on: the laws of the runtime, calls that return, and answers that take time.
\<close>

definition takes_time :: "('s \<Rightarrow> int) \<Rightarrow> ('s, 'a) exec \<Rightarrow> bool" where
  "takes_time clk m \<longleftrightarrow> (\<forall>s. \<exists>a t. m s = Some (a, t) \<and> clk s < clk t)"

locale barrier_laws = runtime_laws rt clk
  for rt :: "'w runtime" and clk :: "'w \<Rightarrow> int" +
  fixes rpcs :: "'w barrier_calls"
  assumes machines_returns: "returns clk (bc_machines rpcs)"
    and supports_returns: "returns clk (bc_supports rpcs machine_id)"
    and observe_takes_time: "takes_time clk (bc_observe rpcs machine_id ids hold timeout)"
begin

lemma join_all_returns: "(\<And>task. task \<in> set tasks \<Longrightarrow> returns clk task) \<Longrightarrow> returns clk (join_all tasks)"
  by (induction tasks) auto

lemma within_deadline_returns: "returns clk work \<Longrightarrow> returns clk (within_deadline rt deadline pending work)"
  unfolding within_deadline_def
  by (intro returns_xbind call_before_law) (auto split: select_branch.split)

lemma observe_returns: "returns clk (bc_observe rpcs machine_id ids hold timeout)"
  using observe_takes_time unfolding takes_time_def returns_def by (meson less_imp_le)

text \<open>A round of calls takes time, and the rest of the round does not turn the clock back.\<close>

lemma round_takes_time:
  "capable \<noteq> [] \<Longrightarrow> takes_time clk (join_all (map (\<lambda>machine_id. xmap (Pair machine_id) (bc_observe rpcs machine_id ids hold timeout)) capable))"
proof (cases capable)
  case (Cons machine_id others)
  have rest: "returns clk (join_all (map (\<lambda>machine_id. xmap (Pair machine_id) (bc_observe rpcs machine_id ids hold timeout)) others))"
    by (intro join_all_returns) (auto intro: observe_returns)
  show ?thesis
    unfolding takes_time_def
  proof
    fix s
    obtain a t where a: "bc_observe rpcs machine_id ids hold timeout s = Some (a, t)" "clk s < clk t"
      using observe_takes_time unfolding takes_time_def by blast
    obtain b u where "join_all (map (\<lambda>machine_id. xmap (Pair machine_id) (bc_observe rpcs machine_id ids hold timeout)) others) t
        = Some (b, u)" "clk t \<le> clk u"
      using rest by (rule returnsE)
    with a Cons show "\<exists>b u. join_all (map (\<lambda>machine_id. xmap (Pair machine_id) (bc_observe rpcs machine_id ids hold timeout)) capable) s
        = Some (b, u) \<and> clk s < clk u"
      by (auto simp: xbind_def xmap_def xret_def)
  qed
qed simp

lemma finish_round_returns: "returns clk (finish_round rt deadline outcome)"
proof -
  have "returns clk (rt_sleep rt wake)" for wake
    using sleep_law unfolding returns_def by blast
  then show ?thesis
    unfolding finish_round_def by (auto simp: Let_def split: prod.split)
qed

lemma runs_takes_time: "takes_time clk m \<Longrightarrow> (\<And>a t. clk s < clk t \<Longrightarrow> Q a t) \<Longrightarrow> runs m s Q"
  unfolding takes_time_def runs_def by blast

lemma runs_within_deadline:
  assumes "takes_time clk work" and "\<And>a. returns clk (k (Inr a))" and "\<And>error. k (Inl error) = xret (Inr (Inl error))"
    and "clk s \<le> clk t" and "clk s < deadline"
  shows "runs (xbind (within_deadline rt deadline pending (xmap Inr work)) k) t (continues clk deadline s)"
  unfolding within_deadline_def
proof (intro runs_xbind runs_returns [OF call_before_law] runs_branch)
  fix branch u
  assume later: "clk t \<le> clk u"
  show "runs (xret (Inl barrier_cancelled)) u (\<lambda>a v. runs (k a) v (continues clk deadline s))"
    and "runs (xret (Inl (timed_out pending))) u (\<lambda>a v. runs (k a) v (continues clk deadline s))"
    using later assms(4) by (auto intro!: runs_xret simp: assms(3) continues_def)
  show "runs (xmap Inr work) u (\<lambda>a v. runs (k a) v (continues clk deadline s))"
  proof (intro runs_xmap runs_takes_time [OF assms(1)] runs_returns [OF assms(2)])
    fix a b v v' 
    assume "clk u < clk v" "clk v \<le> clk v'"
    with later assms(4,5) show "continues clk deadline s b v'"
      by (simp add: continues_def)
  qed
qed

lemma barrier_step_continues: "runs (barrier_step rt rpcs condition deadline st) s (continues clk deadline s)"
proof (cases st)
  case (fields capable pending wait)
  show ?thesis
    unfolding barrier_step_def fields prod.case
  proof (intro runs_if runs_xbind)
    show "runs (xret (Inr (Inr ()))) s (continues clk deadline s)"
      by (rule runs_xret) (simp add: continues_def)
  next
    assume capable: "\<not> (pending = [] \<or> capable = [])"
    obtain now t where now: "rt_now rt s = Some (now, t)" "clk s \<le> now" "now \<le> clk t"
      using now_law by blast
    show "runs (rt_now rt) s (\<lambda>now t. runs (if deadline \<le> now then xret (Inr (Inl (timed_out pending)))
        else let timeout = min (deadline - now) TARGET_RPC_TIMEOUT in
          xbind (within_deadline rt deadline pending (xmap Inr (join_all (map (\<lambda>machine_id.
              xmap (Pair machine_id) (bc_observe rpcs machine_id pending (millis_u64 wait) timeout)) capable)))) (\<lambda>responses.
          case rbind responses (\<lambda>responses. rbind (rfold (read_response pending) responses [])
                 (apply_round capable pending condition)) of
            Inl error \<Rightarrow> xret (Inr (Inl error))
          | Inr outcome \<Rightarrow> finish_round rt deadline outcome)) t (continues clk deadline s))"
      unfolding runs_def [of "rt_now rt"] Let_def
      by (intro exI [of _ now] exI [of _ t] conjI now(1) runs_if runs_within_deadline round_takes_time runs_xret)
        (use capable now in \<open>auto simp: continues_def intro!: finish_round_returns split: sum.split\<close>)
  qed
qed

lemma barrier_returns: "returns clk (wait_for_container_observations rt rpcs container_ids condition)"
  unfolding wait_for_container_observations_def Let_def
  by (auto intro!: within_deadline_returns join_all_returns machines_returns supports_returns
      returns_loop [OF barrier_step_continues])

end

text \<open>
  Claim C10. The barrier ends: with a clock that does not go backwards, timers that do not fire early, calls
  that return and answers that take time, the wait returns, whatever the Machines answer.
\<close>

theorem barrier_ends:
  assumes "barrier_laws rt clk rpcs"
  shows "\<exists>r w'. wait_for_container_observations rt rpcs container_ids condition w = Some (r, w')"
  using barrier_laws.barrier_returns [OF assms] unfolding returns_def by blast

section \<open>What the barrier has seen\<close>

definition answered_unsupported :: "'w barrier_calls \<Rightarrow> machine_id \<Rightarrow> bool" where
  "answered_unsupported rpcs machine_id \<longleftrightarrow>
     (\<exists>ids hold timeout w error w'. bc_observe rpcs machine_id ids hold timeout w = Some (Inl error, w') \<and> rpc_code error = Unsupported)"

definition answered_satisfied ::
  "'w barrier_calls \<Rightarrow> container_observation_condition \<Rightarrow> machine_id \<Rightarrow> container_id \<Rightarrow> bool" where
  "answered_satisfied rpcs condition machine_id container_id \<longleftrightarrow>
     (\<exists>ids hold timeout w response w'. bc_observe rpcs machine_id ids hold timeout w = Some (Inr response, w')
        \<and> satisfies condition container_id (serving_in response))"

lemma join_all_tagged:
  "join_all (map (\<lambda>m. xmap (Pair m) (call m)) ms) w = Some (rs, w') \<Longrightarrow> map fst rs = ms \<and> answered call rs"
proof (induction ms arbitrary: w rs)
  case (Cons m ms)
  then obtain r w1 rs' where r: "call m w = Some (r, w1)"
    and rest: "join_all (map (\<lambda>m. xmap (Pair m) (call m)) ms) w1 = Some (rs', w')" "rs = (m, r) # rs'"
    by (auto simp: exec_simps)
  with Cons.IH [OF rest(1)] show ?case
    by (auto simp: answered_def)
qed (simp add: answered_def)

lemma read_round:
  "rfold (read_response requested) answers acc = Inr round \<Longrightarrow> (m, r) \<in> set round
     \<Longrightarrow> (m, r) \<in> set acc \<or> (\<exists>response. (m, Inr response) \<in> set answers \<and> r = Inr (serving_in response))
       \<or> (\<exists>error. (m, Inl error) \<in> set answers \<and> r = Inl error)"
proof (induction answers arbitrary: acc)
  case (Cons answer answers)
  obtain n q where answer: "answer = (n, q)"
    by (cases answer)
  obtain acc' where acc': "read_response requested (n, q) acc = Inr acc'" "rfold (read_response requested) answers acc' = Inr round"
    using Cons.prems(1) unfolding answer by (auto simp: rbind_eq_Inr)
  from Cons.IH [OF acc'(2) Cons.prems(2)] acc'(1) show ?case
    unfolding answer by (cases q) (auto simp: read_response_def split: if_splits)
qed simp

lemma count_votes:
  "rfold count_vote round start = Inr votes
     \<Longrightarrow> (\<forall>m \<in> set (vo_dropped votes). m \<in> set (vo_dropped start) \<or> (\<exists>error. (m, Inl error) \<in> set round \<and> rpc_code error = Unsupported))
       \<and> (\<forall>m serving. bt_get (vo_serving votes) m = Some serving
            \<longrightarrow> bt_get (vo_serving start) m = Some serving \<or> (m, Inr serving) \<in> set round)"
proof (induction round arbitrary: start)
  case (Cons answer round)
  obtain n q where answer: "answer = (n, q)"
    by (cases answer)
  obtain next_votes where step: "count_vote (n, q) start = Inr next_votes" "rfold count_vote round next_votes = Inr votes"
    using Cons.prems unfolding answer by (auto simp: rbind_eq_Inr)
  note IH = Cons.IH [OF step(2)]
  show ?case
  proof (cases q)
    case (Inl error)
    with step(1) have "vo_serving next_votes = vo_serving start"
      "vo_dropped next_votes = vo_dropped start \<or> rpc_code error = Unsupported \<and> vo_dropped next_votes = bs_insert n (vo_dropped start)"
      by (auto simp: count_vote_def split: if_splits)
    moreover from this have "m \<in> set (vo_dropped start) \<or> (m, Inl error) = answer \<and> rpc_code error = Unsupported"
      if "m \<in> set (vo_dropped next_votes)" for m
      using that Inl unfolding answer by auto
    ultimately show ?thesis
      using IH by (metis list.set_intros(1,2))
  next
    case (Inr serving)
    with step(1) have "vo_dropped next_votes = vo_dropped start"
      "vo_serving next_votes = bt_insert n serving (vo_serving start)"
      by (auto simp: count_vote_def)
    with IH Inr show ?thesis
      unfolding answer by (auto simp: bt_get_insert split: if_splits)
  qed
qed simp

text \<open>What one round says of the Machines that stay and of the containers that leave.\<close>

lemma round_outcome:
  assumes "answered (\<lambda>m. bc_observe rpcs m ids hold timeout) answers"
    and "rbind (rfold (read_response pending) answers []) (apply_round capable pending condition) = Inr (ok_votes, capable', pending')"
  shows "(\<forall>m \<in> set capable. m \<in> set capable' \<or> answered_unsupported rpcs m)
    \<and> (\<forall>c \<in> set pending. c \<in> set pending' \<or> (\<forall>m \<in> set capable'. answered_satisfied rpcs condition m c))"
proof -
  obtain round votes where round: "rfold (read_response pending) answers [] = Inr round"
    and votes: "rfold count_vote round \<lparr> vo_dropped = [], vo_serving = [], vo_ok_votes = 0 \<rparr> = Inr votes"
    and capable': "capable' = filter (\<lambda>m. m \<notin> set (vo_dropped votes)) capable"
    and pending': "pending' = filter (\<lambda>c. list_ex (\<lambda>m. case bt_get (vo_serving votes) m of None \<Rightarrow> True
      | Some serving \<Rightarrow> \<not> satisfies condition c serving) capable') pending"
    using assms(2) by (auto simp: rbind_eq_Inr apply_round_def Let_def)
  have answer: "\<exists>w w'. bc_observe rpcs m ids hold timeout w = Some (r, w')" if "(m, r) \<in> set answers" for m r
    using assms(1) that unfolding answered_def by blast
  have "answered_unsupported rpcs m" if "(m, Inl error) \<in> set round" "rpc_code error = Unsupported" for m error
    using read_round [OF round that(1)] answer that(2) unfolding answered_unsupported_def by fastforce
  moreover have "answered_satisfied rpcs condition m c" if "(m, Inr serving) \<in> set round" "satisfies condition c serving" for m c serving
    using read_round [OF round that(1)] answer that(2) unfolding answered_satisfied_def by fastforce
  ultimately show ?thesis
    using count_votes [OF votes] unfolding capable' pending'
    by (fastforce simp: list_ex_iff split: option.splits)
qed

definition barrier_progress ::
  "'w barrier_calls \<Rightarrow> container_observation_condition \<Rightarrow> machine_id list \<Rightarrow> container_id list \<Rightarrow> barrier_state \<Rightarrow> bool" where
  "barrier_progress rpcs condition asked ids st \<longleftrightarrow>
     (case st of (capable, pending, _) \<Rightarrow>
        (\<forall>m \<in> set asked. m \<in> set capable \<or> answered_unsupported rpcs m)
        \<and> (\<forall>c \<in> set ids. c \<in> set pending \<or> (\<forall>m \<in> set asked. answered_unsupported rpcs m \<or> answered_satisfied rpcs condition m c)))"

lemma finish_round_Inl: "finish_round rt deadline (ok_votes, capable, pending) w = Some (Inl st, w') \<Longrightarrow> \<exists>wait. st = (capable, pending, wait)"
  by (auto simp: finish_round_def xbind_eq_Some Let_def split: if_splits)

lemma finish_round_not_ok: "finish_round rt deadline outcome w \<noteq> Some (Inr (Inr ()), w')"
  by (cases outcome) (auto simp: finish_round_def xbind_eq_Some Let_def split: if_splits)

lemma within_deadline_Inr:
  assumes "within_deadline rt deadline pending work w = Some (Inr a, w')"
  shows "\<exists>u. work u = Some (Inr a, w')"
proof -
  obtain branch u where "rt_call_before rt deadline w = Some (branch, u)"
    and "(case branch of Branch_Cancelled \<Rightarrow> xret (Inl barrier_cancelled)
      | Branch_Deadline \<Rightarrow> xret (Inl (timed_out pending)) | Branch_Ready \<Rightarrow> work) u = Some (Inr a, w')"
    using assms by (auto simp: within_deadline_def xbind_eq_Some)
  then show ?thesis
    by (cases branch) auto
qed

lemma barrier_step_progress:
  assumes "barrier_step rt rpcs condition deadline st w = Some (Inl st', w')" and "barrier_progress rpcs condition asked ids st"
  shows "barrier_progress rpcs condition asked ids st'"
proof -
  obtain capable pending wait where st: "st = (capable, pending, wait)"
    by (cases st)
  obtain now w1 responses w2 where "\<not> (pending = [] \<or> capable = [])" "\<not> deadline \<le> now" "rt_now rt w = Some (now, w1)"
    and within: "within_deadline rt deadline pending (xmap Inr (join_all (map (\<lambda>m. xmap (Pair m)
        (bc_observe rpcs m pending (millis_u64 wait) (min (deadline - now) TARGET_RPC_TIMEOUT))) capable))) w1 = Some (responses, w2)"
    and rest: "(case rbind responses (\<lambda>responses. rbind (rfold (read_response pending) responses [])
                 (apply_round capable pending condition)) of
            Inl error \<Rightarrow> xret (Inr (Inl error))
          | Inr outcome \<Rightarrow> finish_round rt deadline outcome) w2 = Some (Inl st', w')"
    using assms(1) unfolding barrier_step_def st prod.case by (auto simp: xbind_eq_Some Let_def split: if_splits)
  from rest obtain answers ok_votes capable' pending' where responses: "responses = Inr answers"
    and outcome: "rbind (rfold (read_response pending) answers []) (apply_round capable pending condition) = Inr (ok_votes, capable', pending')"
    and finish: "finish_round rt deadline (ok_votes, capable', pending') w2 = Some (Inl st', w')"
    by (auto simp: rbind_eq_Inr split: sum.splits)
  obtain wait' where st': "st' = (capable', pending', wait')"
    using finish_round_Inl [OF finish] by blast
  have "answered (\<lambda>m. bc_observe rpcs m pending (millis_u64 wait) (min (deadline - now) TARGET_RPC_TIMEOUT)) answers"
    using within_deadline_Inr [OF within [unfolded responses]] by (auto simp: xmap_eq_Some dest: join_all_tagged)
  from round_outcome [OF this outcome] assms(2) show ?thesis
    unfolding barrier_progress_def st st' prod.case by blast
qed

lemma barrier_step_Inr:
  assumes "barrier_step rt rpcs condition deadline st w = Some (Inr (Inr ()), w')"
  shows "fst (snd st) = [] \<or> fst st = []"
proof (rule ccontr)
  obtain capable pending wait where st: "st = (capable, pending, wait)"
    by (cases st)
  assume "\<not> ?thesis"
  then obtain responses w2 where "(case rbind responses (\<lambda>responses. rbind (rfold (read_response pending) responses [])
                 (apply_round capable pending condition)) of
            Inl error \<Rightarrow> xret (Inr (Inl error))
          | Inr outcome \<Rightarrow> finish_round rt deadline outcome) w2 = Some (Inr (Inr ()), w')"
    using assms unfolding barrier_step_def st prod.case by (auto simp: xbind_eq_Some Let_def split: if_splits)
  then show False
    by (cases "rbind responses (\<lambda>responses. rbind (rfold (read_response pending) responses []) (apply_round capable pending condition))")
      (simp_all add: finish_round_not_ok)
qed

lemma barrier_progress_done:
  "barrier_progress rpcs condition asked ids st \<Longrightarrow> fst (snd st) = [] \<or> fst st = []
     \<Longrightarrow> \<forall>c \<in> set ids. \<forall>m \<in> set asked. answered_unsupported rpcs m \<or> answered_satisfied rpcs condition m c"
  by (cases st) (auto simp: barrier_progress_def)


section \<open>A simulated barrier\<close>

text \<open>Machines that observe every container serving; an answer takes a millisecond.\<close>

definition sim_barrier :: "sim barrier_calls" where
  "sim_barrier =
     \<lparr> bc_machines = (\<lambda>w. Some (Inr gathered_machines, w)), bc_supports = (\<lambda>_ w. Some (Inr True, w)),
       bc_observe = (\<lambda>m ids hold timeout w.
         Some (Inr (map (\<lambda>c. (c, Some (sim_container m c))) ids), w\<lparr> sim_time := sim_time w + 1000000 \<rparr>)) \<rparr>"

interpretation sim_barrier: barrier_laws sim_runtime sim_time sim_barrier
  by unfold_locales (auto simp: sim_barrier_def returns_def takes_time_def)

theorem barrier_ends_witness:
  "barrier_laws sim_runtime sim_time sim_barrier
     \<and> (\<exists>r w'. wait_for_container_observations sim_runtime sim_barrier [''c1''] Condition_Dropped \<lparr> sim_time = 0, sim_created = 0 \<rparr> = Some (r, w'))"
  using sim_barrier.barrier_laws_axioms barrier_ends [OF sim_barrier.barrier_laws_axioms] by blast


end
