(* ===== verification/Config_Resolve.thy ===== *)
theory Config_Resolve
  imports Machines
begin

text \<open>
  \<open>ployz-core/src/config/variables.rs\<close>, the resolution of variables: a template reads the variables of
  its own Service and of others, through literals, secrets and further templates. The code threads the
  warnings and a memo of resolved variables through the recursion and keeps the variables under
  resolution on a stack; \<open>resolve_parts\<close> is that recursion. The specification is the inductive relation
  \<open>expands\<close>, which has neither memo nor stack.
\<close>

section \<open>Values\<close>

datatype value_part_owner = Owner_Self | Owner_Service string

datatype value_part = Part_Text string | Part_Ref value_part_owner string

datatype resolver_value =
    Resolver_Literal string
  | Resolver_Secret string
  | Resolver_Template "value_part list"

record variable_producer =
  vr_owner_id :: string
  vr_owner :: value_part_owner
  vr_key :: string
  vr_value :: resolver_value

record resolve_variables_input =
  ri_parts :: "value_part list"
  ri_self_owner_id :: string
  ri_producers :: "variable_producer list"

record template_warning =
  tw_kind :: string
  tw_owner_id :: "string option"
  tw_key :: string

datatype resolve_variables_result =
    Resolved string bool "template_warning list"
  | Cycle "string list"

type_synonym variable_id = "string \<times> string"
type_synonym resolver_state = "template_warning list \<times> (variable_id, string \<times> bool) btree"

section \<open>Resolution\<close>

text \<open>The last producer that fits a reference.\<close>

definition find_producer ::
  "variable_producer list \<Rightarrow> string \<Rightarrow> value_part_owner \<Rightarrow> string \<Rightarrow> variable_producer option" where
  "find_producer producers self_owner_id owner key =
     List.find (\<lambda>producer. vr_key producer = key
       \<and> (case owner of
            Owner_Self \<Rightarrow> vr_owner_id producer = self_owner_id
          | Owner_Service _ \<Rightarrow> vr_owner producer = owner)) (rev producers)"

definition missing_warning :: "string \<Rightarrow> value_part_owner \<Rightarrow> string \<Rightarrow> template_warning" where
  "missing_warning self_owner_id owner key =
     \<lparr> tw_kind = ''missing'', tw_owner_id = (if owner = Owner_Self then Some self_owner_id else None), tw_key = key \<rparr>"

definition show_variable :: "variable_id \<Rightarrow> string" where
  "show_variable i = fst i @ ''::'' @ snd i"

lemma find_producer_Some:
  assumes "find_producer producers self_owner_id owner key = Some found"
  shows "found \<in> set producers \<and> vr_key found = key"
  using find_SomeD [OF assms [unfolded find_producer_def]] find_Some_in [OF assms [unfolded find_producer_def]] by simp

text \<open>The variables that are not under resolution: the recursion ends because they get fewer.\<close>

definition unstacked :: "variable_producer list \<Rightarrow> variable_id list \<Rightarrow> nat" where
  "unstacked producers stack = card ((\<lambda>p. (vr_owner_id p, vr_key p)) ` set producers - set stack)"

lemma unstacked_push:
  assumes "found \<in> set producers" and "(vr_owner_id found, vr_key found) \<notin> set stack"
  shows "unstacked producers (stack @ [(vr_owner_id found, vr_key found)]) < unstacked producers stack"
  unfolding unstacked_def using assms by (intro psubset_card_mono) auto

function (sequential) resolve_parts ::
  "variable_producer list \<Rightarrow> string \<Rightarrow> variable_id list \<Rightarrow> value_part list \<Rightarrow> string \<Rightarrow> bool \<Rightarrow> resolver_state
     \<Rightarrow> (string list, (string \<times> bool) \<times> resolver_state) result" where
  "resolve_parts producers self_owner_id stack [] value secret st = Inr ((value, secret), st)"
| "resolve_parts producers self_owner_id stack (Part_Text text # parts) value secret st =
     resolve_parts producers self_owner_id stack parts (value @ text) secret st"
| "resolve_parts producers self_owner_id stack (Part_Ref owner key # parts) value secret (warnings, memo) =
     (case find_producer producers self_owner_id owner key of
        None \<Rightarrow>
          resolve_parts producers self_owner_id stack parts value secret
            (warnings @ [missing_warning self_owner_id owner key], memo)
      | Some found \<Rightarrow>
          let i = (vr_owner_id found, key) in
          if i \<in> set stack then Inl (map show_variable (stack @ [i]))
          else case bt_get memo i of
              Some cached \<Rightarrow>
                resolve_parts producers self_owner_id stack parts (value @ fst cached) (secret \<or> snd cached) (warnings, memo)
            | None \<Rightarrow>
                (case (case vr_value found of
                     Resolver_Literal text \<Rightarrow> Inr ((text, False), (warnings, memo))
                   | Resolver_Secret text \<Rightarrow> Inr ((text, True), (warnings, memo))
                   | Resolver_Template inner \<Rightarrow>
                       resolve_parts producers (vr_owner_id found) (stack @ [i]) inner [] False (warnings, memo)) of
                   Inl path \<Rightarrow> Inl path
                 | Inr (resolved, (warnings, memo)) \<Rightarrow>
                     resolve_parts producers self_owner_id stack parts (value @ fst resolved) (secret \<or> snd resolved)
                       (warnings, bt_insert i resolved memo)))"
  by pat_completeness auto

termination
  by (relation "measures [\<lambda>(producers, _, stack, _). unstacked producers stack, \<lambda>(_, _, _, parts, _). length parts]")
    (auto dest!: find_producer_Some intro: unstacked_push)

definition resolve_variables :: "resolve_variables_input \<Rightarrow> resolve_variables_result" where
  "resolve_variables input =
     (case resolve_parts (ri_producers input) (ri_self_owner_id input) [] (ri_parts input) [] False ([], []) of
        Inr ((value, secret), (warnings, _)) \<Rightarrow> Resolved value secret warnings
      | Inl path \<Rightarrow> Cycle path)"

section \<open>Specification\<close>

inductive expands :: "variable_producer list \<Rightarrow> string \<Rightarrow> value_part list \<Rightarrow> string \<Rightarrow> bool \<Rightarrow> bool"
  and yields :: "variable_producer list \<Rightarrow> variable_producer \<Rightarrow> string \<Rightarrow> bool \<Rightarrow> bool" for producers where
  expands_Nil: "expands producers self_owner_id [] [] False"
| expands_Text: "expands producers self_owner_id parts value secret
    \<Longrightarrow> expands producers self_owner_id (Part_Text text # parts) (text @ value) secret"
| expands_Missing: "find_producer producers self_owner_id owner key = None
    \<Longrightarrow> expands producers self_owner_id parts value secret
    \<Longrightarrow> expands producers self_owner_id (Part_Ref owner key # parts) value secret"
| expands_Ref: "find_producer producers self_owner_id owner key = Some found
    \<Longrightarrow> yields producers found text tainted \<Longrightarrow> expands producers self_owner_id parts value secret
    \<Longrightarrow> expands producers self_owner_id (Part_Ref owner key # parts) (text @ value) (tainted \<or> secret)"
| yields_Literal: "vr_value found = Resolver_Literal text \<Longrightarrow> yields producers found text False"
| yields_Secret: "vr_value found = Resolver_Secret text \<Longrightarrow> yields producers found text True"
| yields_Template: "vr_value found = Resolver_Template inner
    \<Longrightarrow> expands producers (vr_owner_id found) inner text secret \<Longrightarrow> yields producers found text secret"

inductive_cases expands_NilE: "expands producers self_owner_id [] value secret"
inductive_cases expands_TextE: "expands producers self_owner_id (Part_Text text # parts) value secret"
inductive_cases expands_RefE: "expands producers self_owner_id (Part_Ref owner key # parts) value secret"
inductive_cases yieldsE: "yields producers found text secret"

lemma expands_deterministic:
  "expands producers self_owner_id parts value secret
     \<Longrightarrow> expands producers self_owner_id parts value' secret' \<Longrightarrow> value' = value \<and> secret' = secret"
  "yields producers found text secret \<Longrightarrow> yields producers found text' secret' \<Longrightarrow> text' = text \<and> secret' = secret"
proof (induction arbitrary: value' secret' and text' secret' rule: expands_yields.inducts)
  case (expands_Nil self_owner_id)
  then show ?case
    by (elim expands_NilE) simp
next
  case (expands_Text self_owner_id parts v secret chunk)
  from expands_Text.prems show ?case
    by (elim expands_TextE) (use expands_Text.IH in blast)
next
  case (expands_Missing self_owner_id owner key parts v secret)
  from expands_Missing.prems show ?case
    by (elim expands_RefE) (use expands_Missing(1,3) in \<open>simp_all\<close>)
next
  case (expands_Ref self_owner_id owner key found chunk tainted parts v secret)
  from expands_Ref.prems show ?case
  proof (rule expands_RefE)
    fix found' chunk' tainted' v'' secret''
    assume *: "value' = chunk' @ v''" "secret' = (tainted' \<or> secret'')"
      "find_producer producers self_owner_id owner key = Some found'"
      "yields producers found' chunk' tainted'" "expands producers self_owner_id parts v'' secret''"
    have "found' = found"
      using *(3) expands_Ref(1) by simp
    then have "chunk' = chunk \<and> tainted' = tainted"
      using *(4) expands_Ref(3) by blast
    moreover have "v'' = v \<and> secret'' = secret"
      using *(5) expands_Ref(5) by blast
    ultimately show ?thesis
      using *(1,2) by simp
  qed (use expands_Ref(1) in simp)
next
  case (yields_Literal found chunk)
  then show ?case
    by (elim yieldsE) simp_all
next
  case (yields_Secret found chunk)
  then show ?case
    by (elim yieldsE) simp_all
next
  case (yields_Template found inner chunk secret)
  from yields_Template.prems show ?case
  proof (rule yieldsE)
    fix inner'
    assume "vr_value found = Resolver_Template inner'" "expands producers (vr_owner_id found) inner' text' secret'"
    then show ?thesis
      using yields_Template(1,3) by simp
  qed (use yields_Template(1) in simp_all)
qed

text \<open>The owner's id and the owner's scope name the same owner.\<close>

definition producers_wf :: "variable_producer list \<Rightarrow> bool" where
  "producers_wf producers \<longleftrightarrow>
     (\<forall>p \<in> set producers. \<forall>q \<in> set producers. vr_owner_id p = vr_owner_id q \<longleftrightarrow> vr_owner p = vr_owner q)"

definition variable_of :: "variable_producer \<Rightarrow> variable_id" where
  "variable_of p = (vr_owner_id p, vr_key p)"

text \<open>A producer that some reference finds; the id of a found producer names it.\<close>

definition is_found :: "variable_producer list \<Rightarrow> variable_producer \<Rightarrow> bool" where
  "is_found producers found \<longleftrightarrow> (\<exists>self_owner_id owner key. find_producer producers self_owner_id owner key = Some found)"

lemma find_cong_set: "(\<And>x. x \<in> set xs \<Longrightarrow> P x = Q x) \<Longrightarrow> List.find P xs = List.find Q xs"
  by (induction xs) auto

lemma found_by_id:
  assumes "producers_wf producers" and "is_found producers found"
  shows "List.find (\<lambda>p. variable_of p = variable_of found) (rev producers) = Some found"
proof -
  obtain self_owner_id owner key where find: "find_producer producers self_owner_id owner key = Some found"
    using assms(2) unfolding is_found_def by blast
  have found: "found \<in> set producers" "vr_key found = key"
    using find_producer_Some [OF find] by simp_all
  have fits: "case owner of Owner_Self \<Rightarrow> vr_owner_id found = self_owner_id | Owner_Service _ \<Rightarrow> vr_owner found = owner"
    using find_SomeD [OF find [unfolded find_producer_def]] by simp
  have "List.find (\<lambda>p. variable_of p = variable_of found) (rev producers)
      = List.find (\<lambda>p. vr_key p = key
          \<and> (case owner of Owner_Self \<Rightarrow> vr_owner_id p = self_owner_id | Owner_Service _ \<Rightarrow> vr_owner p = owner)) (rev producers)"
  proof (intro find_cong_set)
    fix p
    assume "p \<in> set (rev producers)"
    then have "vr_owner_id p = vr_owner_id found \<longleftrightarrow> vr_owner p = vr_owner found"
      using assms(1) found(1) by (simp add: producers_wf_def)
    then show "variable_of p = variable_of found \<longleftrightarrow> vr_key p = key
        \<and> (case owner of Owner_Self \<Rightarrow> vr_owner_id p = self_owner_id | Owner_Service _ \<Rightarrow> vr_owner p = owner)"
      using fits found(2)
      by (cases owner) (auto simp: variable_of_def)
  qed
  then show ?thesis
    using find unfolding find_producer_def by simp
qed

lemma found_unique:
  assumes "producers_wf producers" and "is_found producers f" "is_found producers g" and "variable_of f = variable_of g"
  shows "f = g"
proof -
  have "List.find (\<lambda>p. variable_of p = variable_of g) (rev producers) = Some f"
    using found_by_id [OF assms(1,2)] unfolding assms(4) .
  with found_by_id [OF assms(1,3)] show ?thesis
    by (metis option.inject)
qed

section \<open>What the resolver returns\<close>

text \<open>Every memo entry is what its variable yields.\<close>

definition memo_ok :: "variable_producer list \<Rightarrow> (variable_id, string \<times> bool) btree \<Rightarrow> bool" where
  "memo_ok producers memo \<longleftrightarrow>
     (\<forall>i resolved. bt_get memo i = Some resolved
        \<longrightarrow> (\<exists>f. is_found producers f \<and> variable_of f = i \<and> yields producers f (fst resolved) (snd resolved)))"

lemma memo_okD:
  assumes "producers_wf producers" and "memo_ok producers memo" and "is_found producers found"
    and "bt_get memo (variable_of found) = Some resolved"
  shows "yields producers found (fst resolved) (snd resolved)"
  using assms found_unique unfolding memo_ok_def by metis

lemma memo_ok_insert:
  "memo_ok producers memo \<Longrightarrow> is_found producers found \<Longrightarrow> yields producers found (fst resolved) (snd resolved)
     \<Longrightarrow> memo_ok producers (bt_insert (variable_of found) resolved memo)"
  unfolding memo_ok_def bt_get_insert by auto

lemma is_foundI: "find_producer producers self_owner_id owner key = Some found \<Longrightarrow> is_found producers found"
  unfolding is_found_def by blast

lemma resolve_parts_sound:
  assumes "producers_wf producers"
  shows "resolve_parts producers self_owner_id stack parts value secret st = Inr ((value', secret'), (warnings', memo'))
    \<Longrightarrow> memo_ok producers (snd st)
    \<Longrightarrow> memo_ok producers memo'
      \<and> (\<exists>v s. expands producers self_owner_id parts v s \<and> value' = value @ v \<and> secret' = (secret \<or> s))"
  using assms
proof (induction producers self_owner_id stack parts "value" secret st arbitrary: value' secret' warnings' memo'
    rule: resolve_parts.induct)
  case (1 producers self_owner_id stack v secret st)
  then show ?case
    by (auto intro: expands_Nil)
next
  case (2 producers self_owner_id stack chunk parts v secret st)
  from "2.IH" [OF _ "2.prems"(2,3)] "2.prems"(1) show ?case
    by (auto intro: expands_Text)
next
  case (3 producers self_owner_id stack owner key parts v secret warnings memo)
  note wf = "3.prems"(3) and memo = "3.prems"(2) [unfolded snd_conv]
  show ?case
  proof (cases "find_producer producers self_owner_id owner key")
    case None
    with "3.prems"(1) "3.IH"(1) [OF None _ _ wf] memo show ?thesis
      by (auto intro: expands_Missing)
  next
    case (Some found)
    have key: "(vr_owner_id found, key) = variable_of found"
      using find_producer_Some [OF Some] by (simp add: variable_of_def)
    have found: "is_found producers found"
      using Some by (rule is_foundI)
    have unstacked: "(vr_owner_id found, key) \<notin> set stack"
      using "3.prems"(1) Some by (auto simp: Let_def)
    have step: "memo_ok producers memo'
        \<and> (\<exists>v' s. expands producers self_owner_id (Part_Ref owner key # parts) v' s \<and> value' = v @ v' \<and> secret' = (secret \<or> s))"
      if "yields producers found (fst resolved) (snd resolved)"
        and "memo_ok producers memo'
        \<and> (\<exists>v' s. expands producers self_owner_id parts v' s \<and> value' = (v @ fst resolved) @ v'
             \<and> secret' = ((secret \<or> snd resolved) \<or> s))" for resolved
      using that expands_Ref [OF Some that(1)] by (metis append_assoc)
    show ?thesis
    proof (cases "bt_get memo (vr_owner_id found, key)")
      case cached: (Some resolved)
      show ?thesis
      proof (rule step)
        show "yields producers found (fst resolved) (snd resolved)"
          using memo_okD [OF wf memo found] cached key by simp
        show "memo_ok producers memo'
          \<and> (\<exists>v' s. expands producers self_owner_id parts v' s \<and> value' = (v @ fst resolved) @ v'
             \<and> secret' = ((secret \<or> snd resolved) \<or> s))"
          using "3.IH"(4) [OF Some HOL.refl unstacked cached _ _ wf] "3.prems"(1) Some unstacked cached memo
          by (simp add: Let_def)
      qed
    next
      case None
      define outcome where "outcome = (case vr_value found of
           Resolver_Literal text \<Rightarrow> Inr ((text, False), (warnings, memo))
         | Resolver_Secret text \<Rightarrow> Inr ((text, True), (warnings, memo))
         | Resolver_Template inner \<Rightarrow>
             resolve_parts producers (vr_owner_id found) (stack @ [(vr_owner_id found, key)]) inner [] False (warnings, memo))"
      obtain resolved w m where outcome: "outcome = Inr (resolved, (w, m))"
        using "3.prems"(1) Some unstacked None unfolding resolve_parts.simps outcome_def [symmetric]
        by (cases outcome) (auto simp: Let_def outcome_def [symmetric])
      have inner: "memo_ok producers m \<and> yields producers found (fst resolved) (snd resolved)"
      proof (cases "vr_value found")
        case (Resolver_Template inner)
        then show ?thesis
          using "3.IH"(2) [OF Some HOL.refl unstacked None Resolver_Template _ _ wf, of "fst resolved" "snd resolved" w m]
            outcome memo by (auto simp: outcome_def intro: yields_Template)
      qed (use outcome memo in \<open>auto simp: outcome_def intro: yields_Literal yields_Secret\<close>)
      show ?thesis
      proof (rule step)
        show "yields producers found (fst resolved) (snd resolved)"
          using inner by simp
        show "memo_ok producers memo'
          \<and> (\<exists>v' s. expands producers self_owner_id parts v' s \<and> value' = (v @ fst resolved) @ v'
             \<and> secret' = ((secret \<or> snd resolved) \<or> s))"
        proof (rule "3.IH"(3) [OF Some HOL.refl unstacked None outcome [unfolded outcome_def] HOL.refl HOL.refl _ _ wf])
          show "memo_ok producers (snd (w, bt_insert (vr_owner_id found, key) resolved m))"
            unfolding key using inner memo_ok_insert [OF _ found] by simp
          show "resolve_parts producers self_owner_id stack parts (v @ fst resolved) (secret \<or> snd resolved)
              (w, bt_insert (vr_owner_id found, key) resolved m) = Inr ((value', secret'), (warnings', memo'))"
            using "3.prems"(1) Some unstacked None outcome
            by (simp add: Let_def outcome_def [symmetric])
        qed
      qed
    qed
  qed
qed

section \<open>Cycles\<close>

text \<open>The producers a template reads, and the paths of reads that leave it.\<close>

definition refers :: "variable_producer list \<Rightarrow> string \<Rightarrow> value_part list \<Rightarrow> variable_producer \<Rightarrow> bool" where
  "refers producers self_owner_id parts found \<longleftrightarrow>
     (\<exists>owner key. Part_Ref owner key \<in> set parts \<and> find_producer producers self_owner_id owner key = Some found)"

definition inner_parts :: "variable_producer \<Rightarrow> value_part list" where
  "inner_parts p = (case vr_value p of Resolver_Template inner \<Rightarrow> inner | _ \<Rightarrow> [])"

fun read_path :: "variable_producer list \<Rightarrow> string \<Rightarrow> value_part list \<Rightarrow> variable_producer list \<Rightarrow> bool" where
  "read_path producers self_owner_id parts [] = True"
| "read_path producers self_owner_id parts (f # fs) =
     (refers producers self_owner_id parts f \<and> read_path producers (vr_owner_id f) (inner_parts f) fs)"

lemma refers_simps [simp]:
  "\<not> refers producers self_owner_id [] found"
  "refers producers self_owner_id (Part_Text text # parts) found \<longleftrightarrow> refers producers self_owner_id parts found"
  "refers producers self_owner_id (Part_Ref owner key # parts) found
     \<longleftrightarrow> find_producer producers self_owner_id owner key = Some found \<or> refers producers self_owner_id parts found"
  unfolding refers_def by auto

lemma refers_Cons:
  "refers producers self_owner_id parts found \<Longrightarrow> refers producers self_owner_id (part # parts) found"
  unfolding refers_def by auto

lemma read_path_Cons:
  "read_path producers self_owner_id parts fs \<Longrightarrow> read_path producers self_owner_id (part # parts) fs"
  by (cases fs) (auto intro: refers_Cons)

lemma read_path_found: "read_path producers self_owner_id parts fs \<Longrightarrow> f \<in> set fs \<Longrightarrow> is_found producers f"
  by (induction fs arbitrary: self_owner_id parts) (auto simp: refers_def intro: is_foundI)

text \<open>An error lists a path of reads that ends in a variable it already passed.\<close>

definition returning :: "variable_producer list \<Rightarrow> string \<Rightarrow> variable_id list \<Rightarrow> value_part list \<Rightarrow> string list \<Rightarrow> bool" where
  "returning producers self_owner_id stack parts path \<longleftrightarrow>
     (\<exists>fs. fs \<noteq> [] \<and> read_path producers self_owner_id parts fs
        \<and> path = map show_variable (stack @ map variable_of fs)
        \<and> variable_of (last fs) \<in> set (stack @ map variable_of (butlast fs)))"

lemma returning_Cons:
  "returning producers self_owner_id stack parts path \<Longrightarrow> returning producers self_owner_id stack (part # parts) path"
  unfolding returning_def using read_path_Cons by blast

lemma returning_inner:
  assumes "refers producers self_owner_id parts found"
    and "returning producers (vr_owner_id found) (stack @ [variable_of found]) (inner_parts found) path"
  shows "returning producers self_owner_id stack parts path"
proof -
  from assms(2) obtain fs where "fs \<noteq> []" "read_path producers (vr_owner_id found) (inner_parts found) fs"
    "path = map show_variable ((stack @ [variable_of found]) @ map variable_of fs)"
    "variable_of (last fs) \<in> set ((stack @ [variable_of found]) @ map variable_of (butlast fs))"
    unfolding returning_def by blast
  then show ?thesis
    unfolding returning_def by (intro exI [of _ "found # fs"]) (use assms(1) in auto)
qed

lemma resolve_parts_returning:
  "resolve_parts producers self_owner_id stack parts value secret st = Inl path
     \<Longrightarrow> returning producers self_owner_id stack parts path"
proof (induction producers self_owner_id stack parts "value" secret st arbitrary: path rule: resolve_parts.induct)
  case (3 producers self_owner_id stack owner key parts v secret warnings memo)
  show ?case
  proof (cases "find_producer producers self_owner_id owner key")
    case None
    with "3.prems" "3.IH"(1) [OF None] show ?thesis
      by (auto intro: returning_Cons)
  next
    case (Some found)
    have key: "(vr_owner_id found, key) = variable_of found"
      using find_producer_Some [OF Some] by (simp add: variable_of_def)
    have refers: "refers producers self_owner_id (Part_Ref owner key # parts) found"
      unfolding refers_def using Some by auto
    show ?thesis
    proof (cases "(vr_owner_id found, key) \<in> set stack")
      case True
      then show ?thesis
        unfolding returning_def
        by (intro exI [of _ "[found]"]) (use "3.prems" Some key refers in \<open>simp add: Let_def\<close>)
    next
      case False
      note unstacked = False
      show ?thesis
      proof (cases "bt_get memo (vr_owner_id found, key)")
        case cached: (Some resolved)
        show ?thesis
          using "3.IH"(4) [OF Some HOL.refl unstacked cached] "3.prems" Some unstacked cached
          by (auto simp: Let_def intro: returning_Cons)
      next
        case None
        define outcome where "outcome = (case vr_value found of
             Resolver_Literal text \<Rightarrow> Inr ((text, False), (warnings, memo))
           | Resolver_Secret text \<Rightarrow> Inr ((text, True), (warnings, memo))
           | Resolver_Template inner \<Rightarrow>
               resolve_parts producers (vr_owner_id found) (stack @ [(vr_owner_id found, key)]) inner [] False (warnings, memo))"
        show ?thesis
        proof (cases outcome)
          case (Inl path')
          then obtain inner where inner: "vr_value found = Resolver_Template inner"
            unfolding outcome_def by (auto split: resolver_value.splits)
          have "path' = path"
            using "3.prems" Some unstacked None Inl by (simp add: Let_def outcome_def [symmetric])
          with "3.IH"(2) [OF Some HOL.refl unstacked None inner] Inl inner
          show ?thesis
            by (intro returning_inner [OF refers]) (auto simp: outcome_def inner_parts_def key)
        next
          case (Inr r)
          obtain resolved w m where r: "r = (resolved, (w, m))"
            by (cases r) auto
          show ?thesis
            using "3.IH"(3) [OF Some HOL.refl unstacked None Inr [unfolded outcome_def] r [symmetric] HOL.refl]
              "3.prems" Some unstacked None Inr r
            by (auto simp: Let_def outcome_def [symmetric] intro: returning_Cons)
        qed
      qed
    qed
  qed
qed (auto intro: returning_Cons)

text \<open>A variable that yields a value reads no endless path.\<close>

definition reads :: "variable_producer list \<Rightarrow> variable_producer \<Rightarrow> variable_producer \<Rightarrow> bool" where
  "reads producers f g \<longleftrightarrow> refers producers (vr_owner_id f) (inner_parts f) g"

abbreviation grounded :: "variable_producer list \<Rightarrow> variable_producer \<Rightarrow> bool" where
  "grounded producers \<equiv> Wellfounded.accp (\<lambda>g f. reads producers f g)"

lemma expands_grounded:
  "expands producers self_owner_id parts value secret \<Longrightarrow> \<forall>g. refers producers self_owner_id parts g \<longrightarrow> grounded producers g"
  "yields producers found text secret \<Longrightarrow> grounded producers found"
proof (induction rule: expands_yields.inducts)
  case (expands_Nil self_owner_id)
  show ?case
    by simp
next
  case (expands_Text self_owner_id parts v secret chunk)
  then show ?case
    by simp
next
  case (expands_Missing self_owner_id owner key parts v secret)
  then show ?case
    by simp
next
  case (expands_Ref self_owner_id owner key found chunk tainted parts v secret)
  then show ?case
    by simp
next
  case (yields_Literal found chunk)
  show ?case
    by (rule accp.accI) (simp add: reads_def inner_parts_def yields_Literal)
next
  case (yields_Secret found chunk)
  show ?case
    by (rule accp.accI) (simp add: reads_def inner_parts_def yields_Secret)
next
  case (yields_Template found inner chunk secret)
  show ?case
    by (rule accp.accI) (use yields_Template in \<open>simp add: reads_def inner_parts_def\<close>)
qed

lemma grounded_irreflexive:
  assumes "grounded producers f"
  shows "\<not> (reads producers)\<^sup>+\<^sup>+ f f"
  using assms
proof (induction rule: accp.induct)
  case (accI f)
  show ?case
  proof
    assume "(reads producers)\<^sup>+\<^sup>+ f f"
    then obtain g where g: "reads producers f g" "(reads producers)\<^sup>*\<^sup>* g f"
      by (auto dest: tranclpD)
    then have "(reads producers)\<^sup>+\<^sup>+ g g"
      by (simp add: rtranclp_into_tranclp1)
    with accI(2) g(1) show False
      by blast
  qed
qed

lemma read_path_last: "read_path producers self_owner_id parts (f # fs) \<Longrightarrow> (reads producers)\<^sup>*\<^sup>* f (last (f # fs))"
proof (induction fs arbitrary: self_owner_id parts f)
  case (Cons g fs)
  then have "reads producers f g"
    by (simp add: reads_def)
  moreover have "(reads producers)\<^sup>*\<^sup>* g (last (g # fs))"
    using Cons.IH [of "vr_owner_id f" "inner_parts f" g] Cons.prems by simp
  ultimately show ?case
    by (simp add: converse_rtranclp_into_rtranclp)
qed simp

lemma read_path_returns:
  "read_path producers self_owner_id parts fs \<Longrightarrow> f \<in> set (butlast fs) \<Longrightarrow> (reads producers)\<^sup>+\<^sup>+ f (last fs)"
proof (induction fs arbitrary: self_owner_id parts)
  case (Cons g fs)
  then obtain h hs where fs: "fs = h # hs"
    by (cases fs) auto
  show ?case
  proof (cases "f = g")
    case True
    have "reads producers g h" "(reads producers)\<^sup>*\<^sup>* h (last fs)"
      using Cons.prems(1) fs read_path_last [of producers "vr_owner_id g" "inner_parts g" h hs]
      by (auto simp: reads_def)
    then show ?thesis
      using True fs by (simp add: rtranclp_into_tranclp2)
  next
    case False
    then show ?thesis
      using Cons.IH [of "vr_owner_id g" "inner_parts g"] Cons.prems fs by simp
  qed
qed simp

lemma read_path_grounded:
  assumes "expands producers self_owner_id parts value secret" and "read_path producers self_owner_id parts fs" "f \<in> set fs"
  shows "grounded producers f"
proof -
  obtain g gs where fs: "fs = g # gs"
    using assms(3) by (cases fs) auto
  have "grounded producers g"
    using expands_grounded(1) [OF assms(1)] assms(2) fs by auto
  then show ?thesis
    using assms(2,3) unfolding fs
  proof (induction gs arbitrary: self_owner_id parts g)
    case (Cons h hs)
    have "grounded producers h"
      using Cons.prems(1,2) by (auto simp: reads_def dest: accp_downward)
    then show ?case
      using Cons.IH [of h "vr_owner_id g" "inner_parts g"] Cons.prems by (cases "f = g") auto
  qed simp
qed

lemma cyclic_never_expands:
  assumes "read_path producers self_owner_id parts fs" and "last fs \<in> set (butlast fs)"
  shows "\<not> expands producers self_owner_id parts value secret"
proof
  assume "expands producers self_owner_id parts value secret"
  then have "grounded producers (last fs)"
    using assms by (blast intro: read_path_grounded in_set_butlastD)
  with grounded_irreflexive read_path_returns [OF assms] show False
    by blast
qed

lemma returning_cyclic:
  assumes "producers_wf producers" and "returning producers self_owner_id [] parts path"
  shows "\<exists>fs. path = map (show_variable \<circ> variable_of) fs \<and> read_path producers self_owner_id parts fs
    \<and> last fs \<in> set (butlast fs)"
proof -
  from assms(2) obtain fs where fs: "fs \<noteq> []" "read_path producers self_owner_id parts fs"
    "path = map (show_variable \<circ> variable_of) fs" "variable_of (last fs) \<in> variable_of ` set (butlast fs)"
    unfolding returning_def by auto
  then obtain f where f: "f \<in> set (butlast fs)" "variable_of (last fs) = variable_of f"
    by auto
  have "is_found producers (last fs)" "is_found producers f"
    using read_path_found [OF fs(2)] fs(1) f(1) by (auto dest: in_set_butlastD)
  then have "last fs = f"
    using found_unique [OF assms(1)] f(2) by blast
  with f(1) have "last fs \<in> set (butlast fs)"
    by simp
  with fs(2,3) show ?thesis
    by blast
qed

section \<open>The resolver implements the specification\<close>

lemma resolve_variables_sound:
  assumes "producers_wf (ri_producers input)" and "resolve_variables input = Resolved value secret warnings"
  shows "expands (ri_producers input) (ri_self_owner_id input) (ri_parts input) value secret"
proof -
  obtain memo where "resolve_parts (ri_producers input) (ri_self_owner_id input) [] (ri_parts input) [] False ([], [])
      = Inr ((value, secret), (warnings, memo))"
    using assms(2) unfolding resolve_variables_def by (auto split: sum.splits prod.splits)
  from resolve_parts_sound [OF assms(1) this] show ?thesis
    by (simp add: memo_ok_def)
qed

lemma resolve_variables_cycle:
  assumes "producers_wf (ri_producers input)" and "resolve_variables input = Cycle path"
  shows "\<exists>fs. path = map (show_variable \<circ> variable_of) fs
    \<and> read_path (ri_producers input) (ri_self_owner_id input) (ri_parts input) fs \<and> last fs \<in> set (butlast fs)"
proof -
  have "resolve_parts (ri_producers input) (ri_self_owner_id input) [] (ri_parts input) [] False ([], []) = Inl path"
    using assms(2) unfolding resolve_variables_def by (auto split: sum.splits prod.splits)
  from returning_cyclic [OF assms(1) resolve_parts_returning [OF this]] show ?thesis .
qed

text \<open>
  A Service \<open>api\<close> reads the connection text of \<open>db\<close>, which holds a secret password; \<open>LOOP\<close> and \<open>BACK\<close> read each other.
\<close>

definition example_producers :: "variable_producer list" where
  "example_producers =
     [\<lparr> vr_owner_id = ''db-1'', vr_owner = Owner_Service ''db'', vr_key = ''PASSWORD'', vr_value = Resolver_Secret ''hunter2'' \<rparr>,
      \<lparr> vr_owner_id = ''db-1'', vr_owner = Owner_Service ''db'', vr_key = ''URL'',
        vr_value = Resolver_Template [Part_Text ''pg://'', Part_Ref Owner_Self ''PASSWORD'', Part_Text ''@db''] \<rparr>,
      \<lparr> vr_owner_id = ''api-1'', vr_owner = Owner_Service ''api'', vr_key = ''LOOP'',
        vr_value = Resolver_Template [Part_Ref Owner_Self ''BACK''] \<rparr>,
      \<lparr> vr_owner_id = ''api-1'', vr_owner = Owner_Service ''api'', vr_key = ''BACK'',
        vr_value = Resolver_Template [Part_Ref (Owner_Service ''api'') ''LOOP''] \<rparr>]"

definition example_input :: "value_part list \<Rightarrow> resolve_variables_input" where
  "example_input parts = \<lparr> ri_parts = parts, ri_self_owner_id = ''api-1'', ri_producers = example_producers \<rparr>"

lemma example_producers_wf: "producers_wf (ri_producers (example_input parts))"
  by (simp add: producers_wf_def example_input_def example_producers_def)

lemma example_resolves:
  "resolve_variables (example_input [Part_Ref (Owner_Service ''db'') ''URL'', Part_Ref Owner_Self ''NONE''])
     = Resolved ''pg://hunter2@db'' True [missing_warning ''api-1'' Owner_Self ''NONE'']"
  by code_simp

lemma example_cycle:
  "resolve_variables (example_input [Part_Ref Owner_Self ''LOOP''])
     = Cycle [''api-1::LOOP'', ''api-1::BACK'', ''api-1::LOOP'']"
  by code_simp

text \<open>
  Claim C9. The resolver implements the specification without memo and stack: where every owner id names
  one owner, it returns a text and a secrecy exactly when the templates expand to them.
\<close>

theorem resolve_variables_refines:
  assumes "producers_wf (ri_producers input)"
  shows "(\<exists>warnings. resolve_variables input = Resolved value secret warnings)
    \<longleftrightarrow> expands (ri_producers input) (ri_self_owner_id input) (ri_parts input) value secret"
proof
  assume spec: "expands (ri_producers input) (ri_self_owner_id input) (ri_parts input) value secret"
  show "\<exists>warnings. resolve_variables input = Resolved value secret warnings"
  proof (cases "resolve_variables input")
    case (Resolved v s warnings)
    with resolve_variables_sound [OF assms Resolved] expands_deterministic(1) [OF spec] show ?thesis
      by simp
  next
    case (Cycle path)
    from resolve_variables_cycle [OF assms Cycle] cyclic_never_expands spec show ?thesis
      by blast
  qed
qed (use resolve_variables_sound [OF assms] in blast)

theorem resolve_variables_refines_witness:
  "expands example_producers ''api-1'' [Part_Ref (Owner_Service ''db'') ''URL'', Part_Ref Owner_Self ''NONE''] ''pg://hunter2@db'' True"
  using resolve_variables_refines [OF example_producers_wf, of "[Part_Ref (Owner_Service ''db'') ''URL'', Part_Ref Owner_Self ''NONE'']"
      "''pg://hunter2@db''" True] example_resolves
  by (simp add: example_input_def)

text \<open>
  Claim C20. The resolver reports a cycle exactly when a path of reads leaves the template and returns to
  a variable it passed, and the path it reports is such a path.
\<close>

theorem resolve_variables_cycle_exact:
  assumes "producers_wf (ri_producers input)"
  shows "((\<exists>path. resolve_variables input = Cycle path)
      \<longleftrightarrow> (\<exists>fs. read_path (ri_producers input) (ri_self_owner_id input) (ri_parts input) fs \<and> last fs \<in> set (butlast fs)))
    \<and> (\<forall>path. resolve_variables input = Cycle path \<longrightarrow> (\<exists>fs. path = map (show_variable \<circ> variable_of) fs
      \<and> read_path (ri_producers input) (ri_self_owner_id input) (ri_parts input) fs \<and> last fs \<in> set (butlast fs)))"
    (is "(?cycle \<longleftrightarrow> ?lasso) \<and> _")
proof (intro conjI)
  show "?cycle \<longleftrightarrow> ?lasso"
  proof
    assume ?lasso
    then obtain fs where "read_path (ri_producers input) (ri_self_owner_id input) (ri_parts input) fs"
      "last fs \<in> set (butlast fs)"
      by blast
    from cyclic_never_expands [OF this] resolve_variables_sound [OF assms] show ?cycle
      by (cases "resolve_variables input") auto
  qed (use resolve_variables_cycle [OF assms] in blast)
qed (use resolve_variables_cycle [OF assms] in blast)

theorem resolve_variables_cycle_exact_witness:
  "\<exists>fs. [''api-1::LOOP'', ''api-1::BACK'', ''api-1::LOOP''] = map (show_variable \<circ> variable_of) fs
     \<and> read_path example_producers ''api-1'' [Part_Ref Owner_Self ''LOOP''] fs \<and> last fs \<in> set (butlast fs)"
  using resolve_variables_cycle_exact [OF example_producers_wf, of "[Part_Ref Owner_Self ''LOOP'']"] example_cycle
  by (auto simp: example_input_def)

section \<open>Secrets\<close>

text \<open>The same producers with other secrets.\<close>

definition with_secret :: "(variable_producer \<Rightarrow> string) \<Rightarrow> variable_producer \<Rightarrow> variable_producer" where
  "with_secret g p = (case vr_value p of Resolver_Secret _ \<Rightarrow> p\<lparr> vr_value := Resolver_Secret (g p) \<rparr> | _ \<Rightarrow> p)"

lemma with_secret_fields [simp]:
  "vr_owner_id (with_secret g p) = vr_owner_id p" "vr_owner (with_secret g p) = vr_owner p" "vr_key (with_secret g p) = vr_key p"
  by (simp_all add: with_secret_def split: resolver_value.split)

lemma with_secret_value:
  "vr_value (with_secret g p) = (case vr_value p of Resolver_Secret _ \<Rightarrow> Resolver_Secret (g p) | other \<Rightarrow> other)"
  by (simp add: with_secret_def split: resolver_value.split)

lemma find_producer_with_secret:
  "find_producer (map (with_secret g) producers) self_owner_id owner key
     = map_option (with_secret g) (find_producer producers self_owner_id owner key)"
proof -
  have "List.find P (map (with_secret g) ps) = map_option (with_secret g) (List.find P ps)"
    if "\<And>p. P (with_secret g p) = P p" for P ps
    using that by (induction ps) auto
  from this [of "\<lambda>p. vr_key p = key \<and> (case owner of Owner_Self \<Rightarrow> vr_owner_id p = self_owner_id | Owner_Service _ \<Rightarrow> vr_owner p = owner)"]
  show ?thesis
    unfolding find_producer_def rev_map by (simp split: value_part_owner.split)
qed

text \<open>Results that differ in the texts of secrets only.\<close>

definition same_public :: "string \<times> bool \<Rightarrow> string \<times> bool \<Rightarrow> bool" where
  "same_public a b \<longleftrightarrow> snd a = snd b \<and> (snd a \<or> fst a = fst b)"

lemma same_public_pair [simp]: "same_public (v, s) (v', s') \<longleftrightarrow> s = s' \<and> (s \<or> v = v')"
  by (auto simp: same_public_def)

abbreviation same_memo where
  "same_memo \<equiv> list_all2 (rel_prod (=) same_public)"

definition same_outcome where
  "same_outcome \<equiv> rel_sum (=) (rel_prod same_public (rel_prod (=) same_memo))"

lemma same_memo_get: "same_memo m m' \<Longrightarrow> rel_option same_public (bt_get m i) (bt_get m' i)"
  unfolding bt_get_def by (induction rule: list_all2_induct) auto

lemma same_memo_insert:
  "same_memo m m' \<Longrightarrow> same_public r r' \<Longrightarrow> same_memo (bt_insert i r m) (bt_insert i r' m')"
  by (induction rule: list_all2_induct) auto

lemma same_public_append: "s \<or> v = v' \<Longrightarrow> same_public r r' \<Longrightarrow> (s \<or> snd r) \<or> v @ fst r = v' @ fst r'"
  unfolding same_public_def by auto

lemma resolve_parts_same:
  assumes "secret \<or> value = value'" and "same_memo (snd st) memo'"
  shows "same_outcome (resolve_parts producers self_owner_id stack parts value secret st)
    (resolve_parts (map (with_secret g) producers) self_owner_id stack parts value' secret (fst st, memo'))"
  using assms
proof (induction producers self_owner_id stack parts "value" secret st arbitrary: value' memo' rule: resolve_parts.induct)
  case (1 producers self_owner_id stack v secret st)
  then show ?case
    by (cases st) (simp add: same_outcome_def)
next
  case (2 producers self_owner_id stack chunk parts v secret st)
  then show ?case
    by simp
next
  case (3 producers self_owner_id stack owner key parts v secret warnings memo)
  show ?case
  proof (cases "find_producer producers self_owner_id owner key")
    case None
    with "3.IH"(1) [OF None "3.prems"(1)] "3.prems"(2) show ?thesis
      by (simp add: find_producer_with_secret)
  next
    case (Some found)
    have found': "find_producer (map (with_secret g) producers) self_owner_id owner key = Some (with_secret g found)"
      using Some by (simp add: find_producer_with_secret)
    let ?i = "(vr_owner_id found, key)"
    show ?thesis
    proof (cases "?i \<in> set stack")
      case True
      then show ?thesis
        using Some found' by (simp add: Let_def same_outcome_def)
    next
      case unstacked: False
      note get = same_memo_get [OF "3.prems"(2) [unfolded snd_conv], of ?i]
      show ?thesis
      proof (cases "bt_get memo ?i")
        case cached: (Some resolved)
        then obtain resolved' where cached': "bt_get memo' ?i = Some resolved'" "same_public resolved resolved'"
          using get by (cases "bt_get memo' ?i") auto
        have "snd resolved' = snd resolved"
          using cached'(2) by (simp add: same_public_def)
        with "3.IH"(4) [OF Some HOL.refl unstacked cached same_public_append [OF "3.prems"(1) cached'(2)]] "3.prems"(2)
          Some found' unstacked cached cached'(1)
        show ?thesis
          by (simp add: Let_def)
      next
        case None
        have none': "bt_get memo' ?i = None"
          using get None by (cases "bt_get memo' ?i") auto
        define outcome where "outcome = (case vr_value found of
             Resolver_Literal text \<Rightarrow> Inr ((text, False), (warnings, memo))
           | Resolver_Secret text \<Rightarrow> Inr ((text, True), (warnings, memo))
           | Resolver_Template inner \<Rightarrow>
               resolve_parts producers (vr_owner_id found) (stack @ [?i]) inner [] False (warnings, memo))"
        define outcome' where "outcome' = (case vr_value (with_secret g found) of
             Resolver_Literal text \<Rightarrow> Inr ((text, False), (warnings, memo'))
           | Resolver_Secret text \<Rightarrow> Inr ((text, True), (warnings, memo'))
           | Resolver_Template inner \<Rightarrow>
               resolve_parts (map (with_secret g) producers) (vr_owner_id (with_secret g found)) (stack @ [?i]) inner [] False (warnings, memo'))"
        have same: "same_outcome outcome outcome'"
        proof (cases "vr_value found")
          case (Resolver_Template inner)
          with "3.IH"(2) [OF Some HOL.refl unstacked None Resolver_Template _ "3.prems"(2), of "[]"]
          show ?thesis
            by (simp add: outcome_def outcome'_def with_secret_value)
        qed (use "3.prems"(2) in \<open>simp_all add: outcome_def outcome'_def with_secret_value same_outcome_def\<close>)
        show ?thesis
        proof (cases outcome)
          case (Inl path)
          with same have "outcome' = Inl path"
            by (cases outcome') (auto simp: same_outcome_def)
          with Inl Some found' unstacked None none' show ?thesis
            by (simp add: Let_def outcome_def [symmetric] outcome'_def [symmetric] same_outcome_def)
        next
          case (Inr r)
          obtain resolved w m where r: "r = (resolved, (w, m))"
            by (cases r) auto
          obtain resolved' m' where r': "outcome' = Inr (resolved', (w, m'))" "same_public resolved resolved'" "same_memo m m'"
            using same Inr r by (cases outcome') (auto simp: same_outcome_def)
          have "snd resolved' = snd resolved"
            using r'(2) by (simp add: same_public_def)
          with "3.IH"(3) [OF Some HOL.refl unstacked None Inr [unfolded outcome_def] r [symmetric] HOL.refl
              same_public_append [OF "3.prems"(1) r'(2)], of "bt_insert ?i resolved' m'"]
            same_memo_insert [OF r'(3,2)] Inr r r'(1) Some found' unstacked None none'
          show ?thesis
            by (simp add: Let_def outcome_def [symmetric] outcome'_def [symmetric])
        qed
      qed
    qed
  qed
qed

text \<open>
  Claim C19. A text the resolver does not mark secret says nothing of any secret: with other secrets in the
  same producers it returns the same cycle, or the same secrecy and warnings, and the same text unless it
  marks the text secret.
\<close>

theorem resolve_variables_keeps_secrets:
  "case resolve_variables input of
     Cycle path \<Rightarrow> resolve_variables (input\<lparr> ri_producers := map (with_secret g) (ri_producers input) \<rparr>) = Cycle path
   | Resolved value secret warnings \<Rightarrow>
       (\<exists>value'. resolve_variables (input\<lparr> ri_producers := map (with_secret g) (ri_producers input) \<rparr>)
          = Resolved value' secret warnings \<and> (secret \<or> value' = value))"
  using resolve_parts_same [of False "[]" "[]" "([], [])" "[]" "ri_producers input" "ri_self_owner_id input" "[]" "ri_parts input" g]
  by (auto simp: resolve_variables_def same_outcome_def same_public_def rel_sum.simps split: sum.splits)

end
