(* ===== verification/Config_Template.thy ===== *)
theory Config_Template
  imports Config_Resolve
begin

text \<open>
  Templates as text: \<open>parse_variable_template\<close>, \<open>template_token\<close> and \<open>identifier\<close> of
  \<open>ployz-core/src/config/variables.rs\<close>, and \<open>render_variable_parts\<close> of \<open>environment_compile.rs\<close>. The names of
  Services, which the caller knows, are the function \<open>lineage\<close> of the parser and the map \<open>slugs\<close> of the
  renderer. The round trip is exact: the parser reads back what the renderer wrote unless a text ends in a
  dollar right before a reference.
\<close>

section \<open>Parsing\<close>

record parsed_template =
  pt_parts :: "value_part list"
  pt_unresolved :: "string list"
  pt_unterminated :: bool

definition is_ascii_alphabetic :: "char \<Rightarrow> bool" where
  "is_ascii_alphabetic c = (in_range CHR ''a'' CHR ''z'' c \<or> in_range CHR ''A'' CHR ''Z'' c)"

fun contains_str :: "string \<Rightarrow> string \<Rightarrow> bool" where
  "contains_str p [] = starts_with p []"
| "contains_str p (c # s) = (starts_with p (c # s) \<or> contains_str p s)"

definition trim_start :: "string \<Rightarrow> string" where
  "trim_start s = dropWhile is_whitespace s"

definition in_identifier :: "char \<Rightarrow> char \<Rightarrow> bool" where
  "in_identifier extra c = (is_ascii_alphanumeric c \<or> c = CHR ''_'' \<or> c = extra)"

definition identifier_of :: "string \<Rightarrow> char \<Rightarrow> string \<times> string" where
  "identifier_of text extra = (takeWhile (in_identifier extra) text, dropWhile (in_identifier extra) text)"

definition valid_key :: "string \<Rightarrow> bool" where
  "valid_key key =
     ((case key of [] \<Rightarrow> False | c # _ \<Rightarrow> is_ascii_alphabetic c \<or> c = CHR ''_'') \<and> CHR ''-'' \<notin> set key)"

definition template_token :: "string \<Rightarrow> (string option \<times> string \<times> string) option" where
  "template_token text =
     (let (first, after) = identifier_of (trim_start text) CHR ''-'' in
      case (case strip_prefix ''.'' after of
              Some after \<Rightarrow>
                if (case first of [] \<Rightarrow> False | c # _ \<Rightarrow> is_ascii_alphanumeric c)
                then (let (key, after) = identifier_of after CHR ''_'' in Some (Some first, key, after))
                else None
            | None \<Rightarrow> Some (None, first, after)) of
        None \<Rightarrow> None
      | Some (owner, key, after) \<Rightarrow>
          (case strip_prefix ''}}'' (trim_start after) of
             None \<Rightarrow> None
           | Some after \<Rightarrow> if valid_key key then Some (owner, key, after) else None))"

definition flush :: "string \<Rightarrow> value_part list" where
  "flush pending = (if pending = [] then [] else [Part_Text pending])"

lemma flush_Nil [simp]: "flush [] = []"
  by (simp add: flush_def)

lemma template_token_shorter: "template_token text = Some (owner, key, after) \<Longrightarrow> length after < length text"
proof -
  assume token: "template_token text = Some (owner, key, after)"
  have drop: "length (dropWhile P s) \<le> length s" for P and s :: string
    by (rule length_dropWhile_le)
  from token obtain rest where "trim_start rest = ''}}'' @ after" "length rest \<le> length text"
    unfolding template_token_def identifier_of_def
    by (auto simp: strip_prefix_Some Let_def trim_start_def split: option.splits prod.splits if_splits)
      (metis drop le_trans length_Cons nat_le_linear not_less_eq_eq)+
  with drop [of is_whitespace rest] show ?thesis
    by (simp add: trim_start_def)
qed

function (sequential) parse_loop ::
  "(string \<Rightarrow> string option) \<Rightarrow> string \<Rightarrow> string \<Rightarrow> value_part list \<Rightarrow> string list \<Rightarrow> bool \<Rightarrow> parsed_template" where
  "parse_loop lineage [] pending parts unresolved unterminated =
     \<lparr> pt_parts = parts @ flush pending, pt_unresolved = unresolved, pt_unterminated = unterminated \<rparr>"
| "parse_loop lineage (c # cs) pending parts unresolved unterminated =
     (case strip_prefix ''$${{'' (c # cs) of
        Some after \<Rightarrow> parse_loop lineage after (pending @ ''${{'') parts unresolved unterminated
      | None \<Rightarrow>
      (case strip_prefix ''${{'' (c # cs) of
        None \<Rightarrow> parse_loop lineage cs (pending @ [c]) parts unresolved unterminated
      | Some after \<Rightarrow>
      (case template_token after of
        None \<Rightarrow>
          parse_loop lineage after (pending @ ''${{'') parts unresolved (unterminated \<or> \<not> contains_str ''}}'' after)
      | Some (owner, key, after) \<Rightarrow>
          (case (case owner of None \<Rightarrow> Some Owner_Self | Some name \<Rightarrow> map_option Owner_Service (lineage name)) of
             Some resolved \<Rightarrow>
               parse_loop lineage after [] (parts @ flush pending @ [Part_Ref resolved key]) unresolved unterminated
           | None \<Rightarrow>
               parse_loop lineage after (pending @ take (length (c # cs) - length after) (c # cs)) parts
                 (unresolved @ (case owner of None \<Rightarrow> [] | Some name \<Rightarrow> [name])) unterminated))))"
  by pat_completeness auto

termination
  by (relation "measure (\<lambda>(_, rest, _). length rest)")
    (auto simp: strip_prefix_Some dest: template_token_shorter split: if_splits)

definition parse_variable_template :: "string \<Rightarrow> (string \<Rightarrow> string option) \<Rightarrow> parsed_template" where
  "parse_variable_template text lineage = parse_loop lineage text [] [] [] False"

section \<open>Rendering\<close>

function (sequential) replace_braces :: "string \<Rightarrow> string" where
  "replace_braces [] = []"
| "replace_braces (c # cs) =
     (case strip_prefix ''${{'' (c # cs) of
        Some after \<Rightarrow> ''$${{'' @ replace_braces after
      | None \<Rightarrow> c # replace_braces cs)"
  by pat_completeness auto

termination
  by (relation "measure length") (auto simp: strip_prefix_Some split: if_splits)

definition render_part :: "(string, string) btree \<Rightarrow> value_part \<Rightarrow> string" where
  "render_part slugs part =
     (case part of
        Part_Text text \<Rightarrow> replace_braces text
      | Part_Ref Owner_Self key \<Rightarrow> ''${{ '' @ key @ '' }}''
      | Part_Ref (Owner_Service lineage_id) key \<Rightarrow>
          ''${{ '' @ (case bt_get slugs lineage_id of None \<Rightarrow> ''<deleted>'' | Some slug \<Rightarrow> slug) @ ''.'' @ key @ '' }}'')"

definition render_variable_parts :: "value_part list \<Rightarrow> (string, string) btree \<Rightarrow> string" where
  "render_variable_parts parts slugs = concat (map (render_part slugs) parts)"

section \<open>Reading back a text\<close>

text \<open>What follows a text that the parser is to read back: nothing, or something that starts with a dollar.\<close>

definition separate :: "string \<Rightarrow> string \<Rightarrow> bool" where
  "separate text rest \<longleftrightarrow>
     (rest = [] \<or> hd rest = CHR ''$'') \<and> (text \<noteq> [] \<longrightarrow> last text = CHR ''$'' \<longrightarrow> \<not> starts_with ''${{'' rest)"

lemma replace_braces_hd: "text \<noteq> [] \<Longrightarrow> \<exists>more. replace_braces text = hd text # more"
  by (cases "text") (auto simp: strip_prefix_Some split: option.split)

lemma replace_braces_plain: "c \<noteq> CHR ''$'' \<Longrightarrow> replace_braces (c # cs) = c # replace_braces cs"
  by simp

lemma replaced_open:
  assumes "rest = [] \<or> hd rest = CHR ''$''" and "starts_with ''{{'' (replace_braces text @ rest)"
  shows "starts_with ''{{'' text"
proof -
  have brace: "\<exists>more. s = CHR ''{'' # more \<and> replace_braces s = CHR ''{'' # replace_braces more"
    if "\<exists>r. replace_braces s @ rest = CHR ''{'' # r" for s
  proof (cases s)
    case (Cons c cs)
    then obtain more where "replace_braces s = c # more"
      using replace_braces_hd [of s] by auto
    with that Cons show ?thesis
      by auto
  qed (use that assms(1) in auto)
  from assms(2) obtain r where r: "replace_braces text @ rest = ''{{'' @ r"
    unfolding starts_with_iff by blast
  then obtain more where more: "text = CHR ''{'' # more" "replace_braces text = CHR ''{'' # replace_braces more"
    using brace [of "text"] by auto
  with r brace [of more] show ?thesis
    by (auto simp: starts_with_iff)
qed

lemma parse_loop_char:
  assumes "\<not> starts_with ''$${{'' (c # cs)" and "\<not> starts_with ''${{'' (c # cs)"
  shows "parse_loop lineage (c # cs) pending parts unresolved unterminated
    = parse_loop lineage cs (pending @ [c]) parts unresolved unterminated"
  using assms by (auto simp: starts_with_def simp del: strip_prefix.simps)

lemma parse_loop_escape:
  "parse_loop lineage (''$${{'' @ after) pending parts unresolved unterminated
     = parse_loop lineage after (pending @ ''${{'') parts unresolved unterminated"
  by simp

lemma parse_loop_text:
  "separate text rest \<Longrightarrow>
     parse_loop lineage (replace_braces text @ rest) pending parts unresolved unterminated
       = parse_loop lineage rest (pending @ text) parts unresolved unterminated"
proof (induction "text" arbitrary: pending rule: replace_braces.induct)
  case (2 c cs)
  show ?case
  proof (cases "strip_prefix ''${{'' (c # cs)")
    case (Some after)
    then have body: "c # cs = ''${{'' @ after"
      by (simp only: strip_prefix_Some)
    have "separate after rest"
      using "2.prems" unfolding body separate_def by (auto split: if_splits)
    from "2.IH"(2) [OF Some this, of "pending @ ''${{''"] show ?thesis
      unfolding replace_braces.simps Some option.case append_assoc parse_loop_escape body by simp
  next
    case None
    have closed: "\<not> starts_with ''{{'' cs" if "c = CHR ''$''"
      using None that by (auto simp: starts_with_def)
    have rest: "rest = [] \<or> hd rest = CHR ''$''"
      using "2.prems" by (simp add: separate_def)
    have "\<not> starts_with ''${{'' (c # replace_braces cs @ rest)"
      using closed replaced_open [OF rest, of cs] by (auto simp: starts_with_iff)
    moreover have "\<not> starts_with ''$${{'' (c # replace_braces cs @ rest)"
    proof
      assume "starts_with ''$${{'' (c # replace_braces cs @ rest)"
      then obtain r where r: "c = CHR ''$''" "replace_braces cs @ rest = ''${{'' @ r"
        by (auto simp: starts_with_iff)
      show False
      proof (cases cs)
        case Nil
        with r "2.prems" show False
          by (auto simp: separate_def starts_with_iff)
      next
        case (Cons d ds)
        then have d: "d = CHR ''$''"
          using r(2) replace_braces_hd [of cs] by auto
        show False
        proof (cases "strip_prefix ''${{'' cs")
          case after: None
          with r(2) Cons d have "starts_with ''{{'' (replace_braces ds @ rest)" "\<not> starts_with ''{{'' ds"
            by (auto simp: starts_with_def strip_prefix_Some)
          with replaced_open [OF rest] show False
            by blast
        qed (use r(2) Cons d in auto)
      qed
    qed
    moreover have "separate cs rest"
      using "2.prems" unfolding separate_def by (auto split: if_splits)
    ultimately show ?thesis
      using "2.IH"(1) [OF None, of "pending @ [c]"] None parse_loop_char
      by (simp del: strip_prefix.simps parse_loop.simps)
  qed
qed simp

section \<open>Reading back a reference\<close>

definition is_key :: "string \<Rightarrow> bool" where
  "is_key key \<longleftrightarrow> valid_key key \<and> list_all (in_identifier CHR ''_'') key"

definition is_slug :: "string \<Rightarrow> bool" where
  "is_slug slug \<longleftrightarrow> slug \<noteq> [] \<and> is_ascii_alphanumeric (hd slug) \<and> list_all (in_identifier CHR ''-'') slug"

lemma delimiters:
  "\<not> in_identifier CHR ''-'' CHR ''.''" "\<not> in_identifier CHR ''-'' CHR '' ''" "\<not> in_identifier CHR ''_'' CHR '' ''"
  "is_whitespace CHR '' ''" "\<not> is_whitespace CHR ''}''"
  by code_simp+

lemma identifier_not_space: "in_identifier extra c \<Longrightarrow> extra \<in> {CHR ''-'', CHR ''_''} \<Longrightarrow> \<not> is_whitespace c"
  unfolding in_identifier_def is_whitespace_def is_ascii_alphanumeric_def char_class_defs by auto

lemma identifier_of_append:
  assumes "list_all (in_identifier extra) w" and "rest \<noteq> [] \<and> \<not> in_identifier extra (hd rest)"
  shows "identifier_of (w @ rest) extra = (w, rest)"
  using assms by (cases rest) (auto simp: identifier_of_def list_all_iff takeWhile_append2 dropWhile_append2)

lemma trim_start_word:
  assumes "list_all (in_identifier extra) w" and "w \<noteq> []" and "extra \<in> {CHR ''-'', CHR ''_''}"
  shows "trim_start (CHR '' '' # w @ rest) = w @ rest"
  using assms identifier_not_space by (cases w) (auto simp: trim_start_def delimiters)

lemma trim_start_close: "trim_start ('' }}'' @ rest) = ''}}'' @ rest"
  by (simp add: trim_start_def delimiters)

lemma is_key_word: "is_key key \<Longrightarrow> list_all (in_identifier CHR ''-'') key" "is_key key \<Longrightarrow> key \<noteq> []"
  by (auto simp: is_key_def valid_key_def in_identifier_def list_all_iff)

lemma template_token_self: "is_key key \<Longrightarrow> template_token (CHR '' '' # key @ '' }}'' @ rest) = Some (None, key, rest)"
  using identifier_of_append [OF is_key_word(1), of key "'' }}'' @ rest"]
  by (simp add: template_token_def trim_start_word [OF is_key_word] delimiters trim_start_close [simplified] is_key_def)

lemma template_token_service:
  assumes "is_key key" and "is_slug slug"
  shows "template_token (CHR '' '' # slug @ ''.'' @ key @ '' }}'' @ rest) = Some (Some slug, key, rest)"
proof -
  have "list_all (in_identifier CHR ''_'') key"
    using assms(1) by (simp add: is_key_def)
  note key = identifier_of_append [OF this, of "'' }}'' @ rest"]
  have slug: "list_all (in_identifier CHR ''-'') slug" "slug \<noteq> []"
    using assms(2) by (simp_all add: is_slug_def)
  obtain c cs where "slug = c # cs" "is_ascii_alphanumeric c"
    using assms(2) by (cases slug) (auto simp: is_slug_def)
  with key identifier_of_append [OF slug(1), of "''.'' @ key @ '' }}'' @ rest"] trim_start_word [OF slug, of "''.'' @ key @ '' }}'' @ rest"]
    assms(1)
  show ?thesis
    by (simp add: template_token_def delimiters trim_start_close [simplified] is_key_def)
qed

section \<open>The round trip\<close>

text \<open>Parts the parser can produce: known Services and legal keys, no empty text and no two texts in a row.\<close>

definition part_wf :: "(string, string) btree \<Rightarrow> (string \<Rightarrow> string option) \<Rightarrow> value_part \<Rightarrow> bool" where
  "part_wf slugs lineage part \<longleftrightarrow>
     (case part of
        Part_Text text \<Rightarrow> text \<noteq> []
      | Part_Ref Owner_Self key \<Rightarrow> is_key key
      | Part_Ref (Owner_Service lineage_id) key \<Rightarrow>
          is_key key
            \<and> (case bt_get slugs lineage_id of None \<Rightarrow> False | Some slug \<Rightarrow> is_slug slug \<and> lineage slug = Some lineage_id))"

fun is_text :: "value_part \<Rightarrow> bool" where
  "is_text (Part_Text _) = True"
| "is_text (Part_Ref _ _) = False"

fun texts_apart :: "value_part list \<Rightarrow> bool" where
  "texts_apart [] = True"
| "texts_apart (part # parts) = ((is_text part \<longrightarrow> parts \<noteq> [] \<longrightarrow> \<not> is_text (hd parts)) \<and> texts_apart parts)"

definition canonical_parts :: "(string, string) btree \<Rightarrow> (string \<Rightarrow> string option) \<Rightarrow> value_part list \<Rightarrow> bool" where
  "canonical_parts slugs lineage parts \<longleftrightarrow> list_all (part_wf slugs lineage) parts \<and> texts_apart parts"

text \<open>A text that ends in a dollar, right before a reference.\<close>

fun dollar_before_ref :: "value_part list \<Rightarrow> bool" where
  "dollar_before_ref [] = False"
| "dollar_before_ref (part # parts) =
     ((case part of Part_Text text \<Rightarrow> text \<noteq> [] \<and> last text = CHR ''$'' \<and> parts \<noteq> [] \<and> \<not> is_text (hd parts) | _ \<Rightarrow> False)
      \<or> dollar_before_ref parts)"

lemma render_ref: "\<not> is_text part \<Longrightarrow> \<exists>more. render_part slugs part = ''${{'' @ more"
  by (cases part) (auto simp: render_part_def split: value_part_owner.split)

lemma parse_loop_ref:
  assumes "part_wf slugs lineage part" and "\<not> is_text part"
  shows "parse_loop lineage (render_part slugs part @ rest) pending parts unresolved unterminated
    = parse_loop lineage rest [] (parts @ flush pending @ [part]) unresolved unterminated"
proof -
  obtain owner key where part: "part = Part_Ref owner key"
    using assms(2) by (cases part) auto
  show ?thesis
  proof (cases owner)
    case Owner_Self
    with assms(1) part template_token_self [of key rest] show ?thesis
      by (simp add: part_wf_def render_part_def)
  next
    case (Owner_Service lineage_id)
    with assms(1) part obtain slug where "is_key key" "bt_get slugs lineage_id = Some slug" "is_slug slug"
      "lineage slug = Some lineage_id"
      by (auto simp: part_wf_def split: option.splits)
    with part Owner_Service template_token_service [of key slug rest] show ?thesis
      by (simp add: render_part_def)
  qed
qed

lemma render_separate:
  assumes "texts_apart (Part_Text text # parts)"
    and "text \<noteq> [] \<Longrightarrow> last text = CHR ''$'' \<Longrightarrow> parts = [] \<or> is_text (hd parts)"
  shows "separate text (render_variable_parts parts slugs)"
proof (cases parts)
  case (Cons part more)
  then obtain r where "render_part slugs part = ''${{'' @ r"
    using assms(1) render_ref [of part slugs] by auto
  with Cons assms show ?thesis
    by (auto simp: separate_def render_variable_parts_def)
qed (simp add: separate_def render_variable_parts_def starts_with_def)

lemma parse_loop_parts:
  "canonical_parts slugs lineage parts \<Longrightarrow> \<not> dollar_before_ref parts
     \<Longrightarrow> pending = [] \<or> parts = [] \<or> \<not> is_text (hd parts)
     \<Longrightarrow> parse_loop lineage (render_variable_parts parts slugs) pending acc unresolved unterminated
       = \<lparr> pt_parts = acc @ flush pending @ parts, pt_unresolved = unresolved, pt_unterminated = unterminated \<rparr>"
proof (induction parts arbitrary: pending acc)
  case (Cons part parts)
  have rest: "canonical_parts slugs lineage parts" "\<not> dollar_before_ref parts" and wf: "part_wf slugs lineage part"
    using Cons.prems(1,2) by (auto simp: canonical_parts_def)
  have render: "render_variable_parts (part # parts) slugs = render_part slugs part @ render_variable_parts parts slugs"
    by (simp add: render_variable_parts_def)
  show ?case
  proof (cases part)
    case (Part_Text chunk)
    have "separate chunk (render_variable_parts parts slugs)"
      using render_separate [of chunk parts] Cons.prems(1,2) Part_Text by (auto simp: canonical_parts_def)
    moreover have "parts = [] \<or> \<not> is_text (hd parts)" "pending = []" "chunk \<noteq> []"
      using Cons.prems(1,3) wf Part_Text by (auto simp: canonical_parts_def part_wf_def)
    ultimately show ?thesis
      unfolding render using Cons.IH [OF rest, of chunk acc] Part_Text parse_loop_text
      by (simp add: render_part_def flush_def)
  next
    case (Part_Ref owner key)
    with parse_loop_ref [OF wf] Cons.IH [OF rest, of "[]"] show ?thesis
      unfolding render by (simp add: flush_def)
  qed
qed (simp add: render_variable_parts_def)

text \<open>Where a dollar precedes a reference, the parser reads on in the text.\<close>

lemma parse_loop_later:
  "\<exists>later. pt_parts (parse_loop lineage rest pending parts unresolved unterminated) = parts @ later"
  by (induction lineage rest pending parts unresolved unterminated rule: parse_loop.induct)
    (fastforce simp del: strip_prefix.simps split: option.split)+

lemma parse_loop_pending:
  assumes "pending \<noteq> []"
  shows "\<exists>more later. pt_parts (parse_loop lineage rest pending parts unresolved unterminated)
    = parts @ Part_Text (pending @ more) # later"
  using assms
proof (induction lineage rest pending parts unresolved unterminated rule: parse_loop.induct)
  case (2 lineage c cs pending parts unresolved unterminated)
  show ?case
  proof (cases "strip_prefix ''$${{'' (c # cs)")
    case escaped: None
    show ?thesis
    proof (cases "strip_prefix ''${{'' (c # cs)")
      case None
      with escaped "2.IH"(1) [OF escaped None] show ?thesis
        by (simp del: strip_prefix.simps) metis
    next
      case (Some after)
      show ?thesis
      proof (cases "template_token after")
        case None
        with escaped Some "2.IH"(2) [OF escaped Some None] show ?thesis
          by (simp del: strip_prefix.simps) metis
      next
        case token: (Some t)
        obtain owner key rest where t: "t = (owner, key, rest)"
          by (cases t) auto
        define resolved where "resolved = (case owner of None \<Rightarrow> Some Owner_Self | Some name \<Rightarrow> map_option Owner_Service (lineage name))"
        show ?thesis
        proof (cases resolved)
          case None
          with "2.IH"(3) [OF escaped Some token t [symmetric] HOL.refl None [unfolded resolved_def]] escaped Some token t
          show ?thesis
            by (simp del: strip_prefix.simps take.simps add: resolved_def [symmetric] "2.prems") metis
        next
          case (Some owner')
          obtain tail where tail: "pt_parts (parse_loop lineage rest [] (parts @ flush pending @ [Part_Ref owner' key]) unresolved unterminated)
              = (parts @ flush pending @ [Part_Ref owner' key]) @ tail"
            using parse_loop_later by blast
          show ?thesis
            by (intro exI [of _ "[]"] exI [of _ "Part_Ref owner' key # tail"])
              (use escaped \<open>strip_prefix ''${{'' (c # cs) = Some after\<close> token t "2.prems" Some tail in
                \<open>simp add: resolved_def [symmetric] flush_def del: strip_prefix.simps\<close>)
        qed
      qed
    qed
  next
    case (Some after)
    with "2.IH"(5) [OF Some] show ?thesis
      by (simp del: strip_prefix.simps) metis
  qed
qed (simp add: flush_def)

lemma replace_braces_dollar: "replace_braces (text @ ''$'') = replace_braces text @ ''$''"
proof (induction "text" rule: replace_braces.induct)
  case (2 c cs)
  show ?case
  proof (cases "strip_prefix ''${{'' (c # cs)")
    case None
    then have "strip_prefix ''${{'' ((c # cs) @ ''$'') = None"
      by (cases cs; cases "tl cs") (auto split: if_splits)
    with None "2.IH"(1) [OF None] show ?thesis
      by (simp del: strip_prefix.simps)
  next
    case (Some after)
    then have "strip_prefix ''${{'' ((c # cs) @ ''$'') = Some (after @ ''$'')"
      unfolding strip_prefix_Some by simp
    with Some "2.IH"(2) [OF Some] show ?thesis
      by (simp del: strip_prefix.simps)
  qed
qed simp

lemma parse_loop_dollar:
  "canonical_parts slugs lineage parts \<Longrightarrow> dollar_before_ref parts
     \<Longrightarrow> pending = [] \<or> parts = [] \<or> \<not> is_text (hd parts)
     \<Longrightarrow> pt_parts (parse_loop lineage (render_variable_parts parts slugs) pending acc unresolved unterminated)
       \<noteq> acc @ flush pending @ parts"
proof (induction parts arbitrary: pending acc)
  case (Cons part parts)
  have rest: "canonical_parts slugs lineage parts" and wf: "part_wf slugs lineage part"
    using Cons.prems(1) by (auto simp: canonical_parts_def)
  have render: "render_variable_parts (part # parts) slugs = render_part slugs part @ render_variable_parts parts slugs"
    by (simp add: render_variable_parts_def)
  show ?case
  proof (cases part)
    case (Part_Text chunk)
    have apart: "parts = [] \<or> \<not> is_text (hd parts)" "pending = []" "chunk \<noteq> []"
      using Cons.prems(1,3) wf Part_Text by (auto simp: canonical_parts_def part_wf_def)
    show ?thesis
    proof (cases "last chunk = CHR ''$'' \<and> parts \<noteq> []")
      case True
      obtain t where t: "chunk = t @ ''$''"
        using True apart(3) by (metis append_butlast_last_id)
      obtain more where more: "render_variable_parts parts slugs = ''${{'' @ more"
        using True apart(1) render_ref [of "hd parts" slugs] by (cases parts) (auto simp: render_variable_parts_def)
      have "separate t (''$${{'' @ more)"
        by (auto simp: separate_def starts_with_iff)
      then have "parse_loop lineage (render_variable_parts (part # parts) slugs) [] acc unresolved unterminated
          = parse_loop lineage more (t @ ''${{'') acc unresolved unterminated"
        unfolding render using parse_loop_text [of t "''$${{'' @ more"] parse_loop_escape Part_Text more t
        by (simp add: render_part_def replace_braces_dollar del: parse_loop.simps)
      with parse_loop_pending [of "t @ ''${{''" lineage more acc unresolved unterminated] show ?thesis
        using apart(2) Part_Text t by (auto simp: flush_def)
    next
      case False
      then have "separate chunk (render_variable_parts parts slugs)"
        using render_separate [of chunk parts] Cons.prems(1) Part_Text by (auto simp: canonical_parts_def)
      moreover have "dollar_before_ref parts"
        using Cons.prems(2) Part_Text False by auto
      ultimately show ?thesis
        unfolding render using Cons.IH [OF rest, of chunk acc] Part_Text parse_loop_text apart
        by (simp add: render_part_def flush_def)
    qed
  next
    case (Part_Ref owner key)
    with parse_loop_ref [OF wf] Cons.IH [OF rest, of "[]" "acc @ flush pending @ [part]"] Cons.prems(2) show ?thesis
      unfolding render by simp
  qed
qed simp



end
